(* ===== verification/Prelude.thy ===== *)
theory Prelude
  imports Complex_Main "HOL-Library.List_Lexorder" "HOL-Library.Char_ord"
    "HOL-Library.Product_Lexorder" "HOL-Library.Option_ord"
begin

text \<open>
  Shared vocabulary of the development: fallible results, the list form of the SQL statements
  the queue database is driven with (\<open>UPDATE ... WHERE\<close>, \<open>SELECT ... ORDER BY ... LIMIT 1\<close>),
  and the collections the component proofs draw on.

  \<^item> \<open>tab_simps\<close>: how a statement changes a table, a count or a view of one job;
  \<^item> \<open>op_defs\<close>: the definitions of the store's operations;
  \<^item> \<open>inv_defs\<close>: the parts of the database invariant.
\<close>

named_theorems tab_simps
named_theorems op_defs
named_theorems inv_defs

section \<open>Fallible results\<close>

text \<open>A Python call that may raise is a sum: \<open>Inl\<close> the exception, \<open>Inr\<close> the value.\<close>

definition and_then :: "'e + 'a \<Rightarrow> ('a \<Rightarrow> 'e + 'b) \<Rightarrow> 'e + 'b" where
  "and_then r f = (case r of Inl e \<Rightarrow> Inl e | Inr v \<Rightarrow> f v)"

lemma and_then_simps [simp]:
  "and_then (Inl e) f = Inl e"
  "and_then (Inr v) f = f v"
  by (simp_all add: and_then_def)

lemma and_then_eq_Inr: "and_then r f = Inr w \<longleftrightarrow> (\<exists>v. r = Inr v \<and> f v = Inr w)"
  by (cases r) auto

lemma and_then_eq_Inl:
  "and_then r f = Inl e \<longleftrightarrow> r = Inl e \<or> (\<exists>v. r = Inr v \<and> f v = Inl e)"
  by (cases r) auto

definition guard_that :: "bool \<Rightarrow> 'e \<Rightarrow> ('e + 'a) \<Rightarrow> 'e + 'a" where
  \<comment> \<open>\<open>if bad: raise e\<close> followed by the rest of the function\<close>
  "guard_that bad e rest = (if bad then Inl e else rest)"

lemma guard_that_eq_Inr [simp]: "guard_that bad e r = Inr v \<longleftrightarrow> \<not> bad \<and> r = Inr v"
  by (simp add: guard_that_def)

lemma guard_that_eq_Inl:
  "guard_that bad e r = Inl e' \<longleftrightarrow> (bad \<and> e' = e) \<or> (\<not> bad \<and> r = Inl e')"
  by (auto simp: guard_that_def)

lemma guard_that_simps [simp]:
  "guard_that True e r = Inl e"
  "guard_that False e r = r"
  by (simp_all add: guard_that_def)

text \<open>A value that is \<open>None\<close> in Python is passed on unparsed.\<close>

definition opt_parse :: "('a \<Rightarrow> 'e + 'b) \<Rightarrow> 'a option \<Rightarrow> 'e + 'b option" where
  "opt_parse p x = (case x of None \<Rightarrow> Inr None | Some r \<Rightarrow> and_then (p r) (\<lambda>v. Inr (Some v)))"

lemma opt_parse_simps [simp]:
  "opt_parse p None = Inr None"
  "opt_parse p (Some r) = and_then (p r) (\<lambda>v. Inr (Some v))"
  by (simp_all add: opt_parse_def)

section \<open>Rows: UPDATE, SELECT and COUNT over a list of rows\<close>

definition update_where :: "('r \<Rightarrow> bool) \<Rightarrow> ('r \<Rightarrow> 'r) \<Rightarrow> 'r list \<Rightarrow> 'r list" where
  "update_where P f xs = map (\<lambda>x. if P x then f x else x) xs"

definition count_where :: "('r \<Rightarrow> bool) \<Rightarrow> 'r list \<Rightarrow> int" where
  "count_where P xs = int (length (filter P xs))"

definition first_by :: "('r \<Rightarrow> 'k::linorder) \<Rightarrow> 'r list \<Rightarrow> 'r option" where
  \<comment> \<open>\<open>ORDER BY key LIMIT 1\<close>\<close>
  "first_by key xs = (case sort_key key xs of [] \<Rightarrow> None | x # _ \<Rightarrow> Some x)"

lemma update_where_simps [simp]:
  "update_where P f [] = []"
  "update_where P f (x # xs) = (if P x then f x else x) # update_where P f xs"
  by (simp_all add: update_where_def)

lemma update_where_append [simp]:
  "update_where P f (xs @ ys) = update_where P f xs @ update_where P f ys"
  by (simp add: update_where_def)

lemma length_update_where [simp]: "length (update_where P f xs) = length xs"
  by (simp add: update_where_def)

lemma map_update_where:
  assumes "\<And>x. P x \<Longrightarrow> g (f x) = g x"
  shows "map g (update_where P f xs) = map g xs"
  using assms by (induction xs) auto

lemma set_update_where:
  "y \<in> set (update_where P f xs) \<longleftrightarrow> (\<exists>x\<in>set xs. y = (if P x then f x else x))"
  by (auto simp: update_where_def)

lemma update_where_none: "(\<And>x. x \<in> set xs \<Longrightarrow> \<not> P x) \<Longrightarrow> update_where P f xs = xs"
  by (induction xs) auto

lemma filter_update_where_other:
  assumes "\<And>x. P x \<Longrightarrow> \<not> Q x \<and> \<not> Q (f x)"
  shows "filter Q (update_where P f xs) = filter Q xs"
  using assms by (induction xs) auto

lemma filter_update_where_same:
  assumes "\<And>x. Q (f x) = Q x"
  shows "filter Q (update_where P f xs) = update_where P f (filter Q xs)"
  using assms by (induction xs) auto

lemma update_where_cong:
  assumes "\<And>x. x \<in> set xs \<Longrightarrow> P x = Q x" and "\<And>x. x \<in> set xs \<Longrightarrow> Q x \<Longrightarrow> f x = g x"
  shows "update_where P f xs = update_where Q g xs"
  using assms by (induction xs) auto

lemma count_where_simps [simp]:
  "count_where P [] = 0"
  "count_where P (x # xs) = (if P x then 1 else 0) + count_where P xs"
  "count_where P (xs @ ys) = count_where P xs + count_where P ys"
  by (simp_all add: count_where_def)

lemma count_where_nonneg [simp]: "0 \<le> count_where P xs"
  by (simp add: count_where_def)

lemma count_where_eq_0: "count_where P xs = 0 \<longleftrightarrow> (\<forall>x\<in>set xs. \<not> P x)"
  by (simp add: count_where_def filter_empty_conv)

lemma count_where_cong:
  "(\<And>x. x \<in> set xs \<Longrightarrow> P x = Q x) \<Longrightarrow> count_where P xs = count_where Q xs"
  by (induction xs) auto

lemma count_where_mono:
  assumes "\<And>x. x \<in> set xs \<Longrightarrow> P x \<Longrightarrow> Q x"
  shows "count_where P xs \<le> count_where Q xs"
  using assms by (induction xs) (auto simp: add_increasing)

lemma first_by_None [simp]: "first_by key xs = None \<longleftrightarrow> xs = []"
proof -
  have "sort_key key xs = [] \<longleftrightarrow> xs = []"
    by (metis length_0_conv length_sort)
  then show ?thesis by (auto simp: first_by_def split: list.splits)
qed

lemma first_by_Nil [simp]: "first_by key [] = None"
  by simp

lemma first_by_Some:
  assumes "first_by key xs = Some x"
  shows "x \<in> set xs" and "y \<in> set xs \<Longrightarrow> key x \<le> key y"
proof -
  from assms obtain ys where s: "sort_key key xs = x # ys"
    by (auto simp: first_by_def split: list.splits)
  then have "set (x # ys) = set xs" by (metis set_sort)
  moreover have "sorted (map key (x # ys))" using s by (metis sorted_sort_key)
  ultimately show "x \<in> set xs" and "y \<in> set xs \<Longrightarrow> key x \<le> key y" by auto
qed

text \<open>With distinct keys the row chosen is determined by being the least.\<close>

lemma first_by_unique:
  assumes "x \<in> set xs" and "\<And>y. y \<in> set xs \<Longrightarrow> y \<noteq> x \<Longrightarrow> key x < key y"
  shows "first_by key xs = Some x"
proof (cases "first_by key xs")
  case None
  with assms(1) show ?thesis by simp
next
  case (Some z)
  have "z = x"
  proof (rule ccontr)
    assume "z \<noteq> x"
    with first_by_Some(1)[OF Some] assms(2) have "key x < key z" by blast
    moreover have "key z \<le> key x" using Some assms(1) by (rule first_by_Some(2))
    ultimately show False by simp
  qed
  with Some show ?thesis by simp
qed

section \<open>Rows with a unique ascending id\<close>

definition ascending :: "('r \<Rightarrow> int) \<Rightarrow> 'r list \<Rightarrow> bool" where
  "ascending idf xs = sorted_wrt (<) (map idf xs)"

lemma ascending_distinct: "ascending idf xs \<Longrightarrow> distinct (map idf xs)"
  by (simp add: ascending_def strict_sorted_iff)

lemma ascending_inj:
  "ascending idf xs \<Longrightarrow> x \<in> set xs \<Longrightarrow> y \<in> set xs \<Longrightarrow> idf x = idf y \<Longrightarrow> x = y"
  using ascending_distinct[of idf xs] by (auto simp: distinct_map dest: inj_onD)

lemma ascending_filter: "ascending idf xs \<Longrightarrow> ascending idf (filter P xs)"
  by (simp add: ascending_def sorted_wrt_filter sorted_wrt_map)

lemma ascending_append_last:
  "ascending idf xs \<Longrightarrow> (\<And>x. x \<in> set xs \<Longrightarrow> idf x < idf y) \<Longrightarrow> ascending idf (xs @ [y])"
  by (auto simp: ascending_def sorted_wrt_append)

lemma ascending_sort_key:
  assumes "ascending idf xs"
  shows "sort_key idf xs = xs"
proof -
  have "sorted (map idf xs)"
    using assms by (auto simp: ascending_def intro: sorted_wrt_mono_rel[rotated])
  then show ?thesis by (simp add: sort_key_id_if_sorted)
qed

lemma count_unique_id:
  assumes "ascending idf xs" and "x \<in> set xs" and "idf x = i" and "P x"
  shows "count_where (\<lambda>y. idf y = i \<and> P y) xs = 1"
  using assms
proof (induction xs)
  case Nil
  then show ?case by simp
next
  case (Cons z zs)
  have asc: "ascending idf zs" and lt: "\<And>w. w \<in> set zs \<Longrightarrow> idf z < idf w"
    using Cons.prems(1) by (auto simp: ascending_def)
  show ?case
  proof (cases "x = z")
    case True
    have "count_where (\<lambda>y. idf y = i \<and> P y) zs = 0"
      using lt True Cons.prems(3) by (fastforce simp: count_where_eq_0)
    then show ?thesis using True Cons.prems by simp
  next
    case False
    then have "x \<in> set zs" using Cons.prems(2) by simp
    then show ?thesis using lt Cons.IH[OF asc] Cons.prems(3,4) by fastforce
  qed
qed

section \<open>Reachable states\<close>

inductive reach :: "('d \<Rightarrow> bool) \<Rightarrow> ('d \<Rightarrow> 'd \<Rightarrow> bool) \<Rightarrow> 'd \<Rightarrow> bool" for init step where
  start: "init d \<Longrightarrow> reach init step d"
| next_state: "reach init step d \<Longrightarrow> step d d' \<Longrightarrow> reach init step d'"

text \<open>What a component owes its users: an invariant of the initial states kept by every step.\<close>

locale machine =
  fixes init :: "'d \<Rightarrow> bool" and step :: "'d \<Rightarrow> 'd \<Rightarrow> bool" and inv :: "'d \<Rightarrow> bool"
  assumes inv_init: "init d \<Longrightarrow> inv d"
    and inv_step: "inv d \<Longrightarrow> step d d' \<Longrightarrow> inv d'"
begin

lemma reach_inv: "reach init step d \<Longrightarrow> inv d"
  by (induction rule: reach.induct) (auto intro: inv_init inv_step)

end

text \<open>
  A machine whose every step is, through an abstraction, a step of a smaller machine or none at all.
\<close>

locale simulation = machine init step inv
  for init :: "'d \<Rightarrow> bool" and step and inv +
  fixes ainit :: "'a \<Rightarrow> bool" and astep :: "'a \<Rightarrow> 'a \<Rightarrow> bool" and abst :: "'d \<Rightarrow> 'a"
  assumes abs_init: "init d \<Longrightarrow> ainit (abst d)"
    and abs_step: "inv d \<Longrightarrow> step d d' \<Longrightarrow> abst d' = abst d \<or> astep (abst d) (abst d')"
begin

lemma reach_abst: "reach init step d \<Longrightarrow> reach ainit astep (abst d)"
proof (induction rule: reach.induct)
  case (start d)
  then show ?case by (intro reach.start abs_init)
next
  case (next_state d d')
  then show ?case using abs_step[OF reach_inv, of d d'] reach.next_state[of ainit astep "abst d"]
    by metis
qed

end

end
