(* ===== verification/PyFloat.thy ===== *)
theory PyFloat
  imports Prelude "HOL-Library.Log_Nat"
begin

text \<open>
  Python floats. Every timestamp and duration of spoolctl is an IEEE-754 double
  (\<open>time.time()\<close> epoch seconds, SQLite \<open>REAL\<close> columns). A finite double is modelled by the rational
  number it denotes, so comparisons are the comparisons of rationals; \<open>dbl\<close> rounds a rational to
  the nearest double (53-bit significand, ties to even, gradual underflow at \<open>2 ^ -1074\<close>) and
  \<open>fadd\<close>, \<open>fsub\<close>, \<open>fmul\<close> are the exact operation followed by that rounding, as the hardware does it.
  Infinities and NaN are no values of the type: a conversion that can produce one
  (\<open>float(text)\<close>) checks \<open>dbl_overflows\<close>.
\<close>

type_synonym pyfloat = rat

section \<open>Binary logarithm and rounding to an integer\<close>

definition ilog2 :: "rat \<Rightarrow> int" where
  "ilog2 x = (case quotient_of x of (p, q) \<Rightarrow>
     let k = bitlen p - bitlen q in if 2 powi k \<le> x then k else k - 1)"

definition round_half_even :: "rat \<Rightarrow> int" where
  "round_half_even x = (let f = \<lfloor>x\<rfloor>; d = x - of_int f in
     if d < 1/2 then f else if 1/2 < d then f + 1 else if even f then f else f + 1)"

definition dbl_pos :: "rat \<Rightarrow> rat" where
  "dbl_pos x = (let e = max (ilog2 x - 52) (- 1074) in
     of_int (round_half_even (x / 2 powi e)) * 2 powi e)"

definition dbl :: "rat \<Rightarrow> pyfloat" where
  "dbl x = (if x = 0 then 0 else if x < 0 then - dbl_pos (- x) else dbl_pos x)"

definition dbl_overflows :: "rat \<Rightarrow> bool" where
  \<comment> \<open>rounds to an infinity: at least half a unit beyond the largest finite double\<close>
  "dbl_overflows x \<longleftrightarrow> 2 ^ 1024 - 2 ^ 970 \<le> \<bar>x\<bar>"

definition fadd :: "pyfloat \<Rightarrow> pyfloat \<Rightarrow> pyfloat" where
  "fadd x y = dbl (x + y)"

definition fsub :: "pyfloat \<Rightarrow> pyfloat \<Rightarrow> pyfloat" where
  "fsub x y = dbl (x - y)"

definition fmul :: "pyfloat \<Rightarrow> pyfloat \<Rightarrow> pyfloat" where
  "fmul x y = dbl (x * y)"

definition is_dbl :: "pyfloat \<Rightarrow> bool" where
  \<comment> \<open>the rational is a double, as every float the program holds is\<close>
  "is_dbl x \<longleftrightarrow> dbl x = x"

section \<open>Powers of two\<close>

lemma powi2_pos [simp]: "(0::rat) < 2 powi k"
  by simp

lemma powi2_mono: "i \<le> j \<Longrightarrow> (2::rat) powi i \<le> 2 powi j"
  by (rule power_int_increasing) auto

lemma powi2_less_imp: "(2::rat) powi i < 2 powi j \<Longrightarrow> i < j"
  using powi2_mono[of j i] by linarith

lemma powi2_add: "(2::rat) powi (i + j) = 2 powi i * 2 powi j"
  by (rule power_int_add) simp

lemma powi2_nat: "0 \<le> k \<Longrightarrow> (2::rat) powi k = of_int (2 ^ nat k)"
  by (simp add: power_int_def)

lemma bitlen_powi:
  assumes "0 < p"
  shows "2 powi (bitlen p - 1) \<le> rat_of_int p" and "rat_of_int p < 2 powi (bitlen p)"
proof -
  have b: "1 \<le> bitlen p" using assms bitlen_le_iff_power[of p 0] by (smt (verit) bitlen_eq_zero_iff bitlen_nonneg)
  have "2 ^ nat (bitlen p - 1) \<le> p \<and> p < 2 ^ nat (bitlen p)"
    using bitlen_bounds[OF assms] .
  then have "rat_of_int (2 ^ nat (bitlen p - 1)) \<le> rat_of_int p"
    and "rat_of_int p < rat_of_int (2 ^ nat (bitlen p))"
    using of_int_le_iff of_int_less_iff by blast+
  with b show "2 powi (bitlen p - 1) \<le> rat_of_int p" and "rat_of_int p < 2 powi (bitlen p)"
    by (simp_all add: powi2_nat)
qed

lemma ilog2_bounds:
  assumes "0 < x"
  shows "2 powi ilog2 x \<le> x" and "x < 2 powi (ilog2 x + 1)"
proof -
  obtain p q where pq: "quotient_of x = (p, q)" by fastforce
  have q: "0 < q" using pq by (rule quotient_of_denom_pos)
  have x: "x = rat_of_int p / rat_of_int q" using pq by (rule quotient_of_div)
  then have p: "0 < p" using assms q by (simp add: zero_less_divide_iff)
  let ?k = "bitlen p - bitlen q"
  have lo: "2 powi (?k - 1) \<le> x"
  proof -
    have "2 powi (?k - 1) * rat_of_int q \<le> 2 powi (?k - 1) * 2 powi (bitlen q)"
      using bitlen_powi(2)[OF q] by (intro mult_left_mono) auto
    also have "\<dots> = 2 powi (bitlen p - 1)" by (simp flip: powi2_add)
    also have "\<dots> \<le> rat_of_int p" by (rule bitlen_powi(1)[OF p])
    finally show ?thesis using q by (simp add: x field_simps)
  qed
  have hi: "x < 2 powi (?k + 1)"
  proof -
    have "rat_of_int p < 2 powi (bitlen p)" by (rule bitlen_powi(2)[OF p])
    also have "\<dots> = 2 powi (?k + 1) * 2 powi (bitlen q - 1)" by (simp flip: powi2_add)
    also have "\<dots> \<le> 2 powi (?k + 1) * rat_of_int q"
      using bitlen_powi(1)[OF q] by (intro mult_left_mono) auto
    finally show ?thesis using q by (simp add: x field_simps)
  qed
  show "2 powi ilog2 x \<le> x" and "x < 2 powi (ilog2 x + 1)"
    using lo hi by (auto simp: ilog2_def pq Let_def)
qed

lemma ilog2_mono: "0 < x \<Longrightarrow> x \<le> y \<Longrightarrow> ilog2 x \<le> ilog2 y"
  using ilog2_bounds[of x] ilog2_bounds[of y] powi2_less_imp[of "ilog2 x" "ilog2 y + 1"] by linarith

section \<open>Rounding is monotone and exact on integers up to \<open>2 ^ 53\<close>\<close>

lemma round_half_even_of_int [simp]: "round_half_even (of_int n) = n"
  by (simp add: round_half_even_def)

lemma round_half_even_mono:
  assumes "x \<le> y"
  shows "round_half_even x \<le> round_half_even y"
proof (cases "\<lfloor>x\<rfloor> = \<lfloor>y\<rfloor>")
  case True
  with assms show ?thesis by (auto simp: round_half_even_def Let_def)
next
  case False
  then have "\<lfloor>x\<rfloor> + 1 \<le> \<lfloor>y\<rfloor>" using floor_mono[OF assms] by linarith
  moreover have "round_half_even x \<le> \<lfloor>x\<rfloor> + 1" by (simp add: round_half_even_def Let_def)
  moreover have "\<lfloor>y\<rfloor> \<le> round_half_even y" by (simp add: round_half_even_def Let_def)
  ultimately show ?thesis by linarith
qed

lemma round_half_even_le: "x \<le> of_int n \<Longrightarrow> round_half_even x \<le> n"
  using round_half_even_mono[of x "of_int n"] by simp

lemma round_half_even_ge: "of_int n \<le> x \<Longrightarrow> n \<le> round_half_even x"
  using round_half_even_mono[of "of_int n" x] by simp

lemma dbl_pos_nonneg: "0 \<le> x \<Longrightarrow> 0 \<le> dbl_pos x"
  using round_half_even_ge[of 0 "x / 2 powi max (ilog2 x - 52) (- 1074)"]
  by (simp add: dbl_pos_def Let_def)

lemma dbl_pos_mono:
  assumes "0 < x" and "x \<le> y"
  shows "dbl_pos x \<le> dbl_pos y"
proof -
  let ?ex = "max (ilog2 x - 52) (- 1074)" and ?ey = "max (ilog2 y - 52) (- 1074)"
  have y: "0 < y" using assms by simp
  show ?thesis
  proof (cases "?ex = ?ey")
    case True
    have "round_half_even (x / 2 powi ?ex) \<le> round_half_even (y / 2 powi ?ex)"
      using assms(2) by (intro round_half_even_mono divide_right_mono) auto
    then show ?thesis unfolding dbl_pos_def Let_def True
      by (intro mult_right_mono) (auto simp: True)
  next
    case False
    then have lt: "?ex + 1 \<le> ?ey" and ey: "?ey = ilog2 y - 52"
      using ilog2_mono[OF assms] by auto
    have "x < 2 powi (?ex + 53)"
      using ilog2_bounds(2)[OF assms(1)] powi2_mono[of "ilog2 x + 1" "?ex + 53"] by linarith
    then have "x / 2 powi ?ex \<le> of_int (2 ^ 53)"
      by (simp add: powi2_add field_simps)
    then have "of_int (round_half_even (x / 2 powi ?ex)) \<le> rat_of_int (2 ^ 53)"
      using round_half_even_le of_int_le_iff by blast
    then have "dbl_pos x \<le> rat_of_int (2 ^ 53) * 2 powi ?ex"
      unfolding dbl_pos_def Let_def by (intro mult_right_mono) auto
    also have "\<dots> = 2 powi (?ex + 53)" by (simp add: powi2_add)
    also have "\<dots> \<le> 2 powi (?ey + 52)" using lt by (intro powi2_mono) simp
    also have "\<dots> = rat_of_int (2 ^ 52) * 2 powi ?ey" by (simp add: powi2_add)
    also have "\<dots> \<le> dbl_pos y"
    proof -
      have "2 powi (?ey + 52) \<le> y" using ilog2_bounds(1)[OF y] ey by simp
      then have "of_int (2 ^ 52) \<le> y / 2 powi ?ey" by (simp add: powi2_add field_simps)
      then have "rat_of_int (2 ^ 52) \<le> of_int (round_half_even (y / 2 powi ?ey))"
        using round_half_even_ge of_int_le_iff by blast
      then show ?thesis unfolding dbl_pos_def Let_def by (intro mult_right_mono) auto
    qed
    finally show ?thesis .
  qed
qed

lemma dbl_mono:
  assumes "x \<le> y"
  shows "dbl x \<le> dbl y"
proof -
  consider "0 < x" | "x \<le> 0" "0 \<le> y" | "y < 0" using assms by linarith
  then show ?thesis
  proof cases
    case 1
    with assms show ?thesis by (simp add: dbl_def dbl_pos_mono)
  next
    case 2
    then show ?thesis using dbl_pos_nonneg[of y] dbl_pos_nonneg[of "- x"]
      by (auto simp: dbl_def)
  next
    case 3
    with assms show ?thesis using dbl_pos_mono[of "- y" "- x"] by (auto simp: dbl_def)
  qed
qed

lemma dbl_pos_int:
  assumes "0 < n" and "n \<le> 2 ^ 53"
  shows "dbl_pos (of_int n) = of_int n"
proof -
  let ?x = "rat_of_int n" and ?e = "max (ilog2 (rat_of_int n) - 52) (- 1074)"
  have x: "0 < ?x" using assms by simp
  have ub: "?x \<le> 2 powi 53"
    using assms(2) of_int_le_iff[where 'a = rat, of n "2 ^ 53"] by simp
  have "\<exists>m. ?x / 2 powi ?e = of_int m"
  proof (cases "?e \<le> 0")
    case True
    then have "?x / 2 powi ?e = of_int (n * 2 ^ nat (- ?e))"
      using powi2_nat[of "- ?e"] by (simp add: power_int_minus field_simps)
    then show ?thesis by blast
  next
    case False
    then have "2 powi 53 \<le> ?x"
      using ilog2_bounds(1)[OF x] powi2_mono[of 53 "ilog2 ?x"] by linarith
    with ub have n: "?x = 2 powi 53" by simp
    then have "ilog2 ?x < 54"
      using ilog2_bounds(1)[OF x] powi2_less_imp[of "ilog2 ?x" 54] by simp
    with False have e: "?e = 1" by simp
    have "?x / 2 powi ?e = ?x / 2 powi 1" by (simp only: e)
    also have "\<dots> = of_int (2 ^ 52)" using n by simp
    finally have "?x / 2 powi ?e = of_int (2 ^ 52)" .
    then show ?thesis by blast
  qed
  then obtain m where m: "?x / 2 powi ?e = of_int m" ..
  then have "dbl_pos ?x = of_int m * 2 powi ?e" by (simp add: dbl_pos_def Let_def)
  also have "\<dots> = ?x" using m[symmetric] by simp
  finally show ?thesis .
qed

lemma dbl_int: "\<bar>n\<bar> \<le> 2 ^ 53 \<Longrightarrow> dbl (of_int n) = of_int n"
  using dbl_pos_int[of n] dbl_pos_int[of "- n"] by (auto simp: dbl_def)

lemma dbl_numeral [simp]: "numeral w \<le> (2 ^ 53 :: int) \<Longrightarrow> dbl (numeral w) = numeral w"
  using dbl_int[of "numeral w"] by simp

lemma dbl_neg_numeral [simp]:
  "numeral w \<le> (2 ^ 53 :: int) \<Longrightarrow> dbl (- numeral w) = - numeral w"
  using dbl_int[of "- numeral w"] by simp

lemma dbl_0 [simp]: "dbl 0 = 0" and dbl_1 [simp]: "dbl 1 = 1"
  using dbl_int[of 1] by (simp_all add: dbl_def)

lemma is_dbl_numeral [simp]:
  "numeral w \<le> (2 ^ 53 :: int) \<Longrightarrow> is_dbl (numeral w)" "is_dbl 0" "is_dbl 1"
  by (simp_all add: is_dbl_def)

lemma fadd_ge: "is_dbl x \<Longrightarrow> 0 \<le> d \<Longrightarrow> x \<le> fadd x d"
  using dbl_mono[of x "x + d"] by (simp add: is_dbl_def fadd_def)

lemma fsub_le: "is_dbl x \<Longrightarrow> 0 \<le> d \<Longrightarrow> fsub x d \<le> x"
  using dbl_mono[of "x - d" x] by (simp add: is_dbl_def fsub_def)

lemma fsub_mono: "x \<le> y \<Longrightarrow> fsub x d \<le> fsub y d"
  unfolding fsub_def by (rule dbl_mono) simp

lemma dbl_overflows_small: "\<bar>x\<bar> \<le> 2 ^ 53 \<Longrightarrow> \<not> dbl_overflows x"
  by (simp add: dbl_overflows_def)

lemma dbl_overflows_code [code]:
  "dbl_overflows x \<longleftrightarrow> (if \<bar>x\<bar> \<le> 9007199254740992 then False else 2 ^ 1024 - 2 ^ 970 \<le> \<bar>x\<bar>)"
  using dbl_overflows_small[of x] by (simp add: dbl_overflows_def)

end
