(* ===== verification/PyStr.thy ===== *)
theory PyStr
  imports PyFloat
begin

text \<open>
  The part of Python's \<open>str\<close>, \<open>dict\<close>, \<open>int\<close>, \<open>float\<close> and \<open>os.path\<close> (POSIX) that spoolctl uses.
  A \<^typ>\<open>char\<close> is a code point below 256, so a \<^typ>\<open>string\<close> is a Python string over the Latin-1
  range and \<open>length\<close> counts code points as \<open>len\<close> does; the character classes below are
  Python's on that range. Regular expressions of \<open>models.py\<close> are anchored and used with \<open>fullmatch\<close>;
  each is the predicate that decides it. The numeric texts are read by recursive scanners; the
  round trip of \<open>str\<close> and \<open>int\<close> is at the end.
\<close>

section \<open>Characters\<close>

abbreviation ord :: "char \<Rightarrow> nat" where
  "ord c \<equiv> of_char c"

definition is_digit :: "char \<Rightarrow> bool" where
  \<comment> \<open>the regular expression class \<open>\d\<close>\<close>
  "is_digit c \<longleftrightarrow> 48 \<le> ord c \<and> ord c \<le> 57"

definition is_ascii_letter :: "char \<Rightarrow> bool" where
  "is_ascii_letter c \<longleftrightarrow> (65 \<le> ord c \<and> ord c \<le> 90) \<or> (97 \<le> ord c \<and> ord c \<le> 122)"

definition is_alpha :: "char \<Rightarrow> bool" where
  \<comment> \<open>\<open>str.isalpha\<close> of one character\<close>
  "is_alpha c \<longleftrightarrow> is_ascii_letter c \<or> ord c \<in> {170, 181, 186} \<or>
     (192 \<le> ord c \<and> ord c \<noteq> 215 \<and> ord c \<noteq> 247)"

definition is_space :: "char \<Rightarrow> bool" where
  \<comment> \<open>what \<open>str.strip()\<close> removes\<close>
  "is_space c \<longleftrightarrow> (9 \<le> ord c \<and> ord c \<le> 13) \<or> (28 \<le> ord c \<and> ord c \<le> 32) \<or>
     ord c = 133 \<or> ord c = 160"

definition is_printable :: "char \<Rightarrow> bool" where
  \<comment> \<open>\<open>str.isprintable\<close> of one character\<close>
  "is_printable c \<longleftrightarrow> (32 \<le> ord c \<and> ord c \<le> 126) \<or> (161 \<le> ord c \<and> ord c \<noteq> 173)"

definition NUL :: char where
  "NUL = CHR 0x00"

section \<open>Strings\<close>

definition strip :: "string \<Rightarrow> string" where
  "strip s = rev (dropWhile is_space (rev (dropWhile is_space s)))"

definition starts_with :: "string \<Rightarrow> string \<Rightarrow> bool" where
  "starts_with p s \<longleftrightarrow> take (length p) s = p"

definition substring :: "string \<Rightarrow> string \<Rightarrow> bool" where
  \<comment> \<open>\<open>p in s\<close>\<close>
  "substring p s \<longleftrightarrow> (\<exists>i\<in>set [0..<Suc (length s)]. starts_with p (drop i s))"

definition split_eq :: "string \<Rightarrow> string \<times> string" where
  \<comment> \<open>\<open>s.split("=", 1)\<close> for a string that holds an equals sign\<close>
  "split_eq s = (takeWhile (\<lambda>c. c \<noteq> CHR ''='') s, tl (dropWhile (\<lambda>c. c \<noteq> CHR ''='') s))"

fun split_on :: "char \<Rightarrow> string \<Rightarrow> string list" where
  "split_on c [] = [[]]"
| "split_on c (x # xs) =
     (if x = c then [] # split_on c xs
      else (case split_on c xs of [] \<Rightarrow> [[x]] | w # ws \<Rightarrow> (x # w) # ws))"

fun join_with :: "string \<Rightarrow> string list \<Rightarrow> string" where
  "join_with sep [] = []"
| "join_with sep [w] = w"
| "join_with sep (w # ws) = w @ sep @ join_with sep ws"

lemma split_eq_join:
  "CHR ''='' \<in> set s \<Longrightarrow> s = fst (split_eq s) @ CHR ''='' # snd (split_eq s)"
  by (induction s) (auto simp: split_eq_def)

lemma split_eq_key_free: "CHR ''='' \<notin> set (fst (split_eq s))"
  by (auto simp: split_eq_def dest: set_takeWhileD)

lemma split_on_ne [simp]: "split_on c s \<noteq> []"
  by (cases s) (auto split: list.splits)

lemma join_split: "join_with [c] (split_on c s) = s"
proof (induction s)
  case Nil
  then show ?case by simp
next
  case (Cons x xs)
  obtain w ws where w: "split_on c xs = w # ws"
    using split_on_ne[of c xs] by (cases "split_on c xs") auto
  with Cons.IH show ?case by (cases ws) auto
qed

lemma split_on_char_free: "w \<in> set (split_on c s) \<Longrightarrow> c \<notin> set w"
proof (induction s arbitrary: w)
  case Nil
  then show ?case by simp
next
  case (Cons x xs)
  then show ?case by (cases "split_on c xs") (auto split: if_splits)
qed

lemma starts_with_append [simp]: "starts_with p (p @ s)"
  by (simp add: starts_with_def)

lemma starts_with_iff: "starts_with p s \<longleftrightarrow> (\<exists>t. s = p @ t)"
  by (metis append_take_drop_id starts_with_append starts_with_def)

lemma substring_iff: "substring p s \<longleftrightarrow> (\<exists>u v. s = u @ p @ v)"
proof
  assume "substring p s"
  then obtain i t where t: "drop i s = p @ t" by (auto simp: substring_def starts_with_iff)
  have "s = take i s @ drop i s" by simp
  with t show "\<exists>u v. s = u @ p @ v" by metis
next
  assume "\<exists>u v. s = u @ p @ v"
  then obtain u v where s: "s = u @ p @ v" by blast
  then have "starts_with p (drop (length u) s)" by simp
  moreover have "length u \<in> set [0..<Suc (length s)]" using s by simp
  ultimately show "substring p s" unfolding substring_def by blast
qed

section \<open>Dictionaries\<close>

text \<open>
  A \<open>dict[str, str]\<close> is an association list in insertion order with distinct keys; equality of
  dicts ignores the order. \<open>json.dumps(d, sort_keys=True)\<close> followed by \<open>json.loads\<close> is the same
  dict with its keys in order.
\<close>

type_synonym pydict = "(string \<times> string) list"

fun dict_set :: "pydict \<Rightarrow> string \<Rightarrow> string \<Rightarrow> pydict" where
  "dict_set [] k v = [(k, v)]"
| "dict_set ((k', v') # d) k v = (if k' = k then (k, v) # d else (k', v') # dict_set d k v)"

definition dict_eq :: "pydict \<Rightarrow> pydict \<Rightarrow> bool" where
  "dict_eq d e \<longleftrightarrow> set d = set e"

definition dict_sorted :: "pydict \<Rightarrow> pydict" where
  "dict_sorted d = sort_key fst d"

definition is_dict :: "pydict \<Rightarrow> bool" where
  "is_dict d \<longleftrightarrow> distinct (map fst d)"

lemma dict_eq_map_of: "is_dict d \<Longrightarrow> is_dict e \<Longrightarrow> dict_eq d e \<longleftrightarrow> map_of d = map_of e"
  by (simp add: is_dict_def dict_eq_def map_of_inject_set)

lemma dict_sorted_eq [simp]: "dict_eq (dict_sorted d) d" "dict_eq d (dict_sorted d)"
  by (simp_all add: dict_eq_def dict_sorted_def)

lemma dict_eq_sorted_iff [simp]: "dict_eq (dict_sorted d) e \<longleftrightarrow> dict_eq d e"
  by (simp add: dict_eq_def dict_sorted_def)

lemma map_of_dict_set [simp]: "map_of (dict_set d k v) = (map_of d)(k \<mapsto> v)"
  by (induction d k v rule: dict_set.induct) (auto simp: fun_eq_iff)

lemma keys_dict_set: "set (map fst (dict_set d k v)) = insert k (set (map fst d))"
  by (induction d k v rule: dict_set.induct) auto

lemma is_dict_set: "is_dict d \<Longrightarrow> is_dict (dict_set d k v)"
  unfolding is_dict_def
  by (induction d k v rule: dict_set.induct) (use keys_dict_set in \<open>auto simp: image_iff\<close>)

section \<open>Integers as text\<close>

definition digit_val :: "char \<Rightarrow> nat" where
  "digit_val c = ord c - 48"

definition digits_val :: "string \<Rightarrow> nat" where
  "digits_val s = foldl (\<lambda>n c. 10 * n + digit_val c) 0 s"

definition all_digits :: "string \<Rightarrow> bool" where
  "all_digits s \<longleftrightarrow> list_all is_digit s"

definition unsign :: "string \<Rightarrow> string" where
  \<comment> \<open>the text after the optional sign\<close>
  "unsign s = (case s of [] \<Rightarrow> [] | c # r \<Rightarrow> if c = CHR ''+'' \<or> c = CHR ''-'' then r else s)"

definition sign_of :: "string \<Rightarrow> int" where
  "sign_of s = (if starts_with ''-'' s then - 1 else 1)"

definition INT_RE :: "string \<Rightarrow> bool" where
  "INT_RE s \<longleftrightarrow> unsign s \<noteq> [] \<and> all_digits (unsign s)"

definition INT_MAX_STR_DIGITS :: nat where
  \<comment> \<open>the interpreter's default limit on the digits \<open>int(text)\<close> converts\<close>
  "INT_MAX_STR_DIGITS = 4300"

definition int_of_str :: "string \<Rightarrow> int option" where
  \<comment> \<open>\<open>int(raw, 10)\<close> on a text that matches \<open>INT_RE\<close>; \<open>None\<close> is the \<open>ValueError\<close> past the limit\<close>
  "int_of_str s = (if INT_MAX_STR_DIGITS < length (unsign s) then None
     else Some (sign_of s * int (digits_val (unsign s))))"

fun str_of_nat :: "nat \<Rightarrow> string" where
  "str_of_nat n = (if n < 10 then [char_of (48 + n)]
     else str_of_nat (n div 10) @ [char_of (48 + n mod 10)])"

declare str_of_nat.simps [simp del]

definition str_of_int :: "int \<Rightarrow> string" where
  "str_of_int i = (if i < 0 then CHR ''-'' # str_of_nat (nat (- i)) else str_of_nat (nat i))"

lemma digits_val_append [simp]:
  "digits_val (s @ [c]) = 10 * digits_val s + digit_val c"
  by (simp add: digits_val_def)

lemma ord_char_of_digit: "n < 10 \<Longrightarrow> ord (char_of (48 + n) :: char) = 48 + n"
  by simp

lemma digits_val_str_of_nat: "digits_val (str_of_nat n) = n"
proof (induction n rule: str_of_nat.induct)
  case (1 n)
  show ?case
  proof (cases "n < 10")
    case True
    then show ?thesis
      by (subst str_of_nat.simps) (simp add: digits_val_def digit_val_def)
  next
    case False
    have "digit_val (char_of (48 + n mod 10)) = n mod 10" by (simp add: digit_val_def)
    with 1 False show ?thesis by (subst str_of_nat.simps) simp
  qed
qed

lemma all_digits_str_of_nat: "all_digits (str_of_nat n)"
proof (induction n rule: str_of_nat.induct)
  case (1 n)
  then show ?case
    by (subst str_of_nat.simps) (auto simp: all_digits_def is_digit_def)
qed

lemma str_of_nat_ne [simp]: "str_of_nat n \<noteq> []"
  by (subst str_of_nat.simps) simp

lemma str_of_nat_hd:
  obtains c r where "str_of_nat n = c # r" and "is_digit c"
  using all_digits_str_of_nat[of n] str_of_nat_ne[of n]
  by (cases "str_of_nat n") (auto simp: all_digits_def)

lemma digit_not_sign: "is_digit c \<Longrightarrow> c \<noteq> CHR ''-'' \<and> c \<noteq> CHR ''+''"
  by (auto simp: is_digit_def)

lemma unsign_digits: "all_digits s \<Longrightarrow> unsign s = s"
  by (cases s) (auto simp: unsign_def all_digits_def dest: digit_not_sign)

lemma unsign_str_of_int: "unsign (str_of_int i) = str_of_nat (nat \<bar>i\<bar>)"
proof (cases "i < 0")
  case True
  then show ?thesis by (simp add: str_of_int_def unsign_def)
next
  case False
  then show ?thesis by (simp add: str_of_int_def unsign_digits[OF all_digits_str_of_nat])
qed

lemma sign_of_str_of_int: "sign_of (str_of_int i) = (if i < 0 then - 1 else 1)"
proof (cases "i < 0")
  case True
  then show ?thesis by (simp add: str_of_int_def sign_of_def starts_with_def)
next
  case False
  obtain c r where "str_of_nat (nat i) = c # r" and "is_digit c" by (rule str_of_nat_hd)
  with False show ?thesis
    by (auto simp: str_of_int_def sign_of_def starts_with_def dest: digit_not_sign)
qed

lemma INT_RE_str_of_int: "INT_RE (str_of_int i)"
  by (simp add: INT_RE_def unsign_str_of_int all_digits_str_of_nat)

lemma length_str_of_nat: "n < 10 ^ k \<Longrightarrow> 0 < k \<Longrightarrow> length (str_of_nat n) \<le> k"
proof (induction n arbitrary: k rule: str_of_nat.induct)
  case (1 n)
  show ?case
  proof (cases "n < 10")
    case True
    with 1 show ?thesis by (subst str_of_nat.simps) simp
  next
    case False
    obtain k' where k: "k = Suc k'" using "1.prems"(2) by (cases k) auto
    have "k' \<noteq> 0" using False "1.prems"(1) k by (cases k') auto
    moreover have "n div 10 < 10 ^ k'" using "1.prems"(1) k by (simp add: div_less_iff_less_mult)
    ultimately have "length (str_of_nat (n div 10)) \<le> k'" using "1.IH" False by blast
    with False k show ?thesis by (subst str_of_nat.simps) simp
  qed
qed

lemma int_of_str_of_int:
  assumes "\<bar>i\<bar> < 10 ^ INT_MAX_STR_DIGITS"
  shows "int_of_str (str_of_int i) = Some i"
proof -
  have "0 < INT_MAX_STR_DIGITS" by (simp add: INT_MAX_STR_DIGITS_def)
  moreover have "nat \<bar>i\<bar> < 10 ^ INT_MAX_STR_DIGITS"
    using assms by (simp add: nat_less_iff)
  ultimately have "length (str_of_nat (nat \<bar>i\<bar>)) \<le> INT_MAX_STR_DIGITS"
    by (intro length_str_of_nat)
  then show ?thesis
    by (simp add: int_of_str_def unsign_str_of_int sign_of_str_of_int digits_val_str_of_nat)
qed

section \<open>Decimals as text\<close>

definition int_part :: "string \<Rightarrow> string" where
  "int_part s = takeWhile is_digit s"

definition frac_part :: "string \<Rightarrow> string" where
  \<comment> \<open>what follows the integer digits\<close>
  "frac_part s = dropWhile is_digit s"

definition DECIMAL_RE :: "string \<Rightarrow> bool" where
  \<comment> \<open>\<open>\d+(\.\d*)?|\.\d+\<close>\<close>
  "DECIMAL_RE s \<longleftrightarrow> (case frac_part s of
       [] \<Rightarrow> int_part s \<noteq> []
     | c # r \<Rightarrow> c = CHR ''.'' \<and> all_digits r \<and> (int_part s \<noteq> [] \<or> r \<noteq> []))"

definition SIGNED_DECIMAL_RE :: "string \<Rightarrow> bool" where
  "SIGNED_DECIMAL_RE s \<longleftrightarrow> DECIMAL_RE (unsign s)"

definition decimal_val :: "string \<Rightarrow> rat" where
  \<comment> \<open>the exact value of an unsigned decimal\<close>
  "decimal_val s = (case frac_part s of
       [] \<Rightarrow> of_nat (digits_val (int_part s))
     | c # r \<Rightarrow> of_nat (digits_val (int_part s)) + of_nat (digits_val r) / 10 ^ length r)"

datatype py_float_val = Finite pyfloat | Infinite | NaN

definition to_float :: "rat \<Rightarrow> py_float_val" where
  "to_float x = (if dbl_overflows x then Infinite else Finite (dbl x))"

lemma decimal_val_nonneg: "0 \<le> decimal_val s"
  by (auto simp: decimal_val_def split: list.splits)

section \<open>Paths\<close>

definition isabs :: "string \<Rightarrow> bool" where
  "isabs p \<longleftrightarrow> starts_with ''/'' p"

definition path_join :: "string \<Rightarrow> string \<Rightarrow> string" where
  \<comment> \<open>\<open>os.path.join(a, b)\<close>\<close>
  "path_join a b = (if isabs b then b
     else if a = [] \<or> last a = CHR ''/'' then a @ b else a @ ''/'' @ b)"

end
