(* ===== verification/Models.thy ===== *)
theory Models
  imports PyStr
begin

text \<open>
  \<open>spoolctl/models.py\<close> and \<open>spoolctl/errors.py\<close>: the closed vocabularies (job states, attempt states,
  failure reasons, event types, error and warning codes) as datatypes with the text each has in the
  database, the tunables, the exit-code registry, the retry backoff, the did-you-mean matcher, and
  the \<open>Job\<close> and \<open>Attempt\<close> records. Message and remediation texts of errors are left out; code,
  exit code and suggestion are kept.
\<close>

section \<open>Vocabularies\<close>

datatype job_state = QUEUED | RUNNING | DONE | FAILED | DEAD | CANCELED

definition JOB_STATES :: "job_state list" where
  "JOB_STATES = [QUEUED, RUNNING, DONE, FAILED, DEAD, CANCELED]"

fun job_state_name :: "job_state \<Rightarrow> string" where
  "job_state_name QUEUED = ''queued''"
| "job_state_name RUNNING = ''running''"
| "job_state_name DONE = ''done''"
| "job_state_name FAILED = ''failed''"
| "job_state_name DEAD = ''dead''"
| "job_state_name CANCELED = ''canceled''"

definition WAIT_TERMINAL :: "job_state list" where
  "WAIT_TERMINAL = [CANCELED, DEAD, DONE]"

definition PRUNABLE_STATES :: "job_state list" where
  "PRUNABLE_STATES = [CANCELED, DEAD, DONE]"

datatype attempt_state =
  ATT_RUNNING | ATT_SUCCEEDED | ATT_FAILED | ATT_TIMED_OUT | ATT_ABANDONED | ATT_CANCELED

datatype failure_reason =
  REASON_PROCESS_EXIT | REASON_TIMEOUT | REASON_SPAWN_FAILED
| REASON_WORKER_CRASH | REASON_CANCELED | REASON_UNKNOWN

definition FAILURE_REASONS :: "(string \<times> failure_reason) list" where
  "FAILURE_REASONS =
     [(''process_exit'', REASON_PROCESS_EXIT), (''timeout'', REASON_TIMEOUT),
      (''spawn_failed'', REASON_SPAWN_FAILED), (''worker_crash'', REASON_WORKER_CRASH),
      (''canceled'', REASON_CANCELED), (''unknown'', REASON_UNKNOWN)]"

datatype event_type =
  EV_ADDED | EV_CLAIMED | EV_SUCCEEDED | EV_FAILED | EV_TIMED_OUT
| EV_REAPED | EV_DEAD | EV_RETRIED | EV_CANCELED

definition VERBS :: "string list" where
  "VERBS = [''add'', ''work'', ''wait'', ''status'', ''list'', ''show'', ''retry'', ''cancel'',
     ''prune'', ''output'', ''feedback'', ''events'', ''config-show'', ''config-validate'',
     ''doctor'', ''brief'', ''schema'', ''capabilities'', ''robot-docs'']"

text \<open>\<open>sorted(JOB_STATES)\<close> orders states by their text.\<close>

lemma job_state_name_inj: "job_state_name s = job_state_name t \<Longrightarrow> s = t"
  by (cases s; cases t; simp)

instantiation job_state :: linorder
begin

definition less_eq_job_state :: "job_state \<Rightarrow> job_state \<Rightarrow> bool" where
  "less_eq_job_state s t = (job_state_name s \<le> job_state_name t)"

definition less_job_state :: "job_state \<Rightarrow> job_state \<Rightarrow> bool" where
  "less_job_state s t = (job_state_name s < job_state_name t)"

instance
  by standard (auto simp: less_eq_job_state_def less_job_state_def intro: job_state_name_inj)

end

lemma all_job_states: "s \<in> set JOB_STATES"
  by (cases s) (auto simp: JOB_STATES_def)

lemma distinct_JOB_STATES: "distinct JOB_STATES"
  by (simp add: JOB_STATES_def)

section \<open>Limits and tunables\<close>

definition SQLITE_INT64_MIN :: int where "SQLITE_INT64_MIN = - (2 ^ 63)"
definition SQLITE_INT64_MAX :: int where "SQLITE_INT64_MAX = 2 ^ 63 - 1"
definition MAX_DURATION_SECONDS :: pyfloat where "MAX_DURATION_SECONDS = 31536000000"
definition MAX_POLL_INTERVAL_SECONDS :: pyfloat where "MAX_POLL_INTERVAL_SECONDS = 3600"
definition MAX_WAIT_SECONDS :: pyfloat where "MAX_WAIT_SECONDS = 86400"
definition LIST_LIMIT_MAX :: int where "LIST_LIMIT_MAX = 1000"
definition TAG_FILTER_SCAN_LIMIT :: int where "TAG_FILTER_SCAN_LIMIT = 1000"
definition EVENT_LIMIT_MAX :: int where "EVENT_LIMIT_MAX = 10000"
definition STATUS_LIMIT_MAX :: int where "STATUS_LIMIT_MAX = 1000"
definition FEEDBACK_TAIL_BYTES :: int where "FEEDBACK_TAIL_BYTES = 2048"
definition FEEDBACK_TAIL_MAX :: int where "FEEDBACK_TAIL_MAX = 65536"
definition MAX_PATH_CHARS :: nat where "MAX_PATH_CHARS = 4096"
definition MAX_ENV_KEY_CHARS :: nat where "MAX_ENV_KEY_CHARS = 128"
definition MAX_ENV_VALUE_CHARS :: nat where "MAX_ENV_VALUE_CHARS = 4096"
definition MAX_WORKER_ID_CHARS :: nat where "MAX_WORKER_ID_CHARS = 256"
definition PRIORITY_MIN :: int where "PRIORITY_MIN = - 2147483648"
definition PRIORITY_MAX :: int where "PRIORITY_MAX = 2147483647"

definition TAG_KEY_RE :: "string \<Rightarrow> bool" where
  "TAG_KEY_RE s \<longleftrightarrow> s \<noteq> [] \<and>
     list_all (\<lambda>c. is_ascii_letter c \<or> is_digit c \<or> c \<in> set ''_.:-'') s"

definition QUEUE_RE :: "string \<Rightarrow> bool" where
  "QUEUE_RE s \<longleftrightarrow> (case s of [] \<Rightarrow> False
     | c # r \<Rightarrow> (is_ascii_letter c \<or> is_digit c) \<and>
         list_all (\<lambda>c. is_ascii_letter c \<or> is_digit c \<or> c \<in> set ''._-'') r)"

definition SCHEMA_VERSION :: int where "SCHEMA_VERSION = 6"
definition DEFAULT_DB_RELPATH :: string where "DEFAULT_DB_RELPATH = ''.spoolctl/queue.db''"
definition BACKOFF_BASE :: pyfloat where "BACKOFF_BASE = 2"
definition BACKOFF_CAP :: pyfloat where "BACKOFF_CAP = 60"
definition HEARTBEAT_INTERVAL :: pyfloat where "HEARTBEAT_INTERVAL = 5"
definition REAP_THRESHOLD :: pyfloat where "REAP_THRESHOLD = max (4 * HEARTBEAT_INTERVAL) 30"
definition DEFAULT_TIMEOUT_SECONDS :: int where "DEFAULT_TIMEOUT_SECONDS = 300"
definition DEFAULT_MAX_RETRIES :: int where "DEFAULT_MAX_RETRIES = 3"
definition DEFAULT_POLL_INTERVAL :: pyfloat where "DEFAULT_POLL_INTERVAL = 1"

section \<open>Exit codes and the code registry\<close>

definition EXIT_OK :: int where "EXIT_OK = 0"
definition EXIT_INPUT :: int where "EXIT_INPUT = 1"
definition EXIT_SAFETY :: int where "EXIT_SAFETY = 2"
definition EXIT_ENVIRONMENT :: int where "EXIT_ENVIRONMENT = 3"
definition EXIT_TRANSIENT :: int where "EXIT_TRANSIENT = 4"
definition EXIT_CONFLICT :: int where "EXIT_CONFLICT = 5"
definition EXIT_JOB_FAILURE :: int where "EXIT_JOB_FAILURE = 6"

lemmas exit_defs = EXIT_OK_def EXIT_INPUT_def EXIT_SAFETY_def EXIT_ENVIRONMENT_def
  EXIT_TRANSIENT_def EXIT_CONFLICT_def EXIT_JOB_FAILURE_def

definition EXIT_CODES :: "(int \<times> bool option) list" where
  \<comment> \<open>exit code and its \<open>retryable\<close> entry\<close>
  "EXIT_CODES =
     [(EXIT_OK, None), (EXIT_INPUT, Some False), (EXIT_SAFETY, Some False),
      (EXIT_ENVIRONMENT, None), (EXIT_TRANSIENT, Some True), (EXIT_CONFLICT, Some False),
      (EXIT_JOB_FAILURE, Some False)]"

datatype code =
  INVALID_INPUT | MISSING_REQUIRED | UNKNOWN_FLAG | UNKNOWN_COMMAND | NOT_FOUND | CONFLICT
| IDEMPOTENCY_CONFLICT | SAFETY_BLOCK | LOCKED | TIMEOUT | INTERNAL
| KILL_ASYNC | NO_ATTEMPTS_YET | IDEMPOTENCY_METADATA_DIFFERS | TAG_FILTER_SCAN_CAPPED

record registry_entry =
  reg_in_errors :: bool
  reg_exit :: "int option"
  reg_retryable :: "bool option"

definition error_entry :: "int \<Rightarrow> bool option \<Rightarrow> registry_entry" where
  "error_entry x r = \<lparr>reg_in_errors = True, reg_exit = Some x, reg_retryable = r\<rparr>"

definition warning_entry :: registry_entry where
  "warning_entry = \<lparr>reg_in_errors = False, reg_exit = None, reg_retryable = None\<rparr>"

fun CODE_REGISTRY :: "code \<Rightarrow> registry_entry" where
  "CODE_REGISTRY INVALID_INPUT = error_entry EXIT_INPUT (Some False)"
| "CODE_REGISTRY MISSING_REQUIRED = error_entry EXIT_INPUT (Some False)"
| "CODE_REGISTRY UNKNOWN_FLAG = error_entry EXIT_INPUT (Some False)"
| "CODE_REGISTRY UNKNOWN_COMMAND = error_entry EXIT_INPUT (Some False)"
| "CODE_REGISTRY NOT_FOUND = error_entry EXIT_INPUT (Some False)"
| "CODE_REGISTRY CONFLICT = error_entry EXIT_CONFLICT (Some False)"
| "CODE_REGISTRY IDEMPOTENCY_CONFLICT = error_entry EXIT_CONFLICT (Some False)"
| "CODE_REGISTRY SAFETY_BLOCK = error_entry EXIT_SAFETY (Some False)"
| "CODE_REGISTRY LOCKED = error_entry EXIT_TRANSIENT (Some True)"
| "CODE_REGISTRY TIMEOUT = error_entry EXIT_TRANSIENT (Some True)"
| "CODE_REGISTRY INTERNAL = error_entry EXIT_ENVIRONMENT None"
| "CODE_REGISTRY KILL_ASYNC = warning_entry"
| "CODE_REGISTRY NO_ATTEMPTS_YET = warning_entry"
| "CODE_REGISTRY IDEMPOTENCY_METADATA_DIFFERS = warning_entry"
| "CODE_REGISTRY TAG_FILTER_SCAN_CAPPED = warning_entry"

record cli_error =
  err_code :: code
  err_exit :: int
  err_did_you_mean :: "string option"

definition cli_error_with :: "code \<Rightarrow> int \<Rightarrow> string option \<Rightarrow> cli_error" where
  "cli_error_with c x d = \<lparr>err_code = c, err_exit = x, err_did_you_mean = d\<rparr>"

definition cli_error :: "code \<Rightarrow> cli_error" where
  \<comment> \<open>\<open>CliError(code, ...)\<close> with the default exit code and no suggestion\<close>
  "cli_error c = cli_error_with c EXIT_INPUT None"

text \<open>What a Python call of the model may raise: a contract error or any other exception.\<close>

datatype errno = EACCES | EEXIST | ENOENT | ENOTDIR | EROFS | OTHER_ERRNO

datatype py_exn =
  CliError cli_error | ValueError | KeyError | TypeError | AttributeError | IndexError | OSError errno
| SchemaTooNewError int  \<comment> \<open>with the version found\<close>
| OperationalError string  \<comment> \<open>\<open>sqlite3.OperationalError\<close> with its text\<close>
| IntegrityError | DatabaseError  \<comment> \<open>of \<open>sqlite3\<close>, like \<open>OperationalError\<close>\<close>

definition published :: "py_exn \<Rightarrow> bool" where
  \<comment> \<open>a contract error whose exit code is the one its registry entry publishes\<close>
  "published x = (case x of CliError e \<Rightarrow> reg_in_errors (CODE_REGISTRY (err_code e)) \<and>
     reg_exit (CODE_REGISTRY (err_code e)) = Some (err_exit e) | _ \<Rightarrow> False)"

lemma published_CliError [simp]:
  "published (CliError (cli_error_with c x d)) \<longleftrightarrow>
     reg_in_errors (CODE_REGISTRY c) \<and> reg_exit (CODE_REGISTRY c) = Some x"
  by (simp add: published_def cli_error_with_def)

lemma published_cli_error [simp]:
  "published (CliError (cli_error c)) \<longleftrightarrow>
     reg_in_errors (CODE_REGISTRY c) \<and> reg_exit (CODE_REGISTRY c) = Some EXIT_INPUT"
  by (simp add: cli_error_def)

lemma not_published_ValueError [simp]: "\<not> published ValueError"
  by (simp add: published_def)

lemma registry_entry_sel [simp]:
  "reg_in_errors (error_entry x r)" "reg_exit (error_entry x r) = Some x"
  "reg_retryable (error_entry x r) = r" "\<not> reg_in_errors warning_entry"
  by (simp_all add: error_entry_def warning_entry_def)

section \<open>Retry backoff\<close>

definition backoff_seconds :: "int \<Rightarrow> pyfloat" where
  "backoff_seconds attempts = min BACKOFF_CAP (BACKOFF_BASE * 2 powi (attempts - 1))"

lemma backoff_seconds_pos: "0 < backoff_seconds n"
  by (simp add: backoff_seconds_def BACKOFF_CAP_def BACKOFF_BASE_def)

lemma backoff_seconds_le_cap: "backoff_seconds n \<le> 60"
  by (simp add: backoff_seconds_def BACKOFF_CAP_def)

lemma backoff_seconds_ge: "1 \<le> n \<Longrightarrow> 2 \<le> backoff_seconds n"
  using powi2_mono[of 0 "n - 1"] by (simp add: backoff_seconds_def BACKOFF_CAP_def BACKOFF_BASE_def)

lemma backoff_seconds_mono: "m \<le> n \<Longrightarrow> backoff_seconds m \<le> backoff_seconds n"
  using powi2_mono[of "m - 1" "n - 1"]
  by (simp add: backoff_seconds_def BACKOFF_BASE_def min.coboundedI2)

lemma backoff_seconds_Suc:
  "backoff_seconds (n + 1) = min BACKOFF_CAP (2 * backoff_seconds n)"
proof -
  have "(2::rat) powi n = 2 * 2 powi (n - 1)" using powi2_add[of 1 "n - 1"] by simp
  then show ?thesis
    by (auto simp: backoff_seconds_def BACKOFF_BASE_def BACKOFF_CAP_def min_def)
qed

section \<open>Did you mean\<close>

fun lev_loop :: "string \<Rightarrow> string \<Rightarrow> nat \<Rightarrow> bool" where
  \<comment> \<open>the \<open>while\<close> loop over the unread suffixes of the shorter and the longer word\<close>
  "lev_loop (x # a) (y # b) edits =
     (if x = y then lev_loop a b edits
      else if edits + 1 > 1 then False
      else lev_loop (x # a) b (edits + 1))"
| "lev_loop a b edits = True"

definition levenshtein_leq1 :: "string \<Rightarrow> string \<Rightarrow> bool" where
  "levenshtein_leq1 a b =
     (if a = b then True
      else if 1 < \<bar>int (length a) - int (length b)\<bar> then False
      else if length a = length b then count_where (\<lambda>(x, y). x \<noteq> y) (zip a b) \<le> 1
      else if length b < length a then lev_loop b a 0
      else lev_loop a b 0)"

definition suggest :: "string \<Rightarrow> string list \<Rightarrow> string option" where
  "suggest word candidates =
     find (\<lambda>c. c \<noteq> word \<and> levenshtein_leq1 word c) (sort candidates)"

text \<open>The specification: equal, or one substitution, insertion or deletion apart.\<close>

definition one_edit :: "string \<Rightarrow> string \<Rightarrow> bool" where
  "one_edit a b \<longleftrightarrow> a = b
     \<or> (\<exists>u x y v. a = u @ x # v \<and> b = u @ y # v)
     \<or> (\<exists>u x v. a = u @ v \<and> b = u @ x # v)
     \<or> (\<exists>u x v. a = u @ x # v \<and> b = u @ v)"

lemma lev_loop_1: "length a = length b \<Longrightarrow> lev_loop a b (Suc 0) \<longleftrightarrow> a = b"
  by (induction a b rule: list_induct2) auto

lemma inserted_Cons:
  "(\<exists>u z v. x # a = u @ v \<and> y # b = u @ z # v) \<longleftrightarrow>
     b = x # a \<or> (x = y \<and> (\<exists>u z v. a = u @ v \<and> b = u @ z # v))" (is "?L \<longleftrightarrow> ?R")
proof
  assume ?L
  then obtain u z v where "x # a = u @ v" "y # b = u @ z # v" by blast
  then show ?R by (cases u) auto
next
  assume ?R
  then show ?L
  proof
    assume "b = x # a"
    then have "x # a = [] @ (x # a) \<and> y # b = [] @ y # (x # a)" by simp
    then show ?L by blast
  next
    assume "x = y \<and> (\<exists>u z v. a = u @ v \<and> b = u @ z # v)"
    then obtain u z v where "x = y" "a = u @ v" "b = u @ z # v" by blast
    then have "x # a = (x # u) @ v \<and> y # b = (x # u) @ z # v" by simp
    then show ?L by blast
  qed
qed

lemma lev_loop_0:
  "length b = Suc (length a) \<Longrightarrow> lev_loop a b 0 \<longleftrightarrow> (\<exists>u z v. a = u @ v \<and> b = u @ z # v)"
proof (induction a b "0::nat" rule: lev_loop.induct)
  case (1 x a y b)
  show ?case
  proof (cases "x = y")
    case True
    have "b = x # a \<Longrightarrow> \<exists>u z v. a = u @ v \<and> b = u @ z # v"
      by (metis append_Nil)
    with 1 True show ?thesis by (auto simp: inserted_Cons)
  next
    case False
    with 1 show ?thesis using lev_loop_1[of "x # a" b] by (auto simp: inserted_Cons)
  qed
qed (auto simp: length_Suc_conv)

lemma hamming_leq1:
  "length a = length b \<Longrightarrow>
     count_where (\<lambda>(x, y). x \<noteq> y) (zip a b) \<le> 1 \<longleftrightarrow>
     a = b \<or> (\<exists>u x y v. a = u @ x # v \<and> b = u @ y # v)"
proof (induction a b rule: list_induct2)
  case Nil
  then show ?case by simp
next
  case (Cons x a y b)
  have cut: "(\<exists>u z w v. x # a = u @ z # v \<and> y # b = u @ w # v) \<longleftrightarrow>
      a = b \<or> (x = y \<and> (\<exists>u z w v. a = u @ z # v \<and> b = u @ w # v))" (is "?L \<longleftrightarrow> ?R")
  proof
    assume ?L
    then obtain u z w v where "x # a = u @ z # v" "y # b = u @ w # v" by blast
    then show ?R by (cases u) auto
  next
    assume ?R
    then show ?L by (metis append_Cons append_Nil)
  qed
  have eq0: "count_where (\<lambda>(x, y). x \<noteq> y) (zip a b) \<le> 0 \<longleftrightarrow> a = b"
    using Cons.hyps by (induction a b rule: list_induct2) (auto simp: not_le add_pos_nonneg)
  show ?case using Cons.IH eq0 by (auto simp: cut)
qed

lemma one_edit_length: "one_edit a b \<Longrightarrow> \<bar>int (length a) - int (length b)\<bar> \<le> 1"
  by (auto simp: one_edit_def)

lemma one_edit_commute: "one_edit a b \<longleftrightarrow> one_edit b a"
  unfolding one_edit_def by blast

text \<open>C32. The did-you-mean matcher accepts exactly the pairs of words that are equal or one substitution,
  insertion or deletion apart: the early length test and the single-pass loop lose nothing.\<close>

theorem levenshtein_correct: "levenshtein_leq1 a b \<longleftrightarrow> one_edit a b"
proof -
  consider "length a = length b" | "length b = Suc (length a)" | "length a = Suc (length b)"
    | "1 < \<bar>int (length a) - int (length b)\<bar>" by linarith
  then show ?thesis
  proof cases
    case 1
    then have "\<not> (\<exists>u x v. a = u @ v \<and> b = u @ x # v)" "\<not> (\<exists>u x v. a = u @ x # v \<and> b = u @ v)"
      by auto
    then have "one_edit a b \<longleftrightarrow> a = b \<or> (\<exists>u x y v. a = u @ x # v \<and> b = u @ y # v)"
      unfolding one_edit_def by blast
    moreover have "levenshtein_leq1 a b \<longleftrightarrow> a = b \<or> count_where (\<lambda>(x, y). x \<noteq> y) (zip a b) \<le> 1"
      using 1 by (simp add: levenshtein_leq1_def)
    ultimately show ?thesis using hamming_leq1[OF 1] by blast
  next
    case 2
    then have "levenshtein_leq1 a b \<longleftrightarrow> lev_loop a b 0" by (auto simp: levenshtein_leq1_def)
    with lev_loop_0[OF 2] 2 show ?thesis by (auto simp: one_edit_def)
  next
    case 3
    then have "levenshtein_leq1 a b \<longleftrightarrow> lev_loop b a 0" by (auto simp: levenshtein_leq1_def)
    with lev_loop_0[OF 3] 3 show ?thesis unfolding one_edit_commute[of a b]
      by (auto simp: one_edit_def)
  next
    case 4
    then show ?thesis using one_edit_length[of a b] by (auto simp: levenshtein_leq1_def)
  qed
qed

section \<open>Records\<close>

record job =
  j_id :: int
  j_argv :: "string list"
  j_state :: job_state
  j_attempts :: int
  j_max_retries :: int
  j_timeout_seconds :: int
  j_created_at :: pyfloat
  j_next_run_at :: pyfloat
  j_priority :: int
  j_queue :: string
  j_locked_by :: "string option"
  j_locked_pid :: "int option"
  j_locked_at :: "pyfloat option"
  j_heartbeat_at :: "pyfloat option"
  j_started_at :: "pyfloat option"
  j_finished_at :: "pyfloat option"
  j_last_exit_code :: "int option"
  j_last_error :: "string option"
  j_idempotency_key :: "string option"
  j_tags :: pydict
  j_note :: "string option"
  j_cwd :: "string option"
  j_env :: pydict
  j_crashes :: int
  j_max_crashes :: "int option"

record attempt =
  a_id :: int
  a_job_id :: int
  a_attempt_no :: int
  a_worker_id :: string
  a_worker_pid :: int
  a_state :: attempt_state
  a_started_at :: pyfloat
  a_stdout_path :: string
  a_stderr_path :: string
  a_finished_at :: "pyfloat option"
  a_exit_code :: "int option"
  a_error :: "string option"
  a_failure_reason :: "failure_reason option"

end
