(* ===== verification/Database.thy ===== *)
theory Database
  imports Models
begin

text \<open>
  The queue database as \<open>store.py\<close> sees it: the tables \<open>jobs\<close>, \<open>attempts\<close> and \<open>job_events\<close> as lists of
  rows in rowid order, each with its \<open>AUTOINCREMENT\<close> high-water mark (\<open>sqlite_sequence\<close>), and the SQL
  statements as functions on them. JSON columns hold the value their text encodes. A write
  transaction (\<open>BEGIN IMMEDIATE ... COMMIT\<close>) takes the database lock before it reads, so each store
  operation is one function on this state; a \<open>ROLLBACK\<close> returns the state unchanged.

  The two locales state what a table promises its users: an append-only ledger with fresh ascending
  ids, and a table whose rows are also updated in place. All three tables interpret them.
\<close>

section \<open>Tables\<close>

record event =
  e_id :: int
  e_job_id :: int
  e_at :: pyfloat
  e_event :: event_type
  e_worker_id :: "string option"
  e_detail :: "string option"

record db =
  jobs :: "job list"
  jobs_seq :: int
  atts :: "attempt list"
  atts_seq :: int
  evs :: "event list"
  evs_seq :: int

definition empty_db :: db where
  "empty_db = \<lparr>jobs = [], jobs_seq = 0, atts = [], atts_seq = 0, evs = [], evs_seq = 0\<rparr>"

section \<open>Statements\<close>

text \<open>\<open>INSERT\<close> takes the next id from the sequence; the row is built from that id.\<close>

definition insert_job :: "(int \<Rightarrow> job) \<Rightarrow> db \<Rightarrow> db" where
  "insert_job mk d = d\<lparr>jobs := jobs d @ [mk (jobs_seq d + 1)], jobs_seq := jobs_seq d + 1\<rparr>"

definition insert_attempt :: "(int \<Rightarrow> attempt) \<Rightarrow> db \<Rightarrow> db" where
  "insert_attempt mk d = d\<lparr>atts := atts d @ [mk (atts_seq d + 1)], atts_seq := atts_seq d + 1\<rparr>"

definition insert_event :: "(int \<Rightarrow> event) \<Rightarrow> db \<Rightarrow> db" where
  "insert_event mk d = d\<lparr>evs := evs d @ [mk (evs_seq d + 1)], evs_seq := evs_seq d + 1\<rparr>"

definition update_jobs :: "(job \<Rightarrow> bool) \<Rightarrow> (job \<Rightarrow> job) \<Rightarrow> db \<Rightarrow> db" where
  "update_jobs P f d = d\<lparr>jobs := update_where P f (jobs d)\<rparr>"

definition update_attempts :: "(attempt \<Rightarrow> bool) \<Rightarrow> (attempt \<Rightarrow> attempt) \<Rightarrow> db \<Rightarrow> db" where
  "update_attempts P f d = d\<lparr>atts := update_where P f (atts d)\<rparr>"

definition delete_jobs :: "(job \<Rightarrow> bool) \<Rightarrow> db \<Rightarrow> db" where
  "delete_jobs P d = d\<lparr>jobs := filter (\<lambda>j. \<not> P j) (jobs d)\<rparr>"

definition delete_attempts :: "(attempt \<Rightarrow> bool) \<Rightarrow> db \<Rightarrow> db" where
  "delete_attempts P d = d\<lparr>atts := filter (\<lambda>a. \<not> P a) (atts d)\<rparr>"

definition delete_events :: "(event \<Rightarrow> bool) \<Rightarrow> db \<Rightarrow> db" where
  "delete_events P d = d\<lparr>evs := filter (\<lambda>e. \<not> P e) (evs d)\<rparr>"

lemmas statement_defs = insert_job_def insert_attempt_def insert_event_def update_jobs_def
  update_attempts_def delete_jobs_def delete_attempts_def delete_events_def

section \<open>What a table promises\<close>

definition ids_ok :: "('r \<Rightarrow> int) \<Rightarrow> 'r list \<Rightarrow> int \<Rightarrow> bool" where
  \<comment> \<open>unique ascending positive ids, none above the sequence\<close>
  "ids_ok rid xs s \<longleftrightarrow> ascending rid xs \<and> 0 \<le> s \<and> (\<forall>x\<in>set xs. 0 < rid x \<and> rid x \<le> s)"

locale ledger_table =
  fixes rows :: "'d \<Rightarrow> 'r list"
    and seq :: "'d \<Rightarrow> int"
    and rid :: "'r \<Rightarrow> int"
    and ins :: "(int \<Rightarrow> 'r) \<Rightarrow> 'd \<Rightarrow> 'd"
    and del :: "('r \<Rightarrow> bool) \<Rightarrow> 'd \<Rightarrow> 'd"
  assumes rows_ins: "rows (ins mk d) = rows d @ [mk (seq d + 1)]"
    and seq_ins: "seq (ins mk d) = seq d + 1"
    and rows_del: "rows (del P d) = filter (\<lambda>r. \<not> P r) (rows d)"
    and seq_del: "seq (del P d) = seq d"
begin

abbreviation ok :: "'d \<Rightarrow> bool" where
  "ok d \<equiv> ids_ok rid (rows d) (seq d)"

lemma ok_ins:
  assumes "ok d" and "\<And>i. rid (mk i) = i"
  shows "ok (ins mk d)"
  using assms by (auto simp: ids_ok_def rows_ins seq_ins intro!: ascending_append_last)

lemma ok_del: "ok d \<Longrightarrow> ok (del P d)"
  by (auto simp: ids_ok_def rows_del seq_del ascending_filter)

lemma fresh: "ok d \<Longrightarrow> r \<in> set (rows d) \<Longrightarrow> rid r < seq d + 1"
  by (auto simp: ids_ok_def)

lemma row_by_id: "ok d \<Longrightarrow> r \<in> set (rows d) \<Longrightarrow> q \<in> set (rows d) \<Longrightarrow> rid r = rid q \<Longrightarrow> r = q"
  by (auto simp: ids_ok_def dest: ascending_inj)

lemma find_ins:
  assumes "ok d" and "\<And>i. rid (mk i) = i"
  shows "find (\<lambda>r. rid r = i) (rows (ins mk d)) =
     (if i = seq d + 1 then Some (mk i) else find (\<lambda>r. rid r = i) (rows d))"
proof -
  have app: "find Q (xs @ [x]) =
      (case find Q xs of None \<Rightarrow> if Q x then Some x else None | Some y \<Rightarrow> Some y)"
    for Q and x :: 'r and xs
    by (induction xs) auto
  have "find (\<lambda>r. rid r = seq d + 1) (rows d) = None"
    using fresh[OF assms(1)] by (fastforce simp: find_None_iff)
  then show ?thesis by (simp add: rows_ins app assms(2) split: option.split)
qed

lemma find_row: "find (\<lambda>r. rid r = i) (rows d) = Some r \<Longrightarrow> r \<in> set (rows d) \<and> rid r = i"
  by (auto simp: find_Some_iff)

lemma find_by_id:
  assumes "ok d" and "r \<in> set (rows d)"
  shows "find (\<lambda>q. rid q = rid r) (rows d) = Some r"
proof (cases "find (\<lambda>q. rid q = rid r) (rows d)")
  case None
  then show ?thesis using assms(2) by (auto simp: find_None_iff)
next
  case (Some q)
  then show ?thesis using find_row[OF Some] row_by_id assms by metis
qed

text \<open>An id is never handed out twice: even a deleted row's id lies below every later one.\<close>

lemma never_reissued:
  assumes "ok d" and "r \<in> set (rows d)"
  shows "rid r \<noteq> seq (del P d) + 1"
  using fresh[OF assms] by (simp add: seq_del)

end

locale row_table = ledger_table rows seq rid ins del
  for rows :: "'d \<Rightarrow> 'r list" and seq rid ins del +
  fixes upd :: "('r \<Rightarrow> bool) \<Rightarrow> ('r \<Rightarrow> 'r) \<Rightarrow> 'd \<Rightarrow> 'd"
  assumes rows_upd: "rows (upd P f d) = update_where P f (rows d)"
    and seq_upd: "seq (upd P f d) = seq d"
begin

lemma ok_upd:
  assumes "ok d" and "\<And>r. rid (f r) = rid r"
  shows "ok (upd P f d)"
  using assms by (auto simp: ids_ok_def rows_upd seq_upd ascending_def map_update_where
      set_update_where)

lemma find_upd:
  assumes "\<And>r. rid (f r) = rid r"
  shows "find (\<lambda>r. rid r = i) (rows (upd P f d)) =
     map_option (\<lambda>r. if P r then f r else r) (find (\<lambda>r. rid r = i) (rows d))"
proof -
  have "find (\<lambda>r. rid r = i) (update_where P f xs) =
      map_option (\<lambda>r. if P r then f r else r) (find (\<lambda>r. rid r = i) xs)" for xs
    using assms by (induction xs) auto
  then show ?thesis by (simp add: rows_upd)
qed

end

interpretation jt: row_table jobs jobs_seq j_id insert_job delete_jobs update_jobs
  by unfold_locales (simp_all add: statement_defs)

interpretation at: row_table atts atts_seq a_id insert_attempt delete_attempts update_attempts
  by unfold_locales (simp_all add: statement_defs)

interpretation et: ledger_table evs evs_seq e_id insert_event delete_events
  by unfold_locales (simp_all add: statement_defs)

section \<open>Views of one job\<close>

text \<open>\<open>SELECT * FROM jobs WHERE id=?\<close>, and the job's rows in the other two tables.\<close>

definition get_job :: "db \<Rightarrow> int \<Rightarrow> job option" where
  "get_job d i = find (\<lambda>j. j_id j = i) (jobs d)"

definition atts_of :: "db \<Rightarrow> int \<Rightarrow> attempt list" where
  "atts_of d i = filter (\<lambda>a. a_job_id a = i) (atts d)"

definition evs_of :: "db \<Rightarrow> int \<Rightarrow> event list" where
  "evs_of d i = filter (\<lambda>e. e_job_id e = i) (evs d)"

definition tables_ok :: "db \<Rightarrow> bool" where
  "tables_ok d \<longleftrightarrow> ids_ok j_id (jobs d) (jobs_seq d) \<and> ids_ok a_id (atts d) (atts_seq d)
     \<and> ids_ok e_id (evs d) (evs_seq d)"

lemma in_atts_of [simp]: "a \<in> set (atts_of d i) \<longleftrightarrow> a \<in> set (atts d) \<and> a_job_id a = i"
  by (auto simp: atts_of_def)

lemma in_evs_of [simp]: "e \<in> set (evs_of d i) \<longleftrightarrow> e \<in> set (evs d) \<and> e_job_id e = i"
  by (auto simp: evs_of_def)

lemma get_job_Some: "get_job d i = Some j \<Longrightarrow> j \<in> set (jobs d) \<and> j_id j = i"
  unfolding get_job_def by (rule jt.find_row)

lemma get_job_id: "get_job d i = Some j \<Longrightarrow> j_id j = i"
  by (simp add: get_job_Some)

lemma get_job_None: "get_job d i = None \<longleftrightarrow> (\<forall>j\<in>set (jobs d). j_id j \<noteq> i)"
  by (auto simp: get_job_def find_None_iff)

lemma get_job_iff:
  "tables_ok d \<Longrightarrow> get_job d i = Some j \<longleftrightarrow> j \<in> set (jobs d) \<and> j_id j = i"
  unfolding tables_ok_def using jt.find_by_id[of d j] get_job_Some[of d i j]
  by (auto simp: get_job_def)

lemma frame_jobs [tab_simps]:
  "jobs (insert_attempt mka d) = jobs d" "jobs (insert_event mke d) = jobs d"
  "jobs (update_attempts Pa fa d) = jobs d" "jobs (delete_attempts Pa d) = jobs d"
  "jobs (delete_events Pe d) = jobs d"
  "jobs_seq (insert_attempt mka d) = jobs_seq d" "jobs_seq (insert_event mke d) = jobs_seq d"
  "jobs_seq (update_attempts Pa fa d) = jobs_seq d" "jobs_seq (delete_attempts Pa d) = jobs_seq d"
  "jobs_seq (delete_events Pe d) = jobs_seq d" "jobs_seq (update_jobs P f d) = jobs_seq d"
  by (simp_all add: statement_defs)

lemma frame_atts [tab_simps]:
  "atts (insert_job mk d) = atts d" "atts (insert_event mke d) = atts d"
  "atts (update_jobs P f d) = atts d" "atts (delete_jobs P d) = atts d"
  "atts (delete_events Pe d) = atts d"
  "atts_seq (insert_job mk d) = atts_seq d" "atts_seq (insert_event mke d) = atts_seq d"
  "atts_seq (update_jobs P f d) = atts_seq d" "atts_seq (update_attempts Pa fa d) = atts_seq d"
  by (simp_all add: statement_defs)

lemma frame_evs [tab_simps]:
  "evs (insert_job mk d) = evs d" "evs (insert_attempt mka d) = evs d"
  "evs (update_jobs P f d) = evs d" "evs (update_attempts Pa fa d) = evs d"
  "evs (delete_jobs P d) = evs d" "evs (delete_attempts Pa d) = evs d"
  "evs_seq (insert_job mk d) = evs_seq d" "evs_seq (insert_attempt mka d) = evs_seq d"
  "evs_seq (update_jobs P f d) = evs_seq d" "evs_seq (update_attempts Pa fa d) = evs_seq d"
  by (simp_all add: statement_defs)

lemma get_job_frame [tab_simps]:
  "get_job (insert_attempt mka d) i = get_job d i" "get_job (insert_event mke d) i = get_job d i"
  "get_job (update_attempts Pa fa d) i = get_job d i"
  "get_job (delete_attempts Pa d) i = get_job d i" "get_job (delete_events Pe d) i = get_job d i"
  by (simp_all add: get_job_def tab_simps)

lemma atts_of_frame [tab_simps]:
  "atts_of (insert_job mk d) i = atts_of d i" "atts_of (insert_event mke d) i = atts_of d i"
  "atts_of (update_jobs P f d) i = atts_of d i" "atts_of (delete_jobs P d) i = atts_of d i"
  "atts_of (delete_events Pe d) i = atts_of d i"
  by (simp_all add: atts_of_def tab_simps)

lemma evs_of_frame [tab_simps]:
  "evs_of (insert_job mk d) i = evs_of d i" "evs_of (insert_attempt mka d) i = evs_of d i"
  "evs_of (update_jobs P f d) i = evs_of d i" "evs_of (update_attempts Pa fa d) i = evs_of d i"
  "evs_of (delete_jobs P d) i = evs_of d i" "evs_of (delete_attempts Pa d) i = evs_of d i"
  by (simp_all add: evs_of_def tab_simps)

lemma get_job_update_jobs [tab_simps]:
  "(\<And>j. j_id (f j) = j_id j) \<Longrightarrow>
     get_job (update_jobs P f d) i = map_option (\<lambda>j. if P j then f j else j) (get_job d i)"
  unfolding get_job_def by (rule jt.find_upd)

lemma get_job_insert_job:
  "tables_ok d \<Longrightarrow> (\<And>i. j_id (mk i) = i) \<Longrightarrow>
     get_job (insert_job mk d) i = (if i = jobs_seq d + 1 then Some (mk i) else get_job d i)"
  unfolding get_job_def tables_ok_def by (rule jt.find_ins) auto

lemma get_job_delete_jobs [tab_simps]:
  "get_job (delete_jobs (\<lambda>j. j_id j = k) d) i = (if i = k then None else get_job d i)"
proof -
  have "find (\<lambda>j. j_id j = i) (filter (\<lambda>j. j_id j \<noteq> k) xs) =
      (if i = k then None else find (\<lambda>j. j_id j = i) xs)" for xs :: "job list"
    by (induction xs) auto
  then show ?thesis by (simp add: get_job_def delete_jobs_def)
qed

lemma atts_of_insert_attempt [tab_simps]:
  "atts_of (insert_attempt mk d) i =
     atts_of d i @ (if a_job_id (mk (atts_seq d + 1)) = i then [mk (atts_seq d + 1)] else [])"
  by (simp add: atts_of_def insert_attempt_def)

lemma atts_of_update_attempts [tab_simps]:
  "(\<And>a. a_job_id (f a) = a_job_id a) \<Longrightarrow>
     atts_of (update_attempts P f d) i = update_where P f (atts_of d i)"
  by (simp add: atts_of_def update_attempts_def filter_update_where_same)

lemma atts_of_delete_attempts [tab_simps]:
  "atts_of (delete_attempts (\<lambda>a. a_job_id a = k) d) i = (if i = k then [] else atts_of d i)"
  by (auto simp: atts_of_def delete_attempts_def filter_empty_conv intro!: filter_cong)

lemma evs_of_insert_event [tab_simps]:
  "evs_of (insert_event mk d) i =
     evs_of d i @ (if e_job_id (mk (evs_seq d + 1)) = i then [mk (evs_seq d + 1)] else [])"
  by (simp add: evs_of_def insert_event_def)

lemma evs_of_delete_events [tab_simps]:
  "evs_of (delete_events (\<lambda>e. e_job_id e = k) d) i = (if i = k then [] else evs_of d i)"
  by (auto simp: evs_of_def delete_events_def filter_empty_conv intro!: filter_cong)

section \<open>The tables keep their ids\<close>

lemma tables_ok_insert_job:
  "tables_ok d \<Longrightarrow> (\<And>i. j_id (mk i) = i) \<Longrightarrow> tables_ok (insert_job mk d)"
  using jt.ok_ins[of d mk] by (simp add: tables_ok_def tab_simps)

lemma tables_ok_insert_attempt:
  "tables_ok d \<Longrightarrow> (\<And>i. a_id (mk i) = i) \<Longrightarrow> tables_ok (insert_attempt mk d)"
  using at.ok_ins[of d mk] by (simp add: tables_ok_def tab_simps)

lemma tables_ok_insert_event:
  "tables_ok d \<Longrightarrow> (\<And>i. e_id (mk i) = i) \<Longrightarrow> tables_ok (insert_event mk d)"
  using et.ok_ins[of d mk] by (simp add: tables_ok_def tab_simps)

lemma tables_ok_update_jobs:
  "tables_ok d \<Longrightarrow> (\<And>j. j_id (f j) = j_id j) \<Longrightarrow> tables_ok (update_jobs P f d)"
  using jt.ok_upd[of d f P] by (simp add: tables_ok_def tab_simps)

lemma tables_ok_update_attempts:
  "tables_ok d \<Longrightarrow> (\<And>a. a_id (f a) = a_id a) \<Longrightarrow> tables_ok (update_attempts P f d)"
  using at.ok_upd[of d f P] by (simp add: tables_ok_def tab_simps)

lemma tables_ok_deletes:
  "tables_ok d \<Longrightarrow> tables_ok (delete_jobs P d)"
  "tables_ok d \<Longrightarrow> tables_ok (delete_attempts Pa d)"
  "tables_ok d \<Longrightarrow> tables_ok (delete_events Pe d)"
  using jt.ok_del[of d P] at.ok_del[of d Pa] et.ok_del[of d Pe]
  by (simp_all add: tables_ok_def statement_defs)

lemmas tables_ok_intros = tables_ok_insert_job tables_ok_insert_attempt tables_ok_insert_event
  tables_ok_update_jobs tables_ok_update_attempts tables_ok_deletes

end
