(* ===== verification/Store.thy ===== *)
theory Store
  imports Database
begin

text \<open>
  The write operations of \<open>spoolctl/store.py\<close>, each one transaction on the database: enqueueing with
  an idempotency key, claiming, heartbeat, recording a result, reaping, manual retry, cancellation
  and pruning. Outcome strings are datatypes. Every branch of the source is a branch here, the ones
  the proofs show to be unreachable included.
\<close>

section \<open>Events\<close>

definition add_event ::
  "int \<Rightarrow> pyfloat \<Rightarrow> event_type \<Rightarrow> string option \<Rightarrow> string option \<Rightarrow> db \<Rightarrow> db" where
  "add_event job_id when ev worker_id detail =
     insert_event (\<lambda>i. \<lparr>e_id = i, e_job_id = job_id, e_at = when, e_event = ev,
       e_worker_id = worker_id, e_detail = detail\<rparr>)"

section \<open>Enqueueing\<close>

datatype pval = VNone | VInt int | VFloat pyfloat | VStr string | VList "string list" | VDict pydict

type_synonym payload = "(string \<times> pval) list"

fun pval_eq :: "pval \<Rightarrow> pval \<Rightarrow> bool" where
  \<comment> \<open>\<open>==\<close>: dictionaries compare without order\<close>
  "pval_eq (VDict d) (VDict e) = dict_eq d e"
| "pval_eq u v = (u = v)"

definition opt_val :: "('a \<Rightarrow> pval) \<Rightarrow> 'a option \<Rightarrow> pval" where
  "opt_val f x = (case x of None \<Rightarrow> VNone | Some v \<Rightarrow> f v)"

definition or_empty :: "pydict option \<Rightarrow> pydict" where
  \<comment> \<open>\<open>d or {}\<close>\<close>
  "or_empty d = (case d of None \<Rightarrow> [] | Some e \<Rightarrow> e)"

record submission =
  s_argv :: "string list"
  s_timeout_seconds :: int
  s_max_retries :: int
  s_idempotency_key :: "string option"
  s_tags :: "pydict option"
  s_note :: "string option"
  s_priority :: int
  s_queue :: string
  s_next_run_at :: "pyfloat option"
  s_cwd :: "string option"
  s_env :: "pydict option"
  s_max_crashes :: "int option"

definition validate_execution_payload :: "int option \<Rightarrow> py_exn + unit" where
  \<comment> \<open>the type checks on \<open>cwd\<close> and \<open>env\<close> hold by typing\<close>
  "validate_execution_payload max_crashes = (case max_crashes of
       None \<Rightarrow> Inr ()
     | Some m \<Rightarrow> if m < 0 then Inl ValueError else Inr ())"

definition execution_payload ::
  "string list \<Rightarrow> int \<Rightarrow> int \<Rightarrow> int \<Rightarrow> string \<Rightarrow> string option \<Rightarrow> pydict option \<Rightarrow> int option
     \<Rightarrow> payload" where
  "execution_payload argv timeout_seconds max_retries priority queue cwd env max_crashes =
     [(''argv'', VList argv),
      (''timeout_seconds'', VInt timeout_seconds),
      (''max_retries'', VInt max_retries),
      (''priority'', VInt priority),
      (''queue'', VStr queue),
      (''cwd'', opt_val VStr cwd),
      (''env'', VDict (or_empty env)),
      (''max_crashes'', opt_val VInt max_crashes)]"

definition execution_payload_from_row :: "job \<Rightarrow> payload" where
  "execution_payload_from_row j = execution_payload (j_argv j) (j_timeout_seconds j)
     (j_max_retries j) (j_priority j) (j_queue j) (j_cwd j) (Some (j_env j)) (j_max_crashes j)"

definition resolved_schedule_metadata :: "pyfloat \<Rightarrow> pyfloat \<Rightarrow> pyfloat option" where
  "resolved_schedule_metadata created_at next_run_at =
     (if next_run_at = created_at then None else Some next_run_at)"

definition submitted_schedule_metadata :: "pyfloat \<Rightarrow> pyfloat option \<Rightarrow> pyfloat option" where
  "submitted_schedule_metadata now next_run_at =
     (if next_run_at = None \<or> next_run_at = Some now then None else next_run_at)"

definition metadata_payload ::
  "pydict option \<Rightarrow> string option \<Rightarrow> pyfloat option \<Rightarrow> payload" where
  "metadata_payload tags note schedule =
     [(''tags'', VDict (or_empty tags)), (''note'', opt_val VStr note),
      (''next_run_at'', opt_val VFloat schedule)]"

definition metadata_payload_from_row :: "job \<Rightarrow> payload" where
  "metadata_payload_from_row j = metadata_payload (Some (j_tags j)) (j_note j)
     (resolved_schedule_metadata (j_created_at j) (j_next_run_at j))"

definition payload_get :: "payload \<Rightarrow> string \<Rightarrow> pval" where
  "payload_get p k = (case map_of p k of None \<Rightarrow> VNone | Some v \<Rightarrow> v)"

definition payload_diff :: "payload \<Rightarrow> payload \<Rightarrow> (string \<times> pval \<times> pval) list" where
  "payload_diff existing submitted =
     map (\<lambda>k. (k, payload_get existing k, payload_get submitted k))
       (filter (\<lambda>k. \<not> pval_eq (payload_get existing k) (payload_get submitted k))
         (sort (remdups (map fst existing @ map fst submitted))))"

datatype idem_info =
  NoDifferences | ExecutionDifferences "string list"
| MetadataDifferences "(string \<times> pval \<times> pval) list"

definition new_job :: "submission \<Rightarrow> pyfloat \<Rightarrow> int \<Rightarrow> job" where
  \<comment> \<open>the inserted row, columns the statement leaves out at their defaults\<close>
  "new_job s now i =
     \<lparr>j_id = i, j_argv = s_argv s, j_state = QUEUED, j_attempts = 0,
      j_max_retries = s_max_retries s, j_timeout_seconds = s_timeout_seconds s,
      j_created_at = now,
      j_next_run_at = (case s_next_run_at s of None \<Rightarrow> now | Some t \<Rightarrow> t),
      j_priority = s_priority s, j_queue = s_queue s,
      j_locked_by = None, j_locked_pid = None, j_locked_at = None, j_heartbeat_at = None,
      j_started_at = None, j_finished_at = None, j_last_exit_code = None, j_last_error = None,
      j_idempotency_key = s_idempotency_key s, j_tags = dict_sorted (or_empty (s_tags s)),
      j_note = s_note s, j_cwd = s_cwd s, j_env = dict_sorted (or_empty (s_env s)),
      j_crashes = 0, j_max_crashes = s_max_crashes s\<rparr>"

definition active_with_key :: "string \<Rightarrow> db \<Rightarrow> job option" where
  "active_with_key k d = first_by j_id
     (filter (\<lambda>j. j_idempotency_key j = Some k \<and> (j_state j = QUEUED \<or> j_state j = RUNNING))
       (jobs d))"

definition insert_submission :: "submission \<Rightarrow> pyfloat \<Rightarrow> db \<Rightarrow> db" where
  "insert_submission s now d =
     add_event (jobs_seq d + 1) now EV_ADDED None None (insert_job (new_job s now) d)"

definition add_job_checked ::
  "submission \<Rightarrow> pyfloat \<Rightarrow> db \<Rightarrow> py_exn + (int \<times> job_state \<times> bool \<times> idem_info) \<times> db" where
  "add_job_checked s now d =
     and_then (validate_execution_payload (s_max_crashes s)) (\<lambda>_.
       let submitted_execution = execution_payload (s_argv s) (s_timeout_seconds s)
             (s_max_retries s) (s_priority s) (s_queue s) (s_cwd s) (s_env s) (s_max_crashes s);
           submitted_metadata = metadata_payload (s_tags s) (s_note s)
             (submitted_schedule_metadata now (s_next_run_at s))
       in case (case s_idempotency_key s of None \<Rightarrow> None | Some k \<Rightarrow> active_with_key k d) of
            Some row \<Rightarrow>
              let execution_diff =
                    payload_diff (execution_payload_from_row row) submitted_execution
              in if execution_diff \<noteq> []
                 then Inr ((j_id row, j_state row, False,
                        ExecutionDifferences (sort (map fst execution_diff))), d)
                 else Inr ((j_id row, j_state row, True,
                        MetadataDifferences
                          (payload_diff (metadata_payload_from_row row) submitted_metadata)), d)
          | None \<Rightarrow>
              Inr ((jobs_seq d + 1, QUEUED, False, NoDifferences), insert_submission s now d))"

definition add_job :: "submission \<Rightarrow> pyfloat \<Rightarrow> db \<Rightarrow> py_exn + int \<times> db" where
  "add_job s now d =
     and_then (add_job_checked (s\<lparr>s_idempotency_key := None, s_tags := None, s_note := None\<rparr>) now d)
       (\<lambda>((job_id, _, _, _), d'). Inr (job_id, d'))"

section \<open>Claiming\<close>

definition eligible :: "pyfloat \<Rightarrow> string \<Rightarrow> job \<Rightarrow> bool" where
  "eligible now lane j \<longleftrightarrow> j_state j = QUEUED \<and> j_next_run_at j \<le> now \<and> j_queue j = lane"

definition claim_order :: "job \<Rightarrow> int \<times> pyfloat \<times> int" where
  \<comment> \<open>\<open>ORDER BY priority DESC, next_run_at ASC, id ASC\<close>\<close>
  "claim_order j = (- j_priority j, j_next_run_at j, j_id j)"

definition running_in_lane :: "string \<Rightarrow> db \<Rightarrow> int" where
  "running_in_lane lane d = count_where (\<lambda>j. j_state j = RUNNING \<and> j_queue j = lane) (jobs d)"

definition next_attempt_no :: "int \<Rightarrow> db \<Rightarrow> int" where
  \<comment> \<open>\<open>COALESCE(MAX(attempt_no), 0) + 1\<close>\<close>
  "next_attempt_no job_id d = (case atts_of d job_id of [] \<Rightarrow> 0
     | a # as \<Rightarrow> Max (set (map a_attempt_no (a # as)))) + 1"

definition slots_full :: "int option \<Rightarrow> string \<Rightarrow> db \<Rightarrow> bool" where
  "slots_full slots lane d = (case slots of None \<Rightarrow> False | Some n \<Rightarrow> n \<le> running_in_lane lane d)"

definition lock_row :: "string \<Rightarrow> int \<Rightarrow> pyfloat \<Rightarrow> job \<Rightarrow> job" where
  "lock_row worker_id worker_pid now j = j\<lparr>j_state := RUNNING, j_locked_by := Some worker_id,
     j_locked_pid := Some worker_pid, j_locked_at := Some now, j_heartbeat_at := Some now,
     j_started_at := Some now\<rparr>"

definition new_attempt ::
  "int \<Rightarrow> int \<Rightarrow> string \<Rightarrow> int \<Rightarrow> pyfloat \<Rightarrow> string \<Rightarrow> int \<Rightarrow> attempt" where
  "new_attempt job_id attempt_no worker_id worker_pid now out_root i =
     (let attempt_dir = path_join (path_join out_root (str_of_int job_id)) (str_of_int attempt_no)
      in \<lparr>a_id = i, a_job_id = job_id, a_attempt_no = attempt_no, a_worker_id = worker_id,
          a_worker_pid = worker_pid, a_state = ATT_RUNNING, a_started_at = now,
          a_stdout_path = path_join attempt_dir ''stdout'',
          a_stderr_path = path_join attempt_dir ''stderr'',
          a_finished_at = None, a_exit_code = None, a_error = None, a_failure_reason = None\<rparr>)"

definition claim_row :: "int \<Rightarrow> string \<Rightarrow> int \<Rightarrow> pyfloat \<Rightarrow> string \<Rightarrow> db \<Rightarrow> db" where
  \<comment> \<open>the three writes of a claim\<close>
  "claim_row job_id worker_id worker_pid now out_root d =
     add_event job_id now EV_CLAIMED (Some worker_id) None
       (insert_attempt
         (new_attempt job_id (next_attempt_no job_id d) worker_id worker_pid now out_root)
         (update_jobs (\<lambda>j. j_id j = job_id) (lock_row worker_id worker_pid now) d))"

definition get_attempt :: "db \<Rightarrow> int \<Rightarrow> attempt option" where
  "get_attempt d i = find (\<lambda>a. a_id a = i) (atts d)"

definition claim_next ::
  "string \<Rightarrow> int \<Rightarrow> pyfloat \<Rightarrow> string \<Rightarrow> string \<Rightarrow> int option \<Rightarrow> db
     \<Rightarrow> (job \<times> attempt) option \<times> db" where
  \<comment> \<open>the two reads after \<open>COMMIT\<close> find the rows just written (\<open>claim_reads_back\<close>)\<close>
  "claim_next worker_id worker_pid now out_root lane slots d =
     (if slots_full slots lane d then (None, d)
      else case first_by claim_order (filter (eligible now lane) (jobs d)) of
             None \<Rightarrow> (None, d)
           | Some row \<Rightarrow>
               let d' = claim_row (j_id row) worker_id worker_pid now out_root d
               in case (get_job d' (j_id row), get_attempt d' (atts_seq d')) of
                    (Some j, Some a) \<Rightarrow> (Some (j, a), d')
                  | _ \<Rightarrow> (None, d'))"

section \<open>Ownership\<close>

definition owned_by :: "int \<Rightarrow> string \<Rightarrow> int \<Rightarrow> job \<Rightarrow> bool" where
  \<comment> \<open>\<open>_OWNERSHIP_GUARD\<close>\<close>
  "owned_by job_id worker_id worker_pid j \<longleftrightarrow> j_id j = job_id \<and> j_state j = RUNNING \<and>
     j_locked_by j = Some worker_id \<and> j_locked_pid j = Some worker_pid"

definition update_heartbeat :: "int \<Rightarrow> string \<Rightarrow> int \<Rightarrow> pyfloat \<Rightarrow> db \<Rightarrow> int \<times> db" where
  "update_heartbeat job_id worker_id worker_pid now d =
     (count_where (owned_by job_id worker_id worker_pid) (jobs d),
      update_jobs (owned_by job_id worker_id worker_pid) (\<lambda>j. j\<lparr>j_heartbeat_at := Some now\<rparr>) d)"

section \<open>Recording a result\<close>

definition unlock_row :: "job \<Rightarrow> job" where
  "unlock_row j = j\<lparr>j_locked_by := None, j_locked_pid := None, j_locked_at := None,
     j_heartbeat_at := None\<rparr>"

definition succeed_row :: "pyfloat \<Rightarrow> job \<Rightarrow> job" where
  "succeed_row now j = (unlock_row j)\<lparr>j_state := DONE, j_finished_at := Some now,
     j_last_exit_code := Some 0, j_last_error := None\<rparr>"

definition record_success ::
  "int \<Rightarrow> int \<Rightarrow> string \<Rightarrow> int \<Rightarrow> pyfloat \<Rightarrow> db \<Rightarrow> job_state option \<times> db" where
  "record_success job_id attempt_id worker_id worker_pid now d =
     (if count_where (owned_by job_id worker_id worker_pid) (jobs d) = 0 then (None, d)
      else (Some DONE,
        add_event job_id now EV_SUCCEEDED (Some worker_id) None
          (update_attempts (\<lambda>a. a_id a = attempt_id \<and> a_state a = ATT_RUNNING)
            (\<lambda>a. a\<lparr>a_state := ATT_SUCCEEDED, a_finished_at := Some now, a_exit_code := Some 0\<rparr>)
            (update_jobs (owned_by job_id worker_id worker_pid) (succeed_row now) d))))"

definition FAILURE_EVENTS :: "(string \<times> attempt_state \<times> event_type) list" where
  "FAILURE_EVENTS =
     [(''failed'', ATT_FAILED, EV_FAILED), (''timed_out'', ATT_TIMED_OUT, EV_TIMED_OUT)]"

definition validate_failure_reason :: "string \<Rightarrow> int option \<Rightarrow> string \<Rightarrow> py_exn + failure_reason" where
  "validate_failure_reason kind exit_code reason = (case map_of FAILURE_REASONS reason of
       None \<Rightarrow> Inl ValueError
     | Some r \<Rightarrow>
         if kind = ''timed_out'' \<and> r \<noteq> REASON_TIMEOUT then Inl ValueError
         else if kind = ''failed'' \<and> exit_code \<noteq> None \<and> r \<noteq> REASON_PROCESS_EXIT
           then Inl ValueError
         else if kind = ''failed'' \<and> exit_code = None \<and>
             r \<notin> {REASON_SPAWN_FAILED, REASON_UNKNOWN} then Inl ValueError
         else Inr r)"

definition default_failure_reason :: "string \<Rightarrow> int option \<Rightarrow> string option \<Rightarrow> string" where
  "default_failure_reason kind exit_code reason = (case reason of
       Some r \<Rightarrow> r
     | None \<Rightarrow> if kind = ''timed_out'' then ''timeout''
         else if kind = ''failed'' \<and> exit_code \<noteq> None then ''process_exit''
         else ''unknown'')"

definition fail_row ::
  "job_state \<Rightarrow> int \<Rightarrow> pyfloat \<Rightarrow> pyfloat \<Rightarrow> int option \<Rightarrow> string \<Rightarrow> job \<Rightarrow> job" where
  "fail_row new_state new_attempts next_run_at now exit_code error j =
     (unlock_row j)\<lparr>j_state := new_state, j_attempts := new_attempts, j_next_run_at := next_run_at,
       j_finished_at := Some now, j_last_exit_code := exit_code, j_last_error := Some error\<rparr>"

definition after_failure :: "bool \<Rightarrow> int \<Rightarrow> pyfloat \<Rightarrow> job_state \<times> pyfloat" where
  \<comment> \<open>requeue with backoff while the budget lasts, dead-letter otherwise\<close>
  "after_failure budget_left new_attempts now =
     (if budget_left then (QUEUED, fadd now (backoff_seconds new_attempts)) else (DEAD, now))"

definition record_failure ::
  "int \<Rightarrow> int \<Rightarrow> string \<Rightarrow> int \<Rightarrow> string \<Rightarrow> int option \<Rightarrow> string \<Rightarrow> pyfloat \<Rightarrow> string option \<Rightarrow> db
     \<Rightarrow> py_exn + job_state option \<times> db" where
  "record_failure job_id attempt_id worker_id worker_pid kind exit_code error now reason d =
     (case map_of FAILURE_EVENTS kind of
        None \<Rightarrow> Inl ValueError
      | Some (att_state, ev) \<Rightarrow>
        and_then
          (validate_failure_reason kind exit_code (default_failure_reason kind exit_code reason))
          (\<lambda>r. case find (owned_by job_id worker_id worker_pid) (jobs d) of
             None \<Rightarrow> Inr (None, d)
           | Some row \<Rightarrow>
               let new_attempts = j_attempts row + 1;
                   job_failures = new_attempts - j_crashes row;
                   (new_state, next_run_at) =
                     after_failure (job_failures \<le> j_max_retries row) new_attempts now;
                   d1 = update_jobs (owned_by job_id worker_id worker_pid)
                     (fail_row new_state new_attempts next_run_at now exit_code error) d;
                   d2 = update_attempts (\<lambda>a. a_id a = attempt_id \<and> a_state a = ATT_RUNNING)
                     (\<lambda>a. a\<lparr>a_state := att_state, a_finished_at := Some now,
                       a_exit_code := exit_code, a_error := Some error,
                       a_failure_reason := Some r\<rparr>) d1;
                   d3 = add_event job_id now ev (Some worker_id) (Some error) d2;
                   d4 = (if new_state = DEAD
                     then add_event job_id now EV_DEAD (Some worker_id) None d3 else d3)
               in Inr (Some new_state, d4)))"

section \<open>Reaping\<close>

definition heartbeat_before :: "pyfloat \<Rightarrow> job \<Rightarrow> bool" where
  "heartbeat_before cutoff j = (case j_heartbeat_at j of None \<Rightarrow> False | Some h \<Rightarrow> h < cutoff)"

definition stale_running_candidates :: "pyfloat \<Rightarrow> db \<Rightarrow> job list" where
  "stale_running_candidates cutoff d = sort_key (\<lambda>j. (j_heartbeat_at j, j_id j))
     (filter (\<lambda>j. j_state j = RUNNING \<and> heartbeat_before cutoff j) (jobs d))"

definition reapable :: "int \<Rightarrow> int \<Rightarrow> pyfloat \<Rightarrow> job \<Rightarrow> bool" where
  "reapable job_id locked_pid cutoff j \<longleftrightarrow> j_id j = job_id \<and> j_state j = RUNNING \<and>
     j_locked_pid j = Some locked_pid \<and> heartbeat_before cutoff j"

definition abandon ::
  "pyfloat \<Rightarrow> string \<Rightarrow> failure_reason \<Rightarrow> attempt_state \<Rightarrow> attempt \<Rightarrow> attempt" where
  "abandon now error reason st a = a\<lparr>a_state := st, a_finished_at := Some now,
     a_error := Some error, a_failure_reason := Some reason\<rparr>"

definition running_attempt_of :: "int \<Rightarrow> attempt \<Rightarrow> bool" where
  "running_attempt_of job_id a \<longleftrightarrow> a_job_id a = job_id \<and> a_state a = ATT_RUNNING"

definition crash_row :: "job_state \<Rightarrow> int \<Rightarrow> int \<Rightarrow> pyfloat \<Rightarrow> pyfloat \<Rightarrow> job \<Rightarrow> job" where
  "crash_row new_state new_attempts new_crashes next_run_at now j =
     (unlock_row j)\<lparr>j_state := new_state, j_attempts := new_attempts, j_crashes := new_crashes,
       j_next_run_at := next_run_at, j_finished_at := Some now, j_last_exit_code := None,
       j_last_error := Some ''worker died''\<rparr>"

definition reap ::
  "int \<Rightarrow> int \<Rightarrow> pyfloat \<Rightarrow> pyfloat \<Rightarrow> string \<Rightarrow> db \<Rightarrow> job_state option \<times> db" where
  "reap job_id locked_pid cutoff now reaper_id d =
     (case find (reapable job_id locked_pid cutoff) (jobs d) of
        None \<Rightarrow> (None, d)
      | Some row \<Rightarrow>
          let new_attempts = j_attempts row + 1;
              new_crashes = j_crashes row + 1;
              (new_state, next_run_at) = after_failure
                (case j_max_crashes row of None \<Rightarrow> True | Some m \<Rightarrow> new_crashes \<le> m)
                new_attempts now;
              d1 = update_jobs (\<lambda>j. j_id j = job_id)
                (crash_row new_state new_attempts new_crashes next_run_at now) d;
              d2 = update_attempts (running_attempt_of job_id)
                (abandon now ''worker died'' REASON_WORKER_CRASH ATT_ABANDONED) d1;
              d3 = add_event job_id now EV_REAPED (Some reaper_id)
                (Some (''dead worker pid '' @ str_of_int locked_pid)) d2;
              d4 = (if new_state = DEAD
                then add_event job_id now EV_DEAD (Some reaper_id) None d3 else d3)
          in (Some new_state, d4))"

section \<open>Manual retry and cancellation\<close>

datatype retry_outcome =
  Retry_ok | Retry_not_found | Retry_already_queued | Retry_done | Retry_running_unforced
| Retry_raced

definition requeue_row :: "pyfloat \<Rightarrow> job \<Rightarrow> job" where
  "requeue_row now j = (unlock_row j)\<lparr>j_state := QUEUED, j_attempts := 0, j_crashes := 0,
     j_next_run_at := now, j_finished_at := None, j_last_exit_code := None, j_last_error := None\<rparr>"

definition requeue :: "int \<Rightarrow> bool \<Rightarrow> pyfloat \<Rightarrow> db \<Rightarrow> db" where
  "requeue job_id force now d =
     add_event job_id now EV_RETRIED None (if force then Some ''forced'' else None)
       (update_jobs (\<lambda>j. j_id j = job_id) (requeue_row now) d)"

definition retry_job ::
  "int \<Rightarrow> bool \<Rightarrow> pyfloat \<Rightarrow> db \<Rightarrow> (retry_outcome \<times> string list option) \<times> db" where
  "retry_job job_id force now d =
     (case get_job d job_id of
        None \<Rightarrow> ((Retry_not_found, None), d)
      | Some row \<Rightarrow>
          let argv = Some (j_argv row)
          in if force then
               (if j_state row \<noteq> RUNNING then ((Retry_raced, argv), d)
                else ((Retry_ok, argv),
                  requeue job_id force now
                    (update_attempts (running_attempt_of job_id)
                      (abandon now ''force-retried'' REASON_CANCELED ATT_ABANDONED) d)))
             else if j_state row = QUEUED then ((Retry_already_queued, argv), d)
             else if j_state row = DONE then ((Retry_done, argv), d)
             else if j_state row = RUNNING then ((Retry_running_unforced, argv), d)
             else ((Retry_ok, argv), requeue job_id force now d))"

datatype cancel_outcome =
  Cancel_ok | Cancel_ok_running | Cancel_not_found | Cancel_running_unforced | Cancel_terminal
| Cancel_raced

definition cancel_job ::
  "int \<Rightarrow> bool \<Rightarrow> pyfloat \<Rightarrow> db \<Rightarrow> (cancel_outcome \<times> job_state option) \<times> db" where
  "cancel_job job_id allow_running now d =
     (case get_job d job_id of
        None \<Rightarrow> ((Cancel_not_found, None), d)
      | Some row \<Rightarrow>
          if j_state row = QUEUED then
            ((Cancel_ok, Some QUEUED),
             add_event job_id now EV_CANCELED None None
               (update_jobs (\<lambda>j. j_id j = job_id)
                 (\<lambda>j. j\<lparr>j_state := CANCELED, j_finished_at := Some now\<rparr>) d))
          else if j_state row = RUNNING then
            (if \<not> allow_running then ((Cancel_running_unforced, Some (j_state row)), d)
             else if count_where (\<lambda>j. j_id j = job_id \<and> j_state j = RUNNING) (jobs d) = 0
               then ((Cancel_raced, Some (j_state row)), d)
             else ((Cancel_ok_running, Some RUNNING),
               add_event job_id now EV_CANCELED None (Some ''forced (was running)'')
                 (update_attempts (running_attempt_of job_id)
                   (abandon now ''canceled'' REASON_CANCELED ATT_CANCELED)
                   (update_jobs (\<lambda>j. j_id j = job_id \<and> j_state j = RUNNING)
                     (\<lambda>j. (unlock_row j)\<lparr>j_state := CANCELED, j_finished_at := Some now\<rparr>) d))))
          else ((Cancel_terminal, Some (j_state row)), d))"

section \<open>Pruning\<close>

record prune_match =
  pm_job_id :: int
  pm_n_attempts :: int
  pm_n_events :: int
  pm_paths :: "(string \<times> string) list"

definition prunable :: "job_state list \<Rightarrow> pyfloat \<Rightarrow> job \<Rightarrow> bool" where
  "prunable states cutoff j \<longleftrightarrow> j_state j \<in> set states \<and>
     (case j_finished_at j of None \<Rightarrow> False | Some t \<Rightarrow> t < cutoff)"

definition prune_matches :: "job_state list \<Rightarrow> pyfloat \<Rightarrow> db \<Rightarrow> prune_match list" where
  "prune_matches states cutoff d =
     map (\<lambda>j. let attempts = sort_key a_attempt_no (atts_of d (j_id j))
          in \<lparr>pm_job_id = j_id j, pm_n_attempts = int (length attempts),
              pm_n_events = int (length (evs_of d (j_id j))),
              pm_paths = map (\<lambda>a. (a_stdout_path a, a_stderr_path a)) attempts\<rparr>)
       (sort_key j_id (filter (prunable states cutoff) (jobs d)))"

definition prune_one ::
  "job_state list \<Rightarrow> pyfloat \<Rightarrow> int \<Rightarrow> (int \<times> int \<times> int) \<times> db \<Rightarrow> (int \<times> int \<times> int) \<times> db" where
  "prune_one states cutoff job_id = (\<lambda>((n_jobs, n_attempts, n_events), d).
     (case get_job d job_id of
        None \<Rightarrow> ((n_jobs, n_attempts, n_events), d)
      | Some row \<Rightarrow>
          if \<not> prunable states cutoff row then ((n_jobs, n_attempts, n_events), d)
          else
            let n_attempts' = n_attempts + count_where (\<lambda>a. a_job_id a = job_id) (atts d);
                d1 = delete_attempts (\<lambda>a. a_job_id a = job_id) d;
                n_events' = n_events + count_where (\<lambda>e. e_job_id e = job_id) (evs d1);
                d2 = delete_events (\<lambda>e. e_job_id e = job_id) d1;
                n_jobs' = n_jobs + count_where (\<lambda>j. j_id j = job_id) (jobs d2);
                d3 = delete_jobs (\<lambda>j. j_id j = job_id) d2
            in ((n_jobs', n_attempts', n_events'), d3)))"

definition prune_delete ::
  "int list \<Rightarrow> job_state list \<Rightarrow> pyfloat \<Rightarrow> db \<Rightarrow> (int \<times> int \<times> int) \<times> db" where
  "prune_delete job_ids states cutoff d = fold (prune_one states cutoff) job_ids ((0, 0, 0), d)"

lemmas row_defs = lock_row_def unlock_row_def succeed_row_def fail_row_def crash_row_def
  requeue_row_def abandon_def new_attempt_def new_job_def

lemmas guard_defs = owned_by_def reapable_def running_attempt_of_def eligible_def prunable_def

end
