(* ===== verification/StoreInv.thy ===== *)
theory StoreInv
  imports Store
begin

text \<open>
  The invariant of the queue database and its preservation by every write operation of \<open>Store\<close>.

  The invariant is a condition on each job's own rows (\<open>view_ok\<close>), so preservation has one shape: an
  operation on job \<open>k\<close> leaves the views of every other job alone (\<open>only_job\<close>) and restores the
  condition on \<open>k\<close>'s. For one job it says that attempts are numbered \<open>1, 2, ...\<close> without gaps; that
  the lock columns are set exactly while it runs, and then the last attempt, and no other, is running
  and held by the lock's owner; that the retry and crash budgets are as the state says; and that the
  event trail replays, by the lifecycle machine \<open>life\<close>, to the state in the row.
\<close>

section \<open>The lifecycle\<close>

datatype track = Unborn | At job_state | Illegal

fun life :: "track \<Rightarrow> event_type \<Rightarrow> track" where
  "life Unborn EV_ADDED = At QUEUED"
| "life (At QUEUED) EV_CLAIMED = At RUNNING"
| "life (At RUNNING) EV_SUCCEEDED = At DONE"
| "life (At RUNNING) EV_FAILED = At QUEUED"
| "life (At RUNNING) EV_TIMED_OUT = At QUEUED"
| "life (At RUNNING) EV_REAPED = At QUEUED"
| "life (At QUEUED) EV_DEAD = At DEAD"
| "life (At RUNNING) EV_RETRIED = At QUEUED"
| "life (At DEAD) EV_RETRIED = At QUEUED"
| "life (At CANCELED) EV_RETRIED = At QUEUED"
| "life (At FAILED) EV_RETRIED = At QUEUED"
| "life (At QUEUED) EV_CANCELED = At CANCELED"
| "life (At RUNNING) EV_CANCELED = At CANCELED"
| "life _ _ = Illegal"

definition replay :: "event list \<Rightarrow> track" where
  "replay es = foldl life Unborn (map e_event es)"

lemma replay_simps [simp]:
  "replay [] = Unborn"
  "replay (es @ [e]) = life (replay es) (e_event e)"
  "replay (es @ [e, e']) = life (life (replay es) (e_event e)) (e_event e')"
  by (simp_all add: replay_def)

section \<open>The invariant\<close>

definition attempt_ok :: "attempt \<Rightarrow> bool" where
  \<comment> \<open>a reason exactly on the attempts that did not succeed, and the one the outcome allows\<close>
  "attempt_ok a \<longleftrightarrow> (a_finished_at a = None \<longleftrightarrow> a_state a = ATT_RUNNING) \<and>
     (case a_state a of
        ATT_RUNNING \<Rightarrow> a_failure_reason a = None
      | ATT_SUCCEEDED \<Rightarrow> a_failure_reason a = None \<and> a_exit_code a = Some 0
      | ATT_FAILED \<Rightarrow> if a_exit_code a = None
          then a_failure_reason a \<in> {Some REASON_SPAWN_FAILED, Some REASON_UNKNOWN}
          else a_failure_reason a = Some REASON_PROCESS_EXIT
      | ATT_TIMED_OUT \<Rightarrow> a_failure_reason a = Some REASON_TIMEOUT
      | ATT_ABANDONED \<Rightarrow>
          a_failure_reason a \<in> {Some REASON_WORKER_CRASH, Some REASON_CANCELED}
      | ATT_CANCELED \<Rightarrow> a_failure_reason a = Some REASON_CANCELED)"

definition attempts_ok :: "attempt list \<Rightarrow> bool" where
  "attempts_ok as \<longleftrightarrow> map a_attempt_no as = [1..int (length as)] \<and> (\<forall>a\<in>set as. attempt_ok a)"

definition none_running :: "attempt list \<Rightarrow> bool" where
  "none_running as \<longleftrightarrow> (\<forall>a\<in>set as. a_state a \<noteq> ATT_RUNNING)"

definition held_by :: "job \<Rightarrow> attempt \<Rightarrow> bool" where
  "held_by j a \<longleftrightarrow> a_state a = ATT_RUNNING \<and> j_locked_by j = Some (a_worker_id a) \<and>
     j_locked_pid j = Some (a_worker_pid a)"

definition running_ok :: "job \<Rightarrow> attempt list \<Rightarrow> bool" where
  "running_ok j as \<longleftrightarrow> (if j_state j = RUNNING
     then as \<noteq> [] \<and> held_by j (last as) \<and> none_running (butlast as) else none_running as)"

definition lock_ok :: "job \<Rightarrow> bool" where
  "lock_ok j \<longleftrightarrow> (if j_state j = RUNNING
     then j_locked_at j \<noteq> None \<and> j_heartbeat_at j \<noteq> None \<and> j_started_at j \<noteq> None
     else j_locked_by j = None \<and> j_locked_pid j = None \<and> j_locked_at j = None \<and>
       j_heartbeat_at j = None)"

definition failures :: "job \<Rightarrow> int" where
  "failures j = j_attempts j - j_crashes j"

definition retry_budget :: "job \<Rightarrow> int" where
  "retry_budget j = max 0 (j_max_retries j)"

definition crashes_within :: "job \<Rightarrow> int \<Rightarrow> bool" where
  "crashes_within j n \<longleftrightarrow> (case j_max_crashes j of None \<Rightarrow> True | Some m \<Rightarrow> n \<le> m)"

definition budget_ok :: "job \<Rightarrow> bool" where
  "budget_ok j \<longleftrightarrow> 0 \<le> failures j \<and> 0 \<le> j_crashes j \<and> crashes_within j 0 \<and>
     (if j_state j = DEAD
      then failures j = retry_budget j + 1 \<and> crashes_within j (j_crashes j) \<or>
        failures j \<le> retry_budget j \<and> j_max_crashes j = Some (j_crashes j - 1)
      else failures j \<le> retry_budget j \<and> crashes_within j (j_crashes j))"

definition finished_ok :: "job \<Rightarrow> bool" where
  "finished_ok j \<longleftrightarrow> j_state j \<noteq> FAILED \<and>
     (j_state j \<in> set WAIT_TERMINAL \<longrightarrow> j_finished_at j \<noteq> None)"

definition job_ok :: "job \<Rightarrow> attempt list \<Rightarrow> event list \<Rightarrow> bool" where
  "job_ok j as es \<longleftrightarrow> attempts_ok as \<and> running_ok j as \<and> lock_ok j \<and> budget_ok j \<and>
     finished_ok j \<and> replay es = At (j_state j)"

definition view_ok :: "job option \<Rightarrow> attempt list \<Rightarrow> event list \<Rightarrow> bool" where
  "view_ok jo as es \<longleftrightarrow> (case jo of None \<Rightarrow> as = [] \<and> es = [] | Some j \<Rightarrow> job_ok j as es)"

definition db_inv :: "db \<Rightarrow> bool" where
  "db_inv d \<longleftrightarrow> tables_ok d \<and> (\<forall>i. view_ok (get_job d i) (atts_of d i) (evs_of d i))"

declare lock_ok_def [inv_defs] failures_def [inv_defs] retry_budget_def [inv_defs]
  crashes_within_def [inv_defs] budget_ok_def [inv_defs] finished_ok_def [inv_defs]
  WAIT_TERMINAL_def [inv_defs] running_ok_def [inv_defs]

lemma view_ok_simps [simp]:
  "view_ok None as es \<longleftrightarrow> as = [] \<and> es = []"
  "view_ok (Some j) as es \<longleftrightarrow> job_ok j as es"
  by (simp_all add: view_ok_def)

lemma db_inv_tables: "db_inv d \<Longrightarrow> tables_ok d"
  by (simp add: db_inv_def)

lemma db_inv_view: "db_inv d \<Longrightarrow> view_ok (get_job d i) (atts_of d i) (evs_of d i)"
  by (simp add: db_inv_def)

lemma db_inv_job: "db_inv d \<Longrightarrow> get_job d i = Some j \<Longrightarrow> job_ok j (atts_of d i) (evs_of d i)"
  using db_inv_view[of d i] by simp

lemma db_inv_empty: "db_inv empty_db"
  by (simp add: db_inv_def tables_ok_def ids_ok_def ascending_def empty_db_def get_job_def
      atts_of_def evs_of_def)

section \<open>Operations on one job\<close>

definition only_job :: "int \<Rightarrow> db \<Rightarrow> db \<Rightarrow> bool" where
  "only_job k d d' \<longleftrightarrow> (\<forall>i. i \<noteq> k \<longrightarrow> get_job d' i = get_job d i \<and>
     atts_of d' i = atts_of d i \<and> evs_of d' i = evs_of d i)"

lemma only_job_refl [simp]: "only_job k d d"
  by (simp add: only_job_def)

lemma only_job_trans: "only_job k d d' \<Longrightarrow> only_job k d' d'' \<Longrightarrow> only_job k d d''"
  by (simp add: only_job_def)

lemma db_inv_only_job:
  assumes "db_inv d" and "only_job k d d'" and "tables_ok d'"
    and "view_ok (get_job d' k) (atts_of d' k) (evs_of d' k)"
  shows "db_inv d'"
  unfolding db_inv_def
proof (intro conjI allI assms(3))
  fix i
  show "view_ok (get_job d' i) (atts_of d' i) (evs_of d' i)"
    using assms(1,2,4) db_inv_view[of d i] by (cases "i = k") (simp_all add: only_job_def)
qed

lemma only_job_insert_attempt:
  "only_job k d d' \<Longrightarrow> (\<And>i. a_job_id (mk i) = k) \<Longrightarrow> only_job k d (insert_attempt mk d')"
  by (auto simp: only_job_def tab_simps)

lemma only_job_update_jobs:
  assumes "only_job k d d'" and "\<And>j. P j \<Longrightarrow> j_id j = k" and "\<And>j. j_id (f j) = j_id j"
  shows "only_job k d (update_jobs P f d')"
proof -
  have "get_job (update_jobs P f d') i = get_job d' i" if "i \<noteq> k" for i
    using assms(2) that get_job_id[of d' i]
    unfolding get_job_update_jobs[OF assms(3)] by (cases "get_job d' i") auto
  with assms(1) show ?thesis by (simp add: only_job_def tab_simps)
qed

lemma only_job_update_attempts:
  assumes "only_job k d d'" and "\<And>a. a \<in> set (atts d') \<Longrightarrow> P a \<Longrightarrow> a_job_id a = k"
    and "\<And>a. a_job_id (f a) = a_job_id a"
  shows "only_job k d (update_attempts P f d')"
proof -
  have "atts_of (update_attempts P f d') i = atts_of d' i" if "i \<noteq> k" for i
    unfolding atts_of_update_attempts[OF assms(3)]
    by (rule update_where_none) (use assms(2) that in auto)
  with assms(1) show ?thesis by (simp add: only_job_def tab_simps)
qed

lemma add_event_effect [tab_simps]:
  "jobs (add_event k t ev w x d) = jobs d" "atts (add_event k t ev w x d) = atts d"
  "jobs_seq (add_event k t ev w x d) = jobs_seq d" "atts_seq (add_event k t ev w x d) = atts_seq d"
  "evs_seq (add_event k t ev w x d) = evs_seq d + 1"
  "get_job (add_event k t ev w x d) i = get_job d i"
  "atts_of (add_event k t ev w x d) i = atts_of d i"
  "evs_of (add_event k t ev w x d) i = evs_of d i @ (if k = i
     then [\<lparr>e_id = evs_seq d + 1, e_job_id = k, e_at = t, e_event = ev, e_worker_id = w,
       e_detail = x\<rparr>] else [])"
  by (auto simp: add_event_def tab_simps) (auto simp: insert_event_def)

lemma tables_ok_add_event: "tables_ok d \<Longrightarrow> tables_ok (add_event k t ev w x d)"
  unfolding add_event_def by (rule tables_ok_insert_event) simp_all

lemma only_job_add_event: "only_job k d d' \<Longrightarrow> only_job k d (add_event k t ev w x d')"
  by (simp add: only_job_def tab_simps)

lemmas only_job_intros = only_job_refl only_job_insert_attempt only_job_update_jobs only_job_update_attempts
  only_job_add_event

lemma row_ids [simp]:
  "j_id (lock_row w p t j) = j_id j" "j_id (unlock_row j) = j_id j"
  "j_id (succeed_row t j) = j_id j" "j_id (fail_row s n r t x e j) = j_id j"
  "j_id (crash_row s n c r t j) = j_id j" "j_id (requeue_row t j) = j_id j"
  "a_job_id (abandon t e fr st a) = a_job_id a" "a_id (abandon t e fr st a) = a_id a"
  "a_job_id (new_attempt k m w p t out i) = k" "a_id (new_attempt k m w p t out i) = i"
  "j_id (new_job sub t i) = i"
  by (simp_all add: row_defs Let_def)

text \<open>A guard that names the id finds at most that row.\<close>

lemma find_guard:
  assumes "tables_ok d" and "\<And>j. P j \<Longrightarrow> j_id j = k"
  shows "find P (jobs d) = (case get_job d k of None \<Rightarrow> None | Some j \<Rightarrow> if P j then Some j else None)"
proof (cases "find P (jobs d)")
  case None
  then show ?thesis
    using get_job_Some[of d k] by (auto simp: find_None_iff split: option.splits)
next
  case (Some j)
  then have "P j" "j \<in> set (jobs d)" by (auto simp: find_Some_iff)
  then have "get_job d k = Some j" using assms by (auto simp: get_job_iff)
  with Some \<open>P j\<close> show ?thesis by simp
qed

lemma count_guard:
  assumes "tables_ok d" and "\<And>j. P j \<Longrightarrow> j_id j = k"
  shows "count_where P (jobs d) =
    (case get_job d k of None \<Rightarrow> 0 | Some j \<Rightarrow> if P j then 1 else 0)"
proof (cases "\<exists>j\<in>set (jobs d). P j")
  case True
  then obtain j where j: "j \<in> set (jobs d)" "P j" by blast
  have "count_where (\<lambda>y. j_id y = k \<and> P y) (jobs d) = 1"
    using assms j by (intro count_unique_id) (auto simp: tables_ok_def ids_ok_def)
  moreover have "count_where (\<lambda>y. j_id y = k \<and> P y) (jobs d) = count_where P (jobs d)"
    using assms(2) by (intro count_where_cong) auto
  moreover have "get_job d k = Some j" using assms j by (auto simp: get_job_iff)
  ultimately show ?thesis using j(2) by simp
next
  case False
  then have "count_where P (jobs d) = 0" by (auto simp: count_where_eq_0)
  with False show ?thesis using get_job_Some[of d k] by (auto split: option.splits)
qed

lemma owned_id: "owned_by k w p j \<Longrightarrow> j_id j = k"
  by (simp add: owned_by_def)

lemma reapable_id: "reapable k p c j \<Longrightarrow> j_id j = k"
  by (simp add: reapable_def)

section \<open>Preservation\<close>

lemma view_fresh: "db_inv d \<Longrightarrow> jobs_seq d < i \<Longrightarrow>
    get_job d i = None \<and> atts_of d i = [] \<and> evs_of d i = []"
  using db_inv_view[of d i] jt.fresh[of d] get_job_Some[of d i] db_inv_tables[of d]
  by (cases "get_job d i") (force simp: tables_ok_def)+

lemma attempts_ok_snoc:
  "attempts_ok (as @ [a]) \<longleftrightarrow> attempts_ok as \<and> a_attempt_no a = int (length as) + 1 \<and> attempt_ok a"
proof -
  have "[1..int (length as) + 1] = [1..int (length as)] @ [int (length as) + 1]"
    by (simp add: upto_rec2)
  then show ?thesis by (auto simp: attempts_ok_def algebra_simps)
qed

lemma attempts_ok_update:
  assumes "attempts_ok as" and "\<And>a. a \<in> set as \<Longrightarrow> P a \<Longrightarrow> attempt_ok (f a)"
    and "\<And>a. a_attempt_no (f a) = a_attempt_no a"
  shows "attempts_ok (update_where P f as)"
  using assms by (auto simp: attempts_ok_def map_update_where set_update_where)

lemma none_running_update:
  "none_running as \<Longrightarrow> (\<And>a. P a \<Longrightarrow> a_state (f a) \<noteq> ATT_RUNNING) \<Longrightarrow>
     none_running (update_where P f as)"
  by (auto simp: none_running_def set_update_where split: if_splits)

lemma running_ok_cases:
  assumes "running_ok j as" and "j_state j = RUNNING"
  obtains bs a where "as = bs @ [a]" "held_by j a" "none_running bs"
  using assms by (auto simp: running_ok_def) (metis append_butlast_last_id)

text \<open>Finishing every running attempt leaves none.\<close>

lemma finish_all_running:
  assumes "\<And>a. a_state (f a) \<noteq> ATT_RUNNING"
  shows "none_running (update_where (running_attempt_of k) f (atts_of d k))"
  using assms
  by (auto simp: none_running_def set_update_where running_attempt_of_def split: if_splits) metis

lemma next_attempt_no_eq:
  assumes "attempts_ok (atts_of d k)"
  shows "next_attempt_no k d = int (length (atts_of d k)) + 1"
proof -
  have nums: "map a_attempt_no (atts_of d k) = [1..int (length (atts_of d k))]"
    using assms by (simp add: attempts_ok_def)
  show ?thesis
  proof (cases "atts_of d k")
    case (Cons a as)
    have "Max (set [1..int (length (a # as))]) = int (length (a # as))"
      by (intro Max_eqI) auto
    then have "Max (set (map a_attempt_no (a # as))) = int (length (a # as))"
      using nums unfolding Cons by (simp only:)
    then show ?thesis by (simp add: next_attempt_no_def Cons del: set_map)
  qed (simp add: next_attempt_no_def)
qed

lemma db_inv_insert_submission:
  assumes inv: "db_inv d" and "validate_execution_payload (s_max_crashes s) = Inr ()"
  shows "db_inv (insert_submission s now d)"
proof (rule db_inv_only_job[OF inv])
  let ?k = "jobs_seq d + 1"
  note ok = db_inv_tables[OF inv]
  show "tables_ok (insert_submission s now d)"
    unfolding insert_submission_def
    by (intro tables_ok_add_event tables_ok_insert_job ok) simp
  note new = get_job_insert_job[OF ok, where mk = "new_job s now", simplified]
  show "only_job ?k d (insert_submission s now d)"
    by (simp add: insert_submission_def only_job_def tab_simps new)
  have "budget_ok (new_job s now ?k)"
    using assms(2) by (auto simp: inv_defs new_job_def validate_execution_payload_def
        split: option.splits if_splits)
  then show "view_ok (get_job (insert_submission s now d) ?k)
      (atts_of (insert_submission s now d) ?k) (evs_of (insert_submission s now d) ?k)"
    using view_fresh[OF inv, of ?k]
    by (simp add: insert_submission_def tab_simps new job_ok_def attempts_ok_def running_ok_def
        none_running_def lock_ok_def finished_ok_def WAIT_TERMINAL_def)
      (simp add: new_job_def replay_def)
qed

lemma db_inv_add:
  assumes "db_inv d" and "add_job_checked s now d = Inr (r, d')"
  shows "db_inv d'"
proof -
  have "d' = d \<or> validate_execution_payload (s_max_crashes s) = Inr () \<and>
      d' = insert_submission s now d"
    using assms(2) by (auto simp: add_job_checked_def and_then_eq_Inr Let_def
        split: option.splits if_splits)
  with assms(1) db_inv_insert_submission show ?thesis by blast
qed

lemma db_inv_claim_row:
  assumes inv: "db_inv d" and j: "get_job d k = Some j" and "j_state j = QUEUED"
  shows "db_inv (claim_row k w p now out d)"
proof (rule db_inv_only_job[OF inv])
  note ok = db_inv_tables[OF inv]
  note job = db_inv_job[OF inv j]
  show "only_job k d (claim_row k w p now out d)"
    unfolding claim_row_def
    by (intro only_job_intros) simp_all
  show "tables_ok (claim_row k w p now out d)"
    unfolding claim_row_def by (intro tables_ok_add_event tables_ok_intros ok) simp_all
  have no: "next_attempt_no k d = int (length (atts_of d k)) + 1"
    using job by (intro next_attempt_no_eq) (simp add: job_ok_def)
  have "attempt_ok (new_attempt k n w p now out i)" for n i
    by (simp add: attempt_ok_def new_attempt_def Let_def)
  then show "view_ok (get_job (claim_row k w p now out d) k) (atts_of (claim_row k w p now out d) k)
      (evs_of (claim_row k w p now out d) k)"
    using job assms(3) j get_job_id[OF j]
    by (simp add: claim_row_def tab_simps job_ok_def attempts_ok_snoc no inv_defs held_by_def)
      (auto simp: lock_row_def new_attempt_def Let_def split: option.splits)
qed

lemma claim_next_cases:
  assumes "claim_next w p now out lane slots d = (r, d')" and "tables_ok d"
  obtains (idle) "r = None" "d' = d"
    "slots_full slots lane d \<or> (\<forall>j\<in>set (jobs d). \<not> eligible now lane j)"
  | (won) row where "\<not> slots_full slots lane d"
      "first_by claim_order (filter (eligible now lane) (jobs d)) = Some row"
      "get_job d (j_id row) = Some row" "eligible now lane row"
      "d' = claim_row (j_id row) w p now out d"
      "r = Some (lock_row w p now row,
        new_attempt (j_id row) (next_attempt_no (j_id row) d) w p now out (atts_seq d + 1))"
proof (cases "first_by claim_order (filter (eligible now lane) (jobs d))")
  case None
  then show ?thesis using assms idle
    by (auto simp: claim_next_def filter_empty_conv split: if_splits)
next
  case (Some row)
  have row: "row \<in> set (jobs d)" "eligible now lane row"
    using first_by_Some(1)[OF Some] by auto
  then have get: "get_job d (j_id row) = Some row" using assms(2) by (simp add: get_job_iff)
  let ?d' = "claim_row (j_id row) w p now out d"
  let ?a = "new_attempt (j_id row) (next_attempt_no (j_id row) d) w p now out"
  have "get_job ?d' (j_id row) = Some (lock_row w p now row)"
    by (simp add: claim_row_def tab_simps get)
  moreover have "get_attempt ?d' (atts_seq ?d') = Some (?a (atts_seq d + 1))"
    using at.find_ins[of "update_jobs (\<lambda>j. j_id j = j_id row) (lock_row w p now) d" ?a] assms(2)
    by (simp add: get_attempt_def claim_row_def tab_simps tables_ok_def)
      (simp add: insert_attempt_def tab_simps)
  ultimately have eq: "claim_next w p now out lane slots d =
      (if slots_full slots lane d then (None, d)
       else (Some (lock_row w p now row, ?a (atts_seq d + 1)), ?d'))"
    by (simp add: claim_next_def Some Let_def)
  show ?thesis
  proof (cases "slots_full slots lane d")
    case True
    then show ?thesis using assms(1) eq by (intro idle) simp_all
  next
    case False
    then show ?thesis using assms(1) eq by (intro won[OF False Some get row(2)]) simp_all
  qed
qed

lemma db_inv_claim:
  assumes "db_inv d" and "claim_next w p now out lane slots d = (r, d')"
  shows "db_inv d'"
  using assms(2) db_inv_tables[OF assms(1)]
  by (cases rule: claim_next_cases) (use assms(1) db_inv_claim_row in \<open>auto simp: eligible_def\<close>)

section \<open>Finishing the running attempt\<close>

text \<open>
  Success, failure, reap, forced retry and cancellation all finish the one running attempt of a
  running job and move the job out of \<open>running\<close>.
\<close>

lemma job_ok_finish:
  assumes "job_ok j as es" and "j_state j = RUNNING"
    and "\<And>a. P a \<Longrightarrow> a_state a = ATT_RUNNING" and "P (last as)"
    and "\<And>a. attempt_ok a \<Longrightarrow> a_state a = ATT_RUNNING \<Longrightarrow>
      attempt_ok (f a) \<and> a_attempt_no (f a) = a_attempt_no a \<and> a_state (f a) \<noteq> ATT_RUNNING"
    and "j_state j' \<noteq> RUNNING" and "lock_ok j'" and "budget_ok j'" and "finished_ok j'"
    and "replay es' = At (j_state j')"
  shows "job_ok j' (update_where P f as) es'"
proof -
  have "running_ok j as" using assms(1) by (simp add: job_ok_def)
  from running_ok_cases[OF this assms(2)] obtain bs a
    where as: "as = bs @ [a]" "held_by j a" "none_running bs" .
  have "update_where P f bs = bs"
    using as(3) assms(3) by (intro update_where_none) (auto simp: none_running_def)
  then have upd: "update_where P f as = bs @ [f a]" using assms(4) as(1) by simp
  have a: "attempts_ok bs" "attempt_ok a" "a_attempt_no a = int (length bs) + 1"
    using assms(1) by (simp_all add: job_ok_def as(1) attempts_ok_snoc)
  have "a_state a = ATT_RUNNING" using as(2) by (simp add: held_by_def)
  from assms(5)[OF a(2) this] a as(3) assms(6-)
  show ?thesis unfolding upd by (simp add: job_ok_def attempts_ok_snoc running_ok_def none_running_def)
qed

lemma last_is_running:
  assumes "job_ok j (atts_of d k) es" and "j_state j = RUNNING"
  shows "last (atts_of d k) \<in> set (atts d)" and "running_attempt_of k (last (atts_of d k))"
proof -
  have "running_ok j (atts_of d k)" using assms(1) by (simp add: job_ok_def)
  from running_ok_cases[OF this assms(2)] obtain bs a
    where as: "atts_of d k = bs @ [a]" "held_by j a" .
  then have "a \<in> set (atts_of d k)" by simp
  then have "a \<in> set (atts d)" "a_job_id a = k" by simp_all
  with as show "last (atts_of d k) \<in> set (atts d)" and "running_attempt_of k (last (atts_of d k))"
    by (simp_all add: running_attempt_of_def held_by_def)
qed

definition names_attempt :: "db \<Rightarrow> int \<Rightarrow> int \<Rightarrow> string \<Rightarrow> int \<Rightarrow> bool" where
  \<comment> \<open>the attempt a worker records is the one it was handed: no other job's, and the current one
     of the job while the worker owns it\<close>
  "names_attempt d k att w p \<longleftrightarrow> (\<forall>a\<in>set (atts d). a_id a = att \<longrightarrow> a_job_id a = k) \<and>
     (case get_job d k of None \<Rightarrow> True
      | Some j \<Rightarrow> owned_by k w p j \<longrightarrow> a_id (last (atts_of d k)) = att)"

lemma record_success_cases:
  assumes "record_success k att w p now d = (r, d')" and "tables_ok d"
  obtains (lost) "r = None" "d' = d" "\<And>j. get_job d k = Some j \<Longrightarrow> \<not> owned_by k w p j"
  | (won) j where "get_job d k = Some j" "owned_by k w p j" "r = Some DONE"
      "d' = add_event k now EV_SUCCEEDED (Some w) None
          (update_attempts (\<lambda>a. a_id a = att \<and> a_state a = ATT_RUNNING)
            (\<lambda>a. a\<lparr>a_state := ATT_SUCCEEDED, a_finished_at := Some now, a_exit_code := Some 0\<rparr>)
            (update_jobs (owned_by k w p) (succeed_row now) d))"
proof (cases "\<exists>j. get_job d k = Some j \<and> owned_by k w p j")
  case True
  then obtain j where j: "get_job d k = Some j" "owned_by k w p j" by blast
  then have "count_where (owned_by k w p) (jobs d) = 1"
    using count_guard[OF assms(2) owned_id[of k w p]] by simp
  with j assms(1) show ?thesis by (intro won) (auto simp: record_success_def)
next
  case False
  then have "count_where (owned_by k w p) (jobs d) = 0"
    using count_guard[OF assms(2) owned_id[of k w p]] by (simp split: option.split)
  with False assms(1) show ?thesis by (intro lost) (auto simp: record_success_def)
qed

lemma db_inv_success:
  assumes inv: "db_inv d" and "record_success k att w p now d = (r, d')"
    and names: "names_attempt d k att w p"
  shows "db_inv d'"
  using assms(2) db_inv_tables[OF inv]
proof (cases rule: record_success_cases)
  case lost
  with inv show ?thesis by simp
next
  case (won j)
  note ok = db_inv_tables[OF inv] and job = db_inv_job[OF inv won(1)]
  have run: "j_state j = RUNNING" using won(2) by (simp add: owned_by_def)
  show ?thesis
  proof (rule db_inv_only_job[OF inv])
    show "only_job k d d'"
      unfolding won(4) using names
      by (intro only_job_intros) (auto simp: tab_simps owned_by_def names_attempt_def)
    show "tables_ok d'"
      unfolding won(4) by (intro tables_ok_add_event tables_ok_intros ok) simp_all
    show "view_ok (get_job d' k) (atts_of d' k) (evs_of d' k)"
      unfolding won(4) using won(1,2)
      apply (simp add: tab_simps)
      apply (rule job_ok_finish[OF job run])
      using job last_is_running(2)[OF job run] names won(1,2)
      apply (auto simp: names_attempt_def running_attempt_of_def attempt_ok_def row_defs
          inv_defs job_ok_def run)
      done
  qed
qed

definition recorded_failure ::
  "job \<Rightarrow> job_state \<Rightarrow> pyfloat \<Rightarrow> attempt_state \<Rightarrow> event_type \<Rightarrow> failure_reason \<Rightarrow> int \<Rightarrow> int \<Rightarrow> string \<Rightarrow> int
     \<Rightarrow> int option \<Rightarrow> string \<Rightarrow> pyfloat \<Rightarrow> db \<Rightarrow> db" where
  \<comment> \<open>what \<open>record_failure\<close> writes once ownership and budget are decided\<close>
  "recorded_failure row new_state next_run_at att_state ev reason k att w p exit_code error now d =
     (let d3 = add_event k now ev (Some w) (Some error)
        (update_attempts (\<lambda>a. a_id a = att \<and> a_state a = ATT_RUNNING)
          (\<lambda>a. a\<lparr>a_state := att_state, a_finished_at := Some now, a_exit_code := exit_code,
            a_error := Some error, a_failure_reason := Some reason\<rparr>)
          (update_jobs (owned_by k w p)
            (fail_row new_state (j_attempts row + 1) next_run_at now exit_code error) d))
      in if new_state = DEAD then add_event k now EV_DEAD (Some w) None d3 else d3)"

lemma record_failure_cases:
  assumes "record_failure k att w p kind x err now reason d = Inr (r, d')" and "tables_ok d"
  obtains (lost) "r = None" "d' = d" "\<And>j. get_job d k = Some j \<Longrightarrow> \<not> owned_by k w p j"
  | (won) j st ev fr new_state next_run_at where "get_job d k = Some j" "owned_by k w p j"
      "map_of FAILURE_EVENTS kind = Some (st, ev)"
      "validate_failure_reason kind x (default_failure_reason kind x reason) = Inr fr"
      "after_failure (failures j + 1 \<le> j_max_retries j) (j_attempts j + 1) now
         = (new_state, next_run_at)"
      "r = Some new_state"
      "d' = recorded_failure j new_state next_run_at st ev fr k att w p x err now d"
proof -
  obtain st ev where kind: "map_of FAILURE_EVENTS kind = Some (st, ev)"
    using assms(1) by (auto simp: record_failure_def split: option.splits)
  obtain fr where fr:
    "validate_failure_reason kind x (default_failure_reason kind x reason) = Inr fr"
    using assms(1) kind by (auto simp: record_failure_def and_then_eq_Inr)
  note find = find_guard[OF assms(2) owned_id[of k w p]]
  show ?thesis
  proof (cases "\<exists>j. get_job d k = Some j \<and> owned_by k w p j")
    case True
    then obtain j where j: "get_job d k = Some j" "owned_by k w p j" by blast
    have fj: "find (owned_by k w p) (jobs d) = Some j" using find j by simp
    have eq: "j_attempts j + 1 - j_crashes j = failures j + 1" by (simp add: failures_def)
    obtain ns nr where after: "after_failure (failures j + 1 \<le> j_max_retries j) (j_attempts j + 1)
        now = (ns, nr)" by force
    have "Inr (r, d') = (Inr (Some ns, recorded_failure j ns nr st ev fr k att w p x err now d)
        :: py_exn + job_state option \<times> db)"
      using assms(1) unfolding record_failure_def kind option.case prod.case fr and_then_simps fj
        Let_def eq after recorded_failure_def by (simp only:)
    then show ?thesis by (intro won[OF j kind fr after]) simp_all
  next
    case False
    then have fj: "find (owned_by k w p) (jobs d) = None"
      using find by (simp split: option.split)
    have "Inr (r, d') = (Inr (None, d) :: py_exn + job_state option \<times> db)"
      using assms(1) unfolding record_failure_def kind option.case prod.case fr and_then_simps fj
      by (simp only:)
    then show ?thesis using False by (intro lost) simp_all
  qed
qed

lemma after_failure_cases:
  assumes "after_failure ok n now = (st, next)"
  shows "ok \<and> st = QUEUED \<and> next = fadd now (backoff_seconds n) \<or> \<not> ok \<and> st = DEAD \<and> next = now"
  using assms by (auto simp: after_failure_def split: if_splits)

lemma failure_attempt_ok:
  assumes "map_of FAILURE_EVENTS kind = Some (st, ev)"
    and "validate_failure_reason kind x r0 = Inr fr" and "attempt_ok a"
  shows "attempt_ok (a\<lparr>a_state := st, a_finished_at := Some now, a_exit_code := x,
      a_error := Some err, a_failure_reason := Some fr\<rparr>)"
    and "st \<noteq> ATT_RUNNING"
  using assms
  by (auto simp: FAILURE_EVENTS_def validate_failure_reason_def attempt_ok_def
      split: if_splits option.splits)

lemma failure_event: "map_of FAILURE_EVENTS kind = Some (st, ev) \<Longrightarrow> life (At RUNNING) ev = At QUEUED"
  by (auto simp: FAILURE_EVENTS_def split: if_splits)

lemma fail_row_ok:
  assumes "j_state j = RUNNING" and "budget_ok j"
    and "after_failure (failures j + 1 \<le> j_max_retries j) (j_attempts j + 1) now = (ns, nr)"
  shows "j_state (fail_row ns (j_attempts j + 1) nr t x err j) = ns"
    and "ns \<noteq> RUNNING" and "lock_ok (fail_row ns (j_attempts j + 1) nr t x err j)"
    and "budget_ok (fail_row ns (j_attempts j + 1) nr t x err j)"
    and "finished_ok (fail_row ns (j_attempts j + 1) nr t x err j)"
  using assms(1,2) after_failure_cases[OF assms(3)]
  by (auto simp: inv_defs fail_row_def unlock_row_def split: option.splits)

lemma db_inv_failure:
  assumes inv: "db_inv d" and "record_failure k att w p kind x err now reason d = Inr (r, d')"
    and names: "names_attempt d k att w p"
  shows "db_inv d'"
  using assms(2) db_inv_tables[OF inv]
proof (cases rule: record_failure_cases)
  case lost
  with inv show ?thesis by simp
next
  case (won j st ev fr ns nr)
  note ok = db_inv_tables[OF inv] and job = db_inv_job[OF inv won(1)]
  have run: "j_state j = RUNNING" using won(2) by (simp add: owned_by_def)
  have budget: "budget_ok j" using job by (simp add: job_ok_def)
  note row = fail_row_ok[OF run budget won(5)] and att = failure_attempt_ok[OF won(3,4)]
  show ?thesis
  proof (rule db_inv_only_job[OF inv])
    show "only_job k d d'"
      unfolding won(7) recorded_failure_def Let_def using names
      by (cases "ns = DEAD") (auto intro!: only_job_intros
          simp: tab_simps owned_by_def names_attempt_def)
    show "tables_ok d'"
      unfolding won(7) recorded_failure_def Let_def
      by (auto intro!: tables_ok_add_event tables_ok_intros ok)
    have "job_ok (fail_row ns (j_attempts j + 1) nr now x err j) (atts_of d' k) (evs_of d' k)"
      if "atts_of d' k = update_where (\<lambda>a. a_id a = att \<and> a_state a = ATT_RUNNING)
          (\<lambda>a. a\<lparr>a_state := st, a_finished_at := Some now, a_exit_code := x,
            a_error := Some err, a_failure_reason := Some fr\<rparr>) (atts_of d k)"
        and "replay (evs_of d' k) = At ns"
      unfolding that(1)
      using last_is_running(2)[OF job run] names won(1,2) row att(1,2) that(2)
      by (intro job_ok_finish[OF job run]) (auto simp: names_attempt_def running_attempt_of_def)
    moreover have "replay (evs_of d' k) = At ns"
      using after_failure_cases[OF won(5)] job run failure_event[OF won(3)]
      by (auto simp: won(7) recorded_failure_def Let_def tab_simps job_ok_def)
    ultimately show "view_ok (get_job d' k) (atts_of d' k) (evs_of d' k)"
      using won(1,2) by (auto simp: won(7) recorded_failure_def Let_def tab_simps)
  qed
qed

section \<open>Reaping\<close>

definition reaped :: "job \<Rightarrow> job_state \<Rightarrow> pyfloat \<Rightarrow> int \<Rightarrow> int \<Rightarrow> pyfloat \<Rightarrow> string \<Rightarrow> db \<Rightarrow> db" where
  \<comment> \<open>what \<open>reap\<close> writes once the re-check and the crash budget are decided\<close>
  "reaped row new_state next_run_at k pid now reaper_id d =
     (let d3 = add_event k now EV_REAPED (Some reaper_id)
          (Some (''dead worker pid '' @ str_of_int pid))
        (update_attempts (running_attempt_of k)
          (abandon now ''worker died'' REASON_WORKER_CRASH ATT_ABANDONED)
          (update_jobs (\<lambda>j. j_id j = k)
            (crash_row new_state (j_attempts row + 1) (j_crashes row + 1) next_run_at now) d))
      in if new_state = DEAD then add_event k now EV_DEAD (Some reaper_id) None d3 else d3)"

lemma reap_cases:
  assumes "reap k pid cutoff now reaper d = (r, d')" and "tables_ok d"
  obtains (lost) "r = None" "d' = d" "\<And>j. get_job d k = Some j \<Longrightarrow> \<not> reapable k pid cutoff j"
  | (won) j new_state next_run_at where "get_job d k = Some j" "reapable k pid cutoff j"
      "after_failure (crashes_within j (j_crashes j + 1)) (j_attempts j + 1) now
         = (new_state, next_run_at)"
      "r = Some new_state" "d' = reaped j new_state next_run_at k pid now reaper d"
proof (cases "\<exists>j. get_job d k = Some j \<and> reapable k pid cutoff j")
  case True
  then obtain j where j: "get_job d k = Some j" "reapable k pid cutoff j" by blast
  have fj: "find (reapable k pid cutoff) (jobs d) = Some j"
    using find_guard[OF assms(2) reapable_id[of k pid cutoff]] j by simp
  obtain ns nr where after: "after_failure (crashes_within j (j_crashes j + 1))
      (j_attempts j + 1) now = (ns, nr)" by force
  have "(r, d') = (Some ns, reaped j ns nr k pid now reaper d)"
    using assms(1) unfolding reap_def fj option.case Let_def
      after[unfolded crashes_within_def] prod.case reaped_def by (simp only:)
  then show ?thesis by (intro won[OF j after]) simp_all
next
  case False
  then have "find (reapable k pid cutoff) (jobs d) = None"
    using find_guard[OF assms(2) reapable_id[of k pid cutoff]] by (simp split: option.split)
  with False assms(1) show ?thesis by (intro lost) (auto simp: reap_def)
qed

lemma crash_row_ok:
  assumes "j_state j = RUNNING" and "budget_ok j"
    and "after_failure (crashes_within j (j_crashes j + 1)) (j_attempts j + 1) now = (ns, nr)"
    and j': "j' = crash_row ns (j_attempts j + 1) (j_crashes j + 1) nr t j"
  shows "j_state j' = ns" and "ns \<noteq> RUNNING" and "lock_ok j'" and "budget_ok j'" and "finished_ok j'"
  using assms(1,2) after_failure_cases[OF assms(3)] unfolding j'
  by (auto simp: inv_defs crash_row_def unlock_row_def split: option.splits)

lemma abandon_ok:
  "attempt_ok a \<Longrightarrow> attempt_ok (abandon t e REASON_WORKER_CRASH ATT_ABANDONED a)"
  "attempt_ok a \<Longrightarrow> attempt_ok (abandon t e REASON_CANCELED ATT_ABANDONED a)"
  "attempt_ok a \<Longrightarrow> attempt_ok (abandon t e REASON_CANCELED ATT_CANCELED a)"
  by (simp_all add: abandon_def attempt_ok_def)

lemma abandon_sels [simp]:
  "a_state (abandon t e fr st a) = st" "a_attempt_no (abandon t e fr st a) = a_attempt_no a"
  by (simp_all add: abandon_def)

lemma running_attempt_of_iff [simp]:
  "running_attempt_of k a \<longleftrightarrow> a_job_id a = k \<and> a_state a = ATT_RUNNING"
  by (simp add: running_attempt_of_def)

lemma db_inv_reap:
  assumes inv: "db_inv d" and "reap k pid cutoff now reaper d = (r, d')"
  shows "db_inv d'"
  using assms(2) db_inv_tables[OF inv]
proof (cases rule: reap_cases)
  case lost
  with inv show ?thesis by simp
next
  case (won j ns nr)
  note ok = db_inv_tables[OF inv] and job = db_inv_job[OF inv won(1)]
  have run: "j_state j = RUNNING" using won(2) by (simp add: reapable_def)
  have budget: "budget_ok j" using job by (simp add: job_ok_def)
  note row = crash_row_ok[OF run budget won(3) refl]
  show ?thesis
  proof (rule db_inv_only_job[OF inv])
    show "only_job k d d'"
      unfolding won(5) reaped_def Let_def
      by (cases "ns = DEAD") (auto intro!: only_job_intros simp: tab_simps)
    show "tables_ok d'"
      unfolding won(5) reaped_def Let_def by (auto intro!: tables_ok_add_event tables_ok_intros ok)
    let ?j' = "crash_row ns (j_attempts j + 1) (j_crashes j + 1) nr now j"
    have "job_ok ?j' (atts_of d' k) (evs_of d' k)"
      if "atts_of d' k = update_where (running_attempt_of k)
          (abandon now ''worker died'' REASON_WORKER_CRASH ATT_ABANDONED) (atts_of d k)"
        and "replay (evs_of d' k) = At ns"
      unfolding that(1) using last_is_running(2)[OF job run] row abandon_ok(1) that(2)
      by (intro job_ok_finish[OF job run]) auto
    moreover have "replay (evs_of d' k) = At ns"
      using after_failure_cases[OF won(3)] job run
      by (auto simp: won(5) reaped_def Let_def tab_simps job_ok_def)
    ultimately show "view_ok (get_job d' k) (atts_of d' k) (evs_of d' k)"
      using won(1) get_job_id[OF won(1)] by (auto simp: won(5) reaped_def Let_def tab_simps)
  qed
qed

section \<open>Heartbeat, retry, cancellation\<close>

lemma update_heartbeat_cases:
  assumes "update_heartbeat k w p now d = (n, d')" and "tables_ok d"
  obtains (lost) "n = 0" "d' = d" "\<And>j. get_job d k = Some j \<Longrightarrow> \<not> owned_by k w p j"
  | (held) j where "get_job d k = Some j" "owned_by k w p j" "n = 1"
      "d' = update_jobs (owned_by k w p) (\<lambda>j. j\<lparr>j_heartbeat_at := Some now\<rparr>) d"
proof (cases "\<exists>j. get_job d k = Some j \<and> owned_by k w p j")
  case True
  then show ?thesis using assms(1) count_guard[OF assms(2) owned_id[of k w p]]
    by (auto simp: update_heartbeat_def intro: held)
next
  case False
  then have n: "count_where (owned_by k w p) (jobs d) = 0"
    using count_guard[OF assms(2) owned_id[of k w p]] by (simp split: option.split)
  then have "update_jobs (owned_by k w p) f d = d" for f
    by (auto simp: update_jobs_def count_where_eq_0 intro!: db.equality update_where_none)
  with n False assms(1) show ?thesis by (intro lost) (auto simp: update_heartbeat_def)
qed

lemma db_inv_heartbeat:
  assumes inv: "db_inv d" and "update_heartbeat k w p now d = (n, d')"
  shows "db_inv d'"
  using assms(2) db_inv_tables[OF inv]
proof (cases rule: update_heartbeat_cases)
  case lost
  with inv show ?thesis by simp
next
  case (held j)
  note job = db_inv_job[OF inv held(1)]
  show ?thesis
  proof (rule db_inv_only_job[OF inv])
    show "only_job k d d'"
      unfolding held(4) by (intro only_job_intros) (auto simp: owned_by_def)
    show "tables_ok d'" unfolding held(4) by (intro tables_ok_intros db_inv_tables[OF inv]) simp
    have "j_state j = RUNNING" using held(2) by (simp add: owned_by_def)
    with job show "view_ok (get_job d' k) (atts_of d' k) (evs_of d' k)"
      using held(1,2) by (simp add: held(4) tab_simps job_ok_def inv_defs held_by_def)
  qed
qed

lemma db_inv_retry:
  assumes inv: "db_inv d" and res: "retry_job k force now d = (r, d')"
  shows "db_inv d'"
proof (cases "d' = d")
  case False
  obtain j where j: "get_job d k = Some j"
    using res False by (auto simp: retry_job_def split: option.splits)
  note ok = db_inv_tables[OF inv] and job = db_inv_job[OF inv j]
  have row: "job_ok (requeue_row now j) as es" if "attempts_ok as" "none_running as"
    "replay es = At QUEUED" for as es
    using that job by (auto simp: job_ok_def inv_defs requeue_row_def unlock_row_def
        split: option.splits)
  show ?thesis
  proof (cases force)
    case True
    let ?f = "abandon now ''force-retried'' REASON_CANCELED ATT_ABANDONED"
    have run: "j_state j = RUNNING"
      and d': "d' = requeue k True now (update_attempts (running_attempt_of k) ?f d)"
      using res False j True by (auto simp: retry_job_def Let_def split: if_splits)
    show ?thesis
    proof (rule db_inv_only_job[OF inv])
      show "only_job k d d'"
        unfolding d' requeue_def by (intro only_job_intros) auto
      show "tables_ok d'"
        unfolding d' requeue_def by (intro tables_ok_add_event tables_ok_intros ok) auto
      show "view_ok (get_job d' k) (atts_of d' k) (evs_of d' k)"
        using j get_job_id[OF j] job run finish_all_running[of ?f k d] abandon_ok(2)
        by (auto simp: d' requeue_def tab_simps job_ok_def[of j] intro!: row attempts_ok_update)
          (auto simp: attempts_ok_def)
    qed
  next
    case False
    have st: "j_state j \<notin> {QUEUED, DONE, RUNNING}" and d': "d' = requeue k False now d"
      using res \<open>d' \<noteq> d\<close> j False by (auto simp: retry_job_def Let_def split: if_splits)
    show ?thesis
    proof (rule db_inv_only_job[OF inv])
      show "only_job k d d'"
        unfolding d' requeue_def by (intro only_job_intros) auto
      show "tables_ok d'"
        unfolding d' requeue_def by (intro tables_ok_add_event tables_ok_intros ok) auto
      have "life (At (j_state j)) EV_RETRIED = At QUEUED" using st by (cases "j_state j") auto
      then show "view_ok (get_job d' k) (atts_of d' k) (evs_of d' k)"
        using j get_job_id[OF j] job st
        by (auto simp: d' requeue_def tab_simps job_ok_def[of j] running_ok_def intro!: row)
    qed
  qed
qed (use inv in simp)

lemma db_inv_cancel:
  assumes inv: "db_inv d" and res: "cancel_job k allow now d = (r, d')"
  shows "db_inv d'"
proof (cases "d' = d")
  case False
  obtain j where j: "get_job d k = Some j"
    using res False by (auto simp: cancel_job_def split: option.splits)
  note ok = db_inv_tables[OF inv] and job = db_inv_job[OF inv j]
  consider "j_state j = QUEUED" | "j_state j = RUNNING"
    using res False j by (auto simp: cancel_job_def split: if_splits)
  then show ?thesis
  proof cases
    case 1
    have d': "d' = add_event k now EV_CANCELED None None (update_jobs (\<lambda>j. j_id j = k)
        (\<lambda>j. j\<lparr>j_state := CANCELED, j_finished_at := Some now\<rparr>) d)"
      using res j 1 by (simp add: cancel_job_def)
    show ?thesis
    proof (rule db_inv_only_job[OF inv])
      show "only_job k d d'" unfolding d' by (intro only_job_intros) auto
      show "tables_ok d'" unfolding d' by (intro tables_ok_add_event tables_ok_intros ok) auto
      show "view_ok (get_job d' k) (atts_of d' k) (evs_of d' k)"
        using j get_job_id[OF j] job 1 by (simp add: d' tab_simps job_ok_def inv_defs)
    qed
  next
    case 2
    let ?f = "abandon now ''canceled'' REASON_CANCELED ATT_CANCELED"
    have d': "d' = add_event k now EV_CANCELED None (Some ''forced (was running)'')
        (update_attempts (running_attempt_of k) ?f
          (update_jobs (\<lambda>j. j_id j = k \<and> j_state j = RUNNING)
            (\<lambda>j. (unlock_row j)\<lparr>j_state := CANCELED, j_finished_at := Some now\<rparr>) d))"
      using res False j 2 by (auto simp: cancel_job_def split: if_splits)
    show ?thesis
    proof (rule db_inv_only_job[OF inv])
      show "only_job k d d'" unfolding d' by (intro only_job_intros) auto
      show "tables_ok d'" unfolding d' by (intro tables_ok_add_event tables_ok_intros ok) auto
      have budget: "budget_ok j" using job by (simp add: job_ok_def)
      have "job_ok ((unlock_row j)\<lparr>j_state := CANCELED, j_finished_at := Some now\<rparr>)
          (update_where (running_attempt_of k) ?f (atts_of d k)) (evs_of d' k)"
        using last_is_running(2)[OF job 2] abandon_ok(3) job 2 budget
        by (intro job_ok_finish[OF job 2])
          (auto simp: inv_defs unlock_row_def d' tab_simps job_ok_def)
      then show "view_ok (get_job d' k) (atts_of d' k) (evs_of d' k)"
        using j get_job_id[OF j] 2 by (simp add: d' tab_simps)
    qed
  qed
qed (use inv in simp)

section \<open>Pruning\<close>

lemma prune_one_effect:
  assumes "prune_one states cutoff k (n, d) = (n', d')"
  shows "tables_ok d \<Longrightarrow> tables_ok d'" and "only_job k d d'"
    and "d' = d \<or> get_job d' k = None \<and> atts_of d' k = [] \<and> evs_of d' k = []"
proof -
  obtain x y z where n: "n = (x, y, z)" by (cases n) auto
  let ?gone = "delete_jobs (\<lambda>j. j_id j = k) (delete_events (\<lambda>e. e_job_id e = k)
      (delete_attempts (\<lambda>a. a_job_id a = k) d))"
  have d': "d' = d \<or> d' = ?gone"
    using assms by (auto simp: prune_one_def n Let_def split: option.splits if_splits)
  then show "tables_ok d \<Longrightarrow> tables_ok d'" by (auto intro: tables_ok_deletes)
  show "only_job k d d'" using d' by (auto simp: only_job_def tab_simps)
  show "d' = d \<or> get_job d' k = None \<and> atts_of d' k = [] \<and> evs_of d' k = []"
    using d' by (auto simp: tab_simps)
qed

lemma db_inv_prune_one:
  assumes "db_inv d" and "prune_one states cutoff k (n, d) = (n', d')"
  shows "db_inv d'"
proof (rule db_inv_only_job[OF assms(1)])
  show "only_job k d d'" and "tables_ok d'"
    using prune_one_effect[OF assms(2)] db_inv_tables[OF assms(1)] by auto
  show "view_ok (get_job d' k) (atts_of d' k) (evs_of d' k)"
    using prune_one_effect(3)[OF assms(2)] db_inv_view[OF assms(1), of k] by auto
qed

lemma db_inv_prune:
  assumes "db_inv d" and "prune_delete ids states cutoff d = (n, d')"
  shows "db_inv d'"
proof -
  have "db_inv (snd (fold (prune_one states cutoff) ids (m, d)))" if "db_inv d" for m d
    using that
  proof (induction ids arbitrary: m d)
    case (Cons k ids)
    then show ?case using db_inv_prune_one[OF Cons.prems, of states cutoff k m]
      by (cases "prune_one states cutoff k (m, d)") auto
  qed simp
  from this[OF assms(1), of "(0, 0, 0)"] assms(2) show ?thesis by (simp add: prune_delete_def)
qed

end
