(* ===== verification/StoreRead.thy ===== *)
theory StoreRead
  imports Store "HOL-Library.AList"
begin

text \<open>
  The read operations of \<open>spoolctl/store.py\<close>: listings, counts, the status page, a job's attempts and
  events, and the global event ledger with its cursor. Each is one \<open>SELECT\<close>, a function of the
  database at the moment it runs.

  \<open>cursor_page\<close> is the contract of a paged read (a page is a nonempty prefix of what lies after the
  cursor, whenever anything does); its client lemma says that a reader who moves its cursor to the
  last id of each page gets the ledger in order, without gaps or repeats, whatever is appended
  between its reads. \<open>list_events\<close> interprets it at every page size.
\<close>

section \<open>Jobs\<close>

definition sql_limit :: "int \<Rightarrow> 'a list \<Rightarrow> 'a list" where
  \<comment> \<open>\<open>LIMIT n\<close>: a negative bound is no bound\<close>
  "sql_limit n xs = (if n < 0 then xs else take (nat n) xs)"

definition list_jobs ::
  "job_state list option \<Rightarrow> int \<Rightarrow> string option \<Rightarrow> int option \<Rightarrow> db \<Rightarrow> job list" where
  "list_jobs states limit queue priority_min d =
     (let state_ok = (\<lambda>j. case states of None \<Rightarrow> True | Some ss \<Rightarrow> ss = [] \<or> j_state j \<in> set ss);
          queue_ok = (\<lambda>j. case queue of None \<Rightarrow> True | Some q \<Rightarrow> j_queue j = q);
          prio_ok = (\<lambda>j. case priority_min of None \<Rightarrow> True | Some p \<Rightarrow> p \<le> j_priority j);
          found = sort_key (\<lambda>j. - j_id j)
            (filter (\<lambda>j. state_ok j \<and> queue_ok j \<and> prio_ok j) (jobs d))
      in if limit \<noteq> 0 then sql_limit limit found else found)"

definition job_id_bounds :: "db \<Rightarrow> int option \<times> int option" where
  "job_id_bounds d = (case map j_id (jobs d) of [] \<Rightarrow> (None, None)
     | i # is \<Rightarrow> (Some (fold min is i), Some (fold max is i)))"

definition holds_drain :: "string \<Rightarrow> pyfloat \<Rightarrow> job \<Rightarrow> bool" where
  "holds_drain lane now j \<longleftrightarrow> j_queue j = lane \<and> (j_state j = RUNNING \<or>
     j_state j = QUEUED \<and> (j_next_run_at j \<le> now \<or> j_attempts j > 0))"

definition unsettled_count :: "string \<Rightarrow> pyfloat \<Rightarrow> db \<Rightarrow> int" where
  "unsettled_count lane now d = count_where (holds_drain lane now) (jobs d)"

section \<open>Counts\<close>

type_synonym counts = "job_state \<Rightarrow> int"  \<comment> \<open>zero-filled: a value for every state\<close>

definition state_counts :: "db \<Rightarrow> counts" where
  "state_counts d = fold (\<lambda>s c. c(s := count_where (\<lambda>j. j_state j = s) (jobs d)))
     (remdups (map j_state (jobs d))) (\<lambda>_. 0)"

record queue_status =
  qs_counts :: counts
  qs_scheduled :: int

record status_row =
  sr_queue :: string
  sr_state :: job_state
  sr_n :: int
  sr_scheduled :: int

definition status_rows :: "pyfloat \<Rightarrow> db \<Rightarrow> status_row list" where
  \<comment> \<open>\<open>GROUP BY queue, state ORDER BY queue, state\<close>\<close>
  "status_rows now d = map (\<lambda>(q, s).
       let grp = filter (\<lambda>j. j_queue j = q \<and> j_state j = s) (jobs d)
       in \<lparr>sr_queue = q, sr_state = s, sr_n = int (length grp),
           sr_scheduled = sum_list (map (\<lambda>j.
             if j_state j = QUEUED \<and> now < j_next_run_at j then 1 else 0) grp)\<rparr>)
     (sort (remdups (map (\<lambda>j. (j_queue j, j_state j)) (jobs d))))"

type_synonym status_acc = "counts \<times> int \<times> (string \<times> queue_status) list"

definition status_step :: "status_row \<Rightarrow> status_acc \<Rightarrow> status_acc" where
  \<comment> \<open>\<open>queues\<close> is a dictionary, in the order the queues were met\<close>
  "status_step row = (\<lambda>(counts, scheduled, queues).
     let queue = sr_queue row; n = sr_n row; state = sr_state row;
         queues = (if map_of queues queue = None
           then queues @ [(queue, \<lparr>qs_counts = \<lambda>_. 0, qs_scheduled = 0\<rparr>)] else queues);
         qs = the (map_of queues queue);
         qs = qs\<lparr>qs_counts := (qs_counts qs)(state := n),
           qs_scheduled := qs_scheduled qs + sr_scheduled row\<rparr>
     in (counts(state := counts state + n), scheduled + sr_scheduled row, AList.update queue qs queues))"

definition status_counts :: "pyfloat \<Rightarrow> db \<Rightarrow> status_acc" where
  "status_counts now d = fold status_step (status_rows now d) (\<lambda>_. 0, 0, [])"

section \<open>Dead letters\<close>

record dead_letter =
  dl_attempts :: int
  dl_command :: string
  dl_crashes :: int
  dl_finished_at :: "pyfloat option"
  dl_id :: int
  dl_last_error :: "string option"
  dl_stderr_path :: "string option"
  dl_stdout_path :: "string option"

definition dead_rows :: "db \<Rightarrow> job \<Rightarrow> (job \<times> attempt option) list" where
  \<comment> \<open>\<open>LEFT JOIN\<close> with the attempt of the highest number\<close>
  "dead_rows d j = (let as = atts_of d (j_id j);
       top = filter (\<lambda>a. \<forall>b\<in>set as. a_attempt_no b \<le> a_attempt_no a) as
     in if top = [] then [(j, None)] else map (\<lambda>a. (j, Some a)) top)"

definition shorten_command :: "string list \<Rightarrow> string" where
  "shorten_command argv = (let command = join_with '' '' argv
     in if length command > 80 then take 77 command @ ''...'' else command)"

definition recent_dead :: "int \<Rightarrow> db \<Rightarrow> dead_letter list" where
  "recent_dead limit d = map (\<lambda>(j, a).
       \<lparr>dl_attempts = j_attempts j, dl_command = shorten_command (j_argv j),
        dl_crashes = j_crashes j, dl_finished_at = j_finished_at j, dl_id = j_id j,
        dl_last_error = j_last_error j, dl_stderr_path = map_option a_stderr_path a,
        dl_stdout_path = map_option a_stdout_path a\<rparr>)
     (sql_limit limit (rev (sort_key (\<lambda>(j, a). (j_finished_at j, j_id j))
       (concat (map (dead_rows d) (filter (\<lambda>j. j_state j = DEAD) (jobs d)))))))"

section \<open>Attempts and events\<close>

definition get_attempts :: "int \<Rightarrow> db \<Rightarrow> attempt list" where
  "get_attempts job_id d = sort_key a_attempt_no (atts_of d job_id)"

definition get_events :: "int \<Rightarrow> db \<Rightarrow> event list" where
  "get_events job_id d = sort_key e_id (evs_of d job_id)"

definition event_high_water :: "db \<Rightarrow> int" where
  "event_high_water d = (case map e_id (evs d) of [] \<Rightarrow> 0 | i # is \<Rightarrow> fold max is i)"

definition in_stream :: "int option \<Rightarrow> event \<Rightarrow> bool" where
  "in_stream job_id e = (case job_id of None \<Rightarrow> True | Some i \<Rightarrow> e_job_id e = i)"

definition first_event_id :: "int option \<Rightarrow> db \<Rightarrow> int option" where
  "first_event_id job_id d = (case map e_id (filter (in_stream job_id) (evs d)) of
     [] \<Rightarrow> None | i # is \<Rightarrow> Some (fold min is i))"

definition list_events :: "int \<Rightarrow> int option \<Rightarrow> int \<Rightarrow> db \<Rightarrow> event list" where
  "list_events since_id job_id limit d =
     (let found = sort_key e_id (filter (\<lambda>e. since_id < e_id e \<and> in_stream job_id e) (evs d))
      in if limit > 0 then sql_limit limit found else found)"

section \<open>The event ledger, read through its cursor\<close>

lemma list_events_eq:
  assumes "tables_ok d"
  shows "list_events since_id job_id limit d =
     (let found = filter (\<lambda>e. since_id < e_id e \<and> in_stream job_id e) (evs d)
      in if limit > 0 then take (nat limit) found else found)"
proof -
  have "ascending e_id (filter (\<lambda>e. since_id < e_id e \<and> in_stream job_id e) (evs d))"
    using assms by (auto simp: tables_ok_def ids_ok_def intro: ascending_filter)
  then show ?thesis by (simp add: list_events_def ascending_sort_key sql_limit_def Let_def)
qed

lemma event_high_water_max: "e \<in> set (evs d) \<Longrightarrow> e_id e \<le> event_high_water d"
  by (cases "evs d") (auto simp: event_high_water_def Max.set_eq_fold[symmetric])

lemma event_high_water_in:
  "evs d \<noteq> [] \<Longrightarrow> \<exists>e\<in>set (evs d). e_id e = event_high_water d"
proof (cases "evs d")
  case (Cons a as)
  have "Max (set (e_id a # map e_id as)) \<in> set (e_id a # map e_id as)" by (rule Max_in) auto
  then have "event_high_water d \<in> e_id ` set (evs d)"
    unfolding event_high_water_def Cons by (simp add: Max.set_eq_fold[symmetric])
  then show ?thesis by force
qed simp

fun poll :: "(int \<Rightarrow> 'd \<Rightarrow> 'r list) \<Rightarrow> ('r \<Rightarrow> int) \<Rightarrow> 'd list \<Rightarrow> int \<Rightarrow> 'r list \<times> int" where
  \<comment> \<open>read a page of each database in turn, the cursor moving to the last id of each page\<close>
  "poll page rid [] s = ([], s)"
| "poll page rid (d # ds) s = (let p = page s d;
       (rest, c) = poll page rid ds (if p = [] then s else rid (last p)) in (p @ rest, c))"

locale cursor_page =
  fixes ledger :: "'d \<Rightarrow> 'r list"
    and rid :: "'r \<Rightarrow> int"
    and ok :: "'d \<Rightarrow> bool"
    and page :: "int \<Rightarrow> 'd \<Rightarrow> 'r list"
  assumes ascending: "ok d \<Longrightarrow> ascending rid (ledger d)"
    and prefix: "ok d \<Longrightarrow> \<exists>k. page s d = take (Suc k) (filter (\<lambda>r. s < rid r) (ledger d))"
begin

lemma after_last:
  assumes "ok d" and "page s d = p" and "p \<noteq> []"
  shows "filter (\<lambda>r. s < rid r) (ledger d) = p @ filter (\<lambda>r. rid (last p) < rid r) (ledger d)"
    and "s < rid (last p)"
proof -
  let ?F = "filter (\<lambda>r. s < rid r) (ledger d)"
  obtain k where p: "p = take (Suc k) ?F" using prefix[OF assms(1)] assms(2) by blast
  have split: "?F = p @ drop (Suc k) ?F" by (simp add: p)
  have "last p \<in> set ?F" using assms(3) split by (metis Un_iff last_in_set set_append)
  then show s: "s < rid (last p)" by simp
  have asc: "ascending rid (p @ drop (Suc k) ?F)"
    using ascending_filter[OF ascending[OF assms(1)]] split by metis
  obtain b where b: "p = b @ [last p]" using assms(3) by (metis append_butlast_last_id)
  have lo: "rid r \<le> rid (last p)" if "r \<in> set p" for r
  proof -
    have "ascending rid (b @ [last p])"
      using asc b by (metis ascending_def map_append sorted_wrt_append)
    with that show ?thesis by (subst (asm) b) (auto simp: ascending_def sorted_wrt_append)
  qed
  have hi: "rid (last p) < rid r" if "r \<in> set (drop (Suc k) ?F)" for r
    using asc that assms(3) by (auto simp: ascending_def sorted_wrt_append)
  have "filter (\<lambda>r. rid (last p) < rid r) (ledger d) = filter (\<lambda>r. rid (last p) < rid r) ?F"
    using s by (auto intro!: filter_cong)
  also have "\<dots> = filter (\<lambda>r. rid (last p) < rid r) (p @ drop (Suc k) ?F)" using split by simp
  also have "\<dots> = drop (Suc k) ?F"
    using lo hi by (fastforce simp: filter_empty_conv intro!: filter_True)
  finally show "?F = p @ filter (\<lambda>r. rid (last p) < rid r) (ledger d)" using split by simp
qed

lemma after_page:
  assumes "ok d" and "page s d = p" and "c = (if p = [] then s else rid (last p))"
  shows "s \<le> c" and "filter (\<lambda>r. s < rid r \<and> rid r \<le> c) (ledger d) = p"
proof -
  have "s \<le> c \<and> filter (\<lambda>r. s < rid r \<and> rid r \<le> c) (ledger d) = p"
  proof (cases "p = []")
    case True
    then show ?thesis using assms(3) by (simp add: filter_empty_conv)
  next
    case False
    note split = after_last[OF assms(1,2) False]
    have p: "set p \<subseteq> set (filter (\<lambda>r. s < rid r) (ledger d))" unfolding split(1) by simp
    obtain b where b: "p = b @ [last p]" using False by (metis append_butlast_last_id)
    have "ascending rid (p @ filter (\<lambda>r. rid (last p) < rid r) (ledger d))"
      using ascending_filter[OF ascending[OF assms(1)]] split(1) by metis
    then have "ascending rid (b @ [last p])" using b by (metis ascending_def map_append sorted_wrt_append)
    then have le: "rid r \<le> rid (last p)" if "r \<in> set p" for r
      using that by (subst (asm) b) (auto simp: ascending_def sorted_wrt_append)
    have "filter (\<lambda>r. s < rid r \<and> rid r \<le> c) (ledger d) =
        filter (\<lambda>r. rid r \<le> c) (filter (\<lambda>r. s < rid r) (ledger d))"
      by (simp add: conj_commute)
    also have "\<dots> = filter (\<lambda>r. rid r \<le> c) p"
      unfolding split(1) using assms(3) False by (simp add: filter_empty_conv)
    also have "\<dots> = p" using assms(3) False le by (intro filter_True) simp
    finally show ?thesis using split(2) assms(3) False by simp
  qed
  then show "s \<le> c" and "filter (\<lambda>r. s < rid r \<and> rid r \<le> c) (ledger d) = p" by simp_all
qed

lemma grown:
  assumes "ok d'" and "ledger d' = ledger d @ es" and "ok d" and "page s d = p"
    and "c = (if p = [] then s else rid (last p))"
  shows "filter (\<lambda>r. s < rid r \<and> rid r \<le> c) (ledger d') = p"
proof (cases "p = []")
  case True
  with assms(5) show ?thesis by (simp add: filter_empty_conv)
next
  case False
  have "last p \<in> set (ledger d)"
    using after_page(2)[OF assms(3-5)] False by (metis filter_is_subset last_in_set subsetD)
  then have "c < rid r" if "r \<in> set es" for r
    using ascending[OF assms(1)] that False assms(5)
    by (auto simp: assms(2) ascending_def sorted_wrt_append)
  then have "filter (\<lambda>r. s < rid r \<and> rid r \<le> c) es = []" by (fastforce simp: filter_empty_conv)
  then show ?thesis using after_page(2)[OF assms(3-5)] by (simp add: assms(2))
qed

text \<open>Whatever is appended between the reads, what was delivered is all that lies between the cursors.\<close>

lemma poll_contiguous:
  assumes "poll page rid ds s = (out, c)" and "ds \<noteq> []" and "\<forall>d\<in>set ds. ok d"
    and "sorted_wrt (\<lambda>d d'. \<exists>es. ledger d' = ledger d @ es) ds"
  shows "s \<le> c \<and> out = filter (\<lambda>r. s < rid r \<and> rid r \<le> c) (ledger (last ds))"
  using assms
proof (induction ds arbitrary: s out c)
  case (Cons d ds)
  define p where "p = page s d"
  define s' where "s' = (if p = [] then s else rid (last p))"
  obtain rest where rest: "poll page rid ds s' = (rest, c)" and out: "out = p @ rest"
    using Cons.prems(1) unfolding s'_def p_def by (auto simp: Let_def split: prod.splits)
  have d: "ok d" using Cons.prems(3) by simp
  note pg = after_page[OF d p_def[symmetric] s'_def]
  show ?case
  proof (cases "ds = []")
    case True
    with rest out pg show ?thesis by simp
  next
    case False
    then have IH: "s' \<le> c" "rest = filter (\<lambda>r. s' < rid r \<and> rid r \<le> c) (ledger (last ds))"
      using Cons.IH[OF rest False] Cons.prems(3,4) by auto
    have "last ds \<in> set ds" using False by simp
    then obtain es where es: "ledger (last ds) = ledger d @ es" and ok: "ok (last ds)"
      using Cons.prems(3,4) by auto
    have asc: "ascending rid (ledger (last ds))" by (rule ascending[OF ok])
    have split: "filter (\<lambda>r. s < rid r \<and> rid r \<le> c) xs =
        filter (\<lambda>r. s < rid r \<and> rid r \<le> s') xs @ filter (\<lambda>r. s' < rid r \<and> rid r \<le> c) xs"
      if "ascending rid xs" for xs
      using that pg(1) IH(1)
    proof (induction xs)
      case (Cons x xs)
      have xs: "ascending rid xs" "\<forall>y\<in>set xs. rid x < rid y"
        using Cons.prems(1) by (auto simp: ascending_def)
      show ?case
      proof (cases "rid x \<le> s'")
        case False
        then have "filter (\<lambda>r. s < rid r \<and> rid r \<le> s') xs = []"
          using xs(2) by (fastforce simp: filter_empty_conv)
        with False Cons.IH[OF xs(1)] Cons.prems show ?thesis by auto
      qed (use Cons.IH[OF xs(1)] Cons.prems in auto)
    qed simp
    have "filter (\<lambda>r. s < rid r \<and> rid r \<le> s') (ledger (last ds)) = p"
      by (rule grown[OF ok es d p_def[symmetric] s'_def])
    with split[OF asc] IH pg(1) False out show ?thesis by simp
  qed
qed simp

lemma caught_up: "ok d \<Longrightarrow> page s d = [] \<Longrightarrow> filter (\<lambda>r. s < rid r) (ledger d) = []"
  using prefix[of d s] by (cases "filter (\<lambda>r. s < rid r) (ledger d)") auto

end

text \<open>\<open>list_events\<close> at any page size (0 is unlimited), over the whole ledger or one job's stream.\<close>

interpretation ep: cursor_page
  "\<lambda>d. filter (in_stream job_id) (evs d)" e_id tables_ok
  "\<lambda>s d. list_events s job_id (int limit) d" for job_id limit
proof unfold_locales
  fix d s
  assume ok: "tables_ok d"
  then show "ascending e_id (filter (in_stream job_id) (evs d))"
    by (auto simp: tables_ok_def ids_ok_def intro: ascending_filter)
  let ?F = "filter (\<lambda>r. s < e_id r) (filter (in_stream job_id) (evs d))"
  have found: "?F = filter (\<lambda>e. s < e_id e \<and> in_stream job_id e) (evs d)"
    by (simp add: conj_commute)
  show "\<exists>n. list_events s job_id (int limit) d = take (Suc n) ?F"
  proof (cases limit)
    case 0
    then have "list_events s job_id (int limit) d = take (Suc (length ?F)) ?F"
      unfolding list_events_eq[OF ok] Let_def found by simp
    then show ?thesis ..
  next
    case (Suc n)
    then have "list_events s job_id (int limit) d = take (Suc n) ?F"
      unfolding list_events_eq[OF ok] Let_def found
      by (simp only: nat_int of_nat_0_less_iff zero_less_Suc if_True)
    then show ?thesis ..
  qed
qed

section \<open>Counting\<close>

lemma count_where_split:
  assumes "finite K" and "\<And>x. x \<in> set xs \<Longrightarrow> P x \<Longrightarrow> key x \<in> K"
  shows "(\<Sum>k\<in>K. count_where (\<lambda>x. P x \<and> key x = k) xs) = count_where P xs"
  using assms(2)
proof (induction xs)
  case (Cons a xs)
  have "(\<Sum>k\<in>K. if P a \<and> key a = k then 1 else 0) = (if P a then 1 else (0::int))"
    using Cons.prems[of a] assms(1) by (auto simp: sum.delta)
  with Cons show ?case by (simp add: sum.distrib)
qed simp

lemma sum_list_flags: "sum_list (map (\<lambda>x. if P x then 1 else 0) (filter Q xs)) =
    count_where (\<lambda>x. Q x \<and> P x) xs"
  by (induction xs) auto

abbreviation grp_key :: "job \<Rightarrow> string \<times> job_state" where
  "grp_key j \<equiv> (j_queue j, j_state j)"

abbreviation is_scheduled :: "pyfloat \<Rightarrow> job \<Rightarrow> bool" where
  "is_scheduled now j \<equiv> j_state j = QUEUED \<and> now < j_next_run_at j"

lemma status_rows_alt:
  "status_rows now d = map (\<lambda>k.
     \<lparr>sr_queue = fst k, sr_state = snd k, sr_n = count_where (\<lambda>j. grp_key j = k) (jobs d),
      sr_scheduled = count_where (\<lambda>j. is_scheduled now j \<and> grp_key j = k) (jobs d)\<rparr>)
     (sort (remdups (map grp_key (jobs d))))"
  unfolding status_rows_def Let_def
  by (intro map_cong refl)
    (auto simp: sum_list_flags count_where_def[of "\<lambda>j. grp_key j = _"] intro!: count_where_cong
      arg_cong[of _ _ length] filter_cong)

definition queues_as_map :: "status_acc \<Rightarrow> counts \<times> int \<times> (string \<rightharpoonup> queue_status)" where
  "queues_as_map acc = (case acc of (counts, scheduled, queues) \<Rightarrow> (counts, scheduled, map_of queues))"

lemma status_step_map:
  "queues_as_map (status_step row acc) = (case queues_as_map acc of (counts, scheduled, queues) \<Rightarrow>
     let qs = (case queues (sr_queue row) of None \<Rightarrow> \<lparr>qs_counts = \<lambda>_. 0, qs_scheduled = 0\<rparr> | Some qs \<Rightarrow> qs)
     in (counts(sr_state row := counts (sr_state row) + sr_n row), scheduled + sr_scheduled row,
         queues(sr_queue row \<mapsto> qs\<lparr>qs_counts := (qs_counts qs)(sr_state row := sr_n row),
           qs_scheduled := qs_scheduled qs + sr_scheduled row\<rparr>)))"
  by (cases acc) (auto simp: queues_as_map_def status_step_def Let_def update_conv' fun_eq_iff map_of_append
      map_add_def split: option.splits)

lemma status_fold:
  fixes n sch :: "string \<times> job_state \<Rightarrow> int"
  assumes "distinct ks"
  shows "queues_as_map (fold status_step (map (\<lambda>k. \<lparr>sr_queue = fst k, sr_state = snd k, sr_n = n k,
       sr_scheduled = sch k\<rparr>) ks) (\<lambda>_. 0, 0, [])) =
     (\<lambda>s. \<Sum>k\<in>{k \<in> set ks. snd k = s}. n k, \<Sum>k\<in>set ks. sch k,
      \<lambda>q. if q \<in> fst ` set ks then Some
         \<lparr>qs_counts = \<lambda>s. if (q, s) \<in> set ks then n (q, s) else 0,
          qs_scheduled = \<Sum>k\<in>{k \<in> set ks. fst k = q}. sch k\<rparr> else None)"
  using assms
proof (induction ks rule: rev_induct)
  case (snoc k ks)
  obtain q0 s0 where k: "k = (q0, s0)" by force
  have set_s: "{k' \<in> set (ks @ [k]). snd k' = s} =
      (if s = s0 then insert k {k' \<in> set ks. snd k' = s} else {k' \<in> set ks. snd k' = s})" for s
    by (auto simp: k)
  have set_q: "{k' \<in> set (ks @ [k]). fst k' = q} =
      (if q = q0 then insert k {k' \<in> set ks. fst k' = q} else {k' \<in> set ks. fst k' = q})" for q
    by (auto simp: k)
  have new: "k \<notin> set ks" using snoc.prems by simp
  have empty: "{k' \<in> set ks. fst k' = q0} = {}" if "q0 \<notin> fst ` set ks"
    using that by (auto simp: image_iff)
  have sums: "(\<Sum>k\<in>{k' \<in> set (ks @ [k]). snd k' = s}. n k) =
      (\<Sum>k\<in>{k \<in> set ks. snd k = s}. n k) + (if s = s0 then n k else 0)"
    "(\<Sum>k\<in>{k' \<in> set (ks @ [k]). fst k' = q}. sch k) =
      (\<Sum>k\<in>{k \<in> set ks. fst k = q}. sch k) + (if q = q0 then sch k else 0)"
    "(\<Sum>k\<in>set (ks @ [k]). sch k) = (\<Sum>k\<in>set ks. sch k) + sch k" for s q
    unfolding set_s set_q using new by simp_all
  note IH = snoc.IH[OF distinct_append[THEN iffD1, OF snoc.prems, THEN conjunct1]]
  show ?case
    unfolding map_append fold_append comp_def list.map fold_simps status_step_map IH sums
    by (auto simp: Let_def k fun_eq_iff empty image_iff split: if_splits)
qed (simp add: queues_as_map_def fun_eq_iff)

lemma status_counts_eq:
  "queues_as_map (status_counts now d) =
     (\<lambda>s. count_where (\<lambda>j. j_state j = s) (jobs d), count_where (is_scheduled now) (jobs d),
      \<lambda>q. if q \<in> j_queue ` set (jobs d) then Some
         \<lparr>qs_counts = \<lambda>s. count_where (\<lambda>j. j_queue j = q \<and> j_state j = s) (jobs d),
          qs_scheduled = count_where (\<lambda>j. j_queue j = q \<and> is_scheduled now j) (jobs d)\<rparr>
        else None)" (is "_ = (?C, ?S, ?Q)")
proof -
  let ?ks = "sort (remdups (map grp_key (jobs d)))"
  have ks: "set ?ks = grp_key ` set (jobs d)" "distinct ?ks" by simp_all
  have by_state: "(\<Sum>k\<in>{k \<in> set ?ks. snd k = s}. count_where (\<lambda>j. grp_key j = k) (jobs d)) =
      count_where (\<lambda>j. j_state j = s) (jobs d)" for s
  proof -
    have "(\<Sum>k\<in>{k \<in> set ?ks. snd k = s}. count_where (\<lambda>j. grp_key j = k) (jobs d)) =
        (\<Sum>k\<in>{k \<in> set ?ks. snd k = s}. count_where (\<lambda>j. j_state j = s \<and> grp_key j = k) (jobs d))"
      by (auto intro!: sum.cong count_where_cong)
    also have "\<dots> = count_where (\<lambda>j. j_state j = s) (jobs d)"
      by (rule count_where_split) auto
    finally show ?thesis .
  qed
  have by_queue: "(\<Sum>k\<in>{k \<in> set ?ks. fst k = q}.
        count_where (\<lambda>j. is_scheduled now j \<and> grp_key j = k) (jobs d)) =
      count_where (\<lambda>j. j_queue j = q \<and> is_scheduled now j) (jobs d)" for q
  proof -
    have "(\<Sum>k\<in>{k \<in> set ?ks. fst k = q}.
        count_where (\<lambda>j. is_scheduled now j \<and> grp_key j = k) (jobs d)) =
      (\<Sum>k\<in>{k \<in> set ?ks. fst k = q}.
        count_where (\<lambda>j. (j_queue j = q \<and> is_scheduled now j) \<and> grp_key j = k) (jobs d))"
      by (auto intro!: sum.cong count_where_cong)
    also have "\<dots> = count_where (\<lambda>j. j_queue j = q \<and> is_scheduled now j) (jobs d)"
      by (rule count_where_split) auto
    finally show ?thesis .
  qed
  have total: "(\<Sum>k\<in>set ?ks. count_where (\<lambda>j. is_scheduled now j \<and> grp_key j = k) (jobs d)) =
      count_where (is_scheduled now) (jobs d)"
    by (rule count_where_split) auto
  have one: "(if (q, s) \<in> set ?ks then count_where (\<lambda>j. grp_key j = (q, s)) (jobs d) else 0) =
      count_where (\<lambda>j. j_queue j = q \<and> j_state j = s) (jobs d)" for q s
    by (auto simp: count_where_eq_0 intro!: count_where_cong)
  have "fst ` set ?ks = j_queue ` set (jobs d)" by (force simp: ks)
  then show ?thesis
    unfolding status_counts_def status_rows_alt status_fold[OF ks(2)] by_state by_queue total one
    by simp
qed

end
