(* ===== verification/StoreRuns.thy ===== *)
theory StoreRuns
  imports StoreInv StoreRead
begin

text \<open>
  The store as a machine: one constructor of \<open>store_op\<close> per write operation, \<open>apply_op\<close> the
  transaction it runs, and the states reached from an empty database by any sequence of them. A call
  that raises leaves the database as it was. The conditions on a call (\<open>op_ok\<close>) are what its callers
  keep: a worker recording a result names the attempt it was handed, and a prune is given terminal
  states only (\<open>_parse_prune_states\<close> admits no other).
\<close>

datatype store_op =
  Op_add submission pyfloat
| Op_claim string int pyfloat string string "int option"
| Op_heartbeat int string int pyfloat
| Op_success int int string int pyfloat
| Op_failure int int string int string "int option" string pyfloat "string option"
| Op_reap int int pyfloat pyfloat string
| Op_retry int bool pyfloat
| Op_cancel int bool pyfloat
| Op_prune "int list" "job_state list" pyfloat

definition committed :: "db \<Rightarrow> py_exn + 'a \<times> db \<Rightarrow> db" where
  "committed d r = (case r of Inl _ \<Rightarrow> d | Inr (_, d') \<Rightarrow> d')"

fun apply_op :: "store_op \<Rightarrow> db \<Rightarrow> db" where
  "apply_op (Op_add s now) d = committed d (add_job_checked s now d)"
| "apply_op (Op_claim w p now out lane slots) d = snd (claim_next w p now out lane slots d)"
| "apply_op (Op_heartbeat k w p now) d = snd (update_heartbeat k w p now d)"
| "apply_op (Op_success k att w p now) d = snd (record_success k att w p now d)"
| "apply_op (Op_failure k att w p kind x err now reason) d =
     committed d (record_failure k att w p kind x err now reason d)"
| "apply_op (Op_reap k pid cutoff now reaper) d = snd (reap k pid cutoff now reaper d)"
| "apply_op (Op_retry k force now) d = snd (retry_job k force now d)"
| "apply_op (Op_cancel k allow now) d = snd (cancel_job k allow now d)"
| "apply_op (Op_prune ids states cutoff) d = snd (prune_delete ids states cutoff d)"

fun op_ok :: "db \<Rightarrow> store_op \<Rightarrow> bool" where
  "op_ok d (Op_success k att w p now) = names_attempt d k att w p"
| "op_ok d (Op_failure k att w p kind x err now reason) = names_attempt d k att w p"
| "op_ok d (Op_prune ids states cutoff) = (set states \<subseteq> set PRUNABLE_STATES)"
| "op_ok d _ = True"

definition store_init :: "db \<Rightarrow> bool" where
  "store_init d \<longleftrightarrow> d = empty_db"

definition store_step :: "db \<Rightarrow> db \<Rightarrow> bool" where
  "store_step d d' \<longleftrightarrow> (\<exists>x. op_ok d x \<and> d' = apply_op x d)"

abbreviation reachable :: "db \<Rightarrow> bool" where
  "reachable \<equiv> reach store_init store_step"

lemma committed_cases: "committed d r = d \<or> (\<exists>v. r = Inr (v, committed d r))"
  by (auto simp: committed_def split: sum.split)

lemma db_inv_apply:
  assumes "db_inv d" and "op_ok d x"
  shows "db_inv (apply_op x d)"
proof (cases x)
  case (Op_add s now)
  then show ?thesis
    using committed_cases[of d "add_job_checked s now d"] assms(1) by (auto dest: db_inv_add)
next
  case (Op_failure k att w p kind e err now reason)
  then show ?thesis
    using committed_cases[of d "record_failure k att w p kind e err now reason d"] assms
    by (auto dest: db_inv_failure)
qed (use assms in \<open>auto intro: db_inv_claim[OF _ prod.collapse[symmetric]]
    db_inv_heartbeat[OF _ prod.collapse[symmetric]] db_inv_success[OF _ prod.collapse[symmetric]]
    db_inv_reap[OF _ prod.collapse[symmetric]] db_inv_retry[OF _ prod.collapse[symmetric]]
    db_inv_cancel[OF _ prod.collapse[symmetric]] db_inv_prune[OF _ prod.collapse[symmetric]]\<close>)

interpretation sm: machine store_init store_step db_inv
  by unfold_locales (auto simp: store_init_def store_step_def intro: db_inv_empty db_inv_apply)

lemma reachable_apply: "reachable d \<Longrightarrow> op_ok d x \<Longrightarrow> reachable (apply_op x d)"
  by (rule reach.next_state) (auto simp: store_step_def)

lemma reachable_empty: "reachable empty_db"
  by (rule reach.start) (simp add: store_init_def)

fun run_ops :: "store_op list \<Rightarrow> db \<Rightarrow> db option" where
  "run_ops [] d = Some d"
| "run_ops (x # xs) d = (if op_ok d x then run_ops xs (apply_op x d) else None)"

lemma reachable_run: "run_ops xs d = Some d' \<Longrightarrow> reachable d \<Longrightarrow> reachable d'"
  by (induction xs d rule: run_ops.induct) (auto split: if_splits intro: reachable_apply)

end
