(* ===== verification/Demo.thy ===== *)
theory Demo
  imports StoreRuns
begin

text \<open>
  Concrete runs of the store, evaluated in the kernel: a job enqueued, claimed, failed and retried,
  a second one left in the queue. The witnesses of the properties take their inputs from here.
\<close>

definition demo_sub :: submission where
  "demo_sub = \<lparr>s_argv = [''make'', ''test''], s_timeout_seconds = 300, s_max_retries = 1,
     s_idempotency_key = Some ''nightly'', s_tags = Some [(''team'', ''infra'')], s_note = None,
     s_priority = 5, s_queue = ''default'', s_next_run_at = None, s_cwd = None, s_env = None,
     s_max_crashes = Some 0\<rparr>"

definition low_sub :: submission where
  "low_sub = demo_sub\<lparr>s_priority := 0, s_idempotency_key := None, s_max_crashes := None\<rparr>"

definition queued_ops :: "store_op list" where
  "queued_ops = [Op_add low_sub 100, Op_add demo_sub 101]"

definition running_ops :: "store_op list" where
  "running_ops = queued_ops @ [Op_claim ''w1'' 7 102 ''out'' ''default'' (Some 1)]"

definition failed_ops :: "store_op list" where
  "failed_ops = running_ops @ [Op_failure 2 1 ''w1'' 7 ''failed'' (Some 2) ''exit 2'' 110 None]"

definition dead_ops :: "store_op list" where
  "dead_ops = failed_ops @ [Op_claim ''w1'' 7 120 ''out'' ''default'' None,
     Op_failure 2 2 ''w1'' 7 ''timed_out'' None ''timeout'' 130 None]"

definition demo_run :: "store_op list \<Rightarrow> db" where
  "demo_run ops = fold apply_op ops empty_db"

definition db_queued :: db where "db_queued = demo_run queued_ops"
definition db_running :: db where "db_running = demo_run running_ops"
definition db_failed :: db where "db_failed = demo_run failed_ops"
definition db_dead :: db where "db_dead = demo_run dead_ops"

lemma run_ops_fold: "run_ops xs d \<noteq> None \<Longrightarrow> run_ops xs d = Some (fold apply_op xs d)"
  by (induction xs d rule: run_ops.induct) (auto split: if_splits)

lemma reachable_demo_run: "run_ops ops empty_db \<noteq> None \<Longrightarrow> reachable (demo_run ops)"
  unfolding demo_run_def by (rule reachable_run[OF run_ops_fold reachable_empty])

lemma reachable_demo [simp]:
  "reachable db_queued" "reachable db_running" "reachable db_failed" "reachable db_dead"
  unfolding db_queued_def db_running_def db_failed_def db_dead_def
  by (rule reachable_demo_run, code_simp)+

lemma demo_states:
  "map j_state (jobs db_queued) = [QUEUED, QUEUED]"
  "map j_state (jobs db_running) = [QUEUED, RUNNING]"
  "map j_state (jobs db_failed) = [QUEUED, QUEUED]"
  "map j_state (jobs db_dead) = [QUEUED, DEAD]"
  by code_simp+

end
