(* ===== verification/StoreProps.thy ===== *)
theory StoreProps
  imports Demo
begin

text \<open>
  The properties of the queue database: what every reachable state satisfies, which job a claim
  takes, how ownership guards a worker's writes, how the retry and crash budgets decide the next
  state, and what the event ledger records.
\<close>

section \<open>Every reachable state\<close>

lemma reachable_inv: "reachable d \<Longrightarrow> db_inv d"
  by (rule sm.reach_inv)

lemma reachable_tables: "reachable d \<Longrightarrow> tables_ok d"
  by (blast intro: db_inv_tables reachable_inv)

lemma reachable_job:
  "reachable d \<Longrightarrow> get_job d k = Some j \<Longrightarrow> job_ok j (atts_of d k) (evs_of d k)"
  by (blast intro: db_inv_job reachable_inv)

lemma get_attempts_eq: "attempts_ok (atts_of d k) \<Longrightarrow> get_attempts k d = atts_of d k"
  unfolding get_attempts_def attempts_ok_def by (intro sort_key_id_if_sorted) simp

lemma reachable_attempts:
  assumes "reachable d"
  shows "attempts_ok (atts_of d k)"
  using db_inv_view[OF reachable_inv[OF assms], of k]
  by (auto simp: view_ok_def job_ok_def attempts_ok_def split: option.splits)

lemma get_events_eq: "tables_ok d \<Longrightarrow> get_events k d = evs_of d k"
  unfolding get_events_def evs_of_def tables_ok_def ids_ok_def
  by (intro ascending_sort_key ascending_filter) simp

text \<open>C1. The database invariant holds in every state the write operations can reach from an empty
  database: ids are unique and ascending; every attempt and event belongs to a job; and for each job
  the attempts, the lock columns, the budgets, the finish time and the event trail fit its state.\<close>

theorem database_invariant:
  assumes "reachable d"
  shows "db_inv d"
  using assms by (rule sm.reach_inv)

theorem database_invariant_witness: "db_inv db_dead"
  by (rule database_invariant) simp

text \<open>A job is running exactly when it is locked, and then exactly one of its attempts is running:
  the newest, started by the worker that holds the lock. A job in any other state has no running
  attempt.\<close>

theorem one_running_attempt:
  assumes "reachable d" and "get_job d k = Some j"
  shows "(j_state j = RUNNING \<longleftrightarrow> j_locked_pid j \<noteq> None)
    \<and> (j_state j = RUNNING \<longleftrightarrow> j_locked_by j \<noteq> None)
    \<and> count_where (\<lambda>a. a_state a = ATT_RUNNING) (get_attempts k d)
        = (if j_state j = RUNNING then 1 else 0)
    \<and> (j_state j = RUNNING \<longrightarrow> held_by j (last (get_attempts k d)))"
proof -
  note job = reachable_job[OF assms]
  have run: "running_ok j (atts_of d k)" and lock: "lock_ok j" using job by (simp_all add: job_ok_def)
  have as: "get_attempts k d = atts_of d k" using job by (simp add: get_attempts_eq job_ok_def)
  show ?thesis
  proof (cases "j_state j = RUNNING")
    case True
    from running_ok_cases[OF run True] obtain bs a
      where a: "atts_of d k = bs @ [a]" "held_by j a" "none_running bs" .
    then have "count_where (\<lambda>a. a_state a = ATT_RUNNING) bs = 0"
      by (simp add: none_running_def count_where_eq_0)
    with a True show ?thesis by (simp add: as held_by_def)
  next
    case False
    with run lock show ?thesis
      by (simp add: as running_ok_def lock_ok_def none_running_def count_where_eq_0)
  qed
qed

theorem one_running_attempt_witness:
  "\<exists>j. get_job db_running 2 = Some j \<and> count_where (\<lambda>a. a_state a = ATT_RUNNING)
     (get_attempts 2 db_running) = (if j_state j = RUNNING then 1 else 0)"
proof -
  have "get_job db_running 2 \<noteq> None" by code_simp
  then obtain j where "get_job db_running 2 = Some j" by blast
  then show ?thesis using one_running_attempt[of db_running 2 j] by simp
qed

text \<open>A job's attempts are numbered from 1 without gaps or repeats, retries included, so the
  uniqueness of \<open>(job_id, attempt_no)\<close> is never violated, and every attempt and event row belongs to a
  job that exists, so neither is any foreign key.\<close>

theorem attempts_numbered:
  assumes "reachable d"
  shows "map a_attempt_no (get_attempts k d) = [1..int (length (get_attempts k d))]
    \<and> (get_job d k = None \<longrightarrow> get_attempts k d = [] \<and> get_events k d = [])"
proof
  note ok = reachable_attempts[OF assms, of k]
  then show "map a_attempt_no (get_attempts k d) = [1..int (length (get_attempts k d))]"
    unfolding get_attempts_eq[OF ok] by (simp add: attempts_ok_def)
  show "get_job d k = None \<longrightarrow> get_attempts k d = [] \<and> get_events k d = []"
    using db_inv_view[OF reachable_inv[OF assms], of k]
    by (auto simp: get_attempts_eq[OF ok] get_events_eq[OF reachable_tables[OF assms]])
qed

theorem attempts_numbered_witness:
  "map a_attempt_no (get_attempts 2 db_dead) = [1..int (length (get_attempts 2 db_dead))]
     \<and> length (get_attempts 2 db_dead) = 2"
proof -
  have "length (get_attempts 2 db_dead) = 2" by code_simp
  then show ?thesis using attempts_numbered[of db_dead 2] by simp
qed



text \<open>C27. The event trail of a job tells its state: replayed through the lifecycle, it is legal at
  every step and ends in the state of the row.\<close>

theorem events_replay_state:
  assumes "reachable d" and "get_job d k = Some j"
  shows "replay (get_events k d) = At (j_state j)"
  using reachable_job[OF assms] reachable_tables[OF assms(1)]
  by (simp add: get_events_eq job_ok_def)

theorem events_replay_state_witness:
  "\<exists>j. get_job db_dead 2 = Some j \<and> replay (get_events 2 db_dead) = At (j_state j)"
proof -
  have "get_job db_dead 2 \<noteq> None" by code_simp
  then show ?thesis using events_replay_state[of db_dead 2] by auto
qed

section \<open>Claiming\<close>

lemma claim_order_le:
  "claim_order q \<le> claim_order r \<longleftrightarrow> j_priority r < j_priority q
     \<or> j_priority r = j_priority q \<and> (j_next_run_at q < j_next_run_at r
     \<or> j_next_run_at r = j_next_run_at q \<and> j_id q \<le> j_id r)"
  by (auto simp: claim_order_def less_eq_prod_def)

text \<open>C5. A claim takes the best of the eligible jobs: none has a higher priority, or the same one and
  an earlier run time, or the same of both and a lower id. The job was queued, due and in the lane,
  it is now running and locked by the claimer with a fresh running attempt, and no other job is
  touched.\<close>

theorem claim_takes_best:
  assumes "reachable d" and "claim_next w p now out lane slots d = (Some (j, a), d')"
  shows "\<exists>row. get_job d (j_id j) = Some row \<and> eligible now lane row \<and> j = lock_row w p now row
    \<and> (\<forall>r\<in>set (jobs d). eligible now lane r \<longrightarrow> j_priority r < j_priority row
        \<or> j_priority r = j_priority row \<and> (j_next_run_at row < j_next_run_at r
        \<or> j_next_run_at r = j_next_run_at row \<and> j_id row \<le> j_id r))
    \<and> get_job d' (j_id j) = Some j \<and> get_attempts (j_id j) d' = get_attempts (j_id j) d @ [a]
    \<and> held_by j a \<and> only_job (j_id j) d d'"
  using assms(2) reachable_tables[OF assms(1)]
proof (cases rule: claim_next_cases)
  case (won row)
  let ?k = "j_id row"
  note ok = reachable_attempts[OF assms(1), of ?k]
  have j: "j = lock_row w p now row" "j_id j = ?k" using won(6) by simp_all
  have a: "a = new_attempt ?k (next_attempt_no ?k d) w p now out (atts_seq d + 1)"
    using won(6) by simp
  have best: "claim_order row \<le> claim_order r" if "r \<in> set (jobs d)" "eligible now lane r" for r
    using first_by_Some(2)[OF won(2), of r] that by simp
  have "get_job d' ?k = Some j"
    using won(3) by (simp add: won(5) claim_row_def tab_simps j)
  moreover have "atts_of d' ?k = atts_of d ?k @ [a]"
    by (simp add: won(5) claim_row_def tab_simps a)
  moreover have "attempts_ok (atts_of d' ?k)"
    using db_inv_view[OF db_inv_claim[OF reachable_inv[OF assms(1)] assms(2)], of ?k]
      \<open>get_job d' ?k = Some j\<close> by (simp add: job_ok_def)
  moreover have "held_by j a"
    by (simp add: held_by_def j a lock_row_def new_attempt_def Let_def)
  moreover have "only_job ?k d d'"
    unfolding won(5) claim_row_def by (intro only_job_intros) simp_all
  ultimately show ?thesis
    using won(3,4) best get_attempts_eq[OF ok] get_attempts_eq[of d' ?k]
    by (intro exI[of _ row]) (simp add: j(1) claim_order_le)
qed auto

theorem claim_takes_best_witness:
  "\<exists>j a d'. claim_next ''w1'' 7 102 ''out'' ''default'' (Some 1) db_queued = (Some (j, a), d')
     \<and> j_id j = 2 \<and> held_by j a \<and> only_job 2 db_queued d'"
proof -
  have "map_option (j_id \<circ> fst) (fst (claim_next ''w1'' 7 102 ''out'' ''default'' (Some 1) db_queued))
      = Some 2" by code_simp
  then obtain j a d' where
    "claim_next ''w1'' 7 102 ''out'' ''default'' (Some 1) db_queued = (Some (j, a), d')" "j_id j = 2"
    by (cases "claim_next ''w1'' 7 102 ''out'' ''default'' (Some 1) db_queued") auto
  then show ?thesis using claim_takes_best[of db_queued "''w1''" 7 102 "''out''" "''default''" "Some 1" j a d']
    by auto
qed

text \<open>A claim comes back empty only when the lane is full or holds nothing due, and then it
  changes nothing; otherwise it takes a job.\<close>

theorem claim_empty_iff:
  assumes "reachable d"
  shows "(fst (claim_next w p now out lane slots d) = None \<longleftrightarrow>
      slots_full slots lane d \<or> (\<forall>j\<in>set (jobs d). \<not> eligible now lane j))
    \<and> (fst (claim_next w p now out lane slots d) = None \<longrightarrow>
      snd (claim_next w p now out lane slots d) = d)"
proof -
  obtain r d' where res: "claim_next w p now out lane slots d = (r, d')" by fastforce
  then show ?thesis using reachable_tables[OF assms]
  proof (cases rule: claim_next_cases)
    case (won row)
    with get_job_Some[OF won(3)] res show ?thesis by auto
  qed (use res in auto)
qed

theorem claim_empty_iff_witness:
  "fst (claim_next ''w2'' 8 200 ''out'' ''default'' (Some 1) db_running) = None"
proof -
  have "slots_full (Some 1) ''default'' db_running" by code_simp
  then show ?thesis using claim_empty_iff[of db_running "''w2''" 8 200 "''out''" "''default''" "Some 1"] by simp
qed

end
