(* ===== verification/StoreOwnership.thy ===== *)
theory StoreOwnership
  imports StoreProps
begin

text \<open>
  Who may change a running job: the slot ceiling of a lane, the ownership guard on a worker's writes,
  the decision a failure or a crash leads to, and the lifecycle every operation follows.
\<close>

section \<open>The slot ceiling\<close>

fun claims_within :: "string \<Rightarrow> int \<Rightarrow> store_op \<Rightarrow> bool" where
  \<comment> \<open>every claim on the lane is made with a bound of at most \<open>n\<close>\<close>
  "claims_within lane n (Op_claim w p now out lane' slots) \<longleftrightarrow>
     (lane' = lane \<longrightarrow> (case slots of None \<Rightarrow> False | Some m \<Rightarrow> m \<le> n))"
| "claims_within lane n _ = True"

lemma count_where_update_le:
  assumes "\<And>x. P x \<Longrightarrow> Q (f x) \<Longrightarrow> Q x"
  shows "count_where Q (update_where P f xs) \<le> count_where Q xs"
  using assms by (induction xs) auto

lemma count_where_update_add:
  "count_where Q (update_where P f xs) \<le> count_where Q xs + count_where P xs"
  by (induction xs) auto

lemma count_where_filter_le: "count_where Q (filter P xs) \<le> count_where Q xs"
  by (induction xs) (auto simp: add_increasing)

lemma running_in_lane_frame [tab_simps]:
  "running_in_lane lane (add_event k t ev w x d) = running_in_lane lane d"
  "running_in_lane lane (insert_attempt mk d) = running_in_lane lane d"
  "running_in_lane lane (update_attempts Pa fa d) = running_in_lane lane d"
  "running_in_lane lane (delete_attempts Pa d) = running_in_lane lane d"
  "running_in_lane lane (delete_events Pe d) = running_in_lane lane d"
  by (simp_all add: running_in_lane_def tab_simps)

lemma running_in_lane_update:
  assumes "\<And>j. P j \<Longrightarrow> j_state (f j) = RUNNING \<and> j_queue (f j) = lane \<Longrightarrow>
    j_state j = RUNNING \<and> j_queue j = lane"
  shows "running_in_lane lane (update_jobs P f d) \<le> running_in_lane lane d"
  using assms unfolding running_in_lane_def update_jobs_def by (simp add: count_where_update_le)

lemma running_in_lane_delete: "running_in_lane lane (delete_jobs P d) \<le> running_in_lane lane d"
  by (simp add: running_in_lane_def delete_jobs_def count_where_filter_le)

lemma running_in_lane_add:
  "running_in_lane lane (committed d (add_job_checked s now d)) \<le> running_in_lane lane d"
proof -
  have "running_in_lane lane (insert_submission s now d) = running_in_lane lane d"
    by (simp add: running_in_lane_def insert_submission_def insert_job_def tab_simps new_job_def)
  then show ?thesis
    by (auto simp: committed_def add_job_checked_def and_then_def Let_def
        split: sum.splits option.splits if_splits)
qed

lemma running_in_lane_claim_row:
  assumes "tables_ok d" and "get_job d k = Some row" and "j_queue row \<noteq> lane"
  shows "running_in_lane lane (claim_row k w p now out d) \<le> running_in_lane lane d"
proof -
  have "count_where Q (update_where (\<lambda>j. j_id j = k) f (jobs d)) \<le> count_where Q (jobs d)"
    if "\<not> Q (f row)" for Q and f :: "job \<Rightarrow> job"
  proof -
    have "j = row" if "j \<in> set (jobs d)" "j_id j = k" for j
      using that assms(1,2) get_job_iff[OF assms(1), of k] by fastforce
    then have "update_where (\<lambda>j. j_id j = k) f (jobs d) =
        update_where (\<lambda>j. j = row \<and> j_id j = k) f (jobs d)"
      by (intro update_where_cong) auto
    with that show ?thesis using count_where_update_le[of "\<lambda>j. j = row \<and> j_id j = k" Q f "jobs d"]
      by auto
  qed
  from this[of "\<lambda>j. j_state j = RUNNING \<and> j_queue j = lane" "lock_row w p now"] assms(3)
  show ?thesis
    by (simp add: claim_row_def tab_simps)
      (simp add: running_in_lane_def update_jobs_def lock_row_def)
qed

lemma running_in_lane_claim:
  assumes "tables_ok d" and "claims_within lane n (Op_claim w p now out lane' slots)"
    and "running_in_lane lane d \<le> n" and "claim_next w p now out lane' slots d = (r, d')"
  shows "running_in_lane lane d' \<le> n"
  using assms(4,1)
proof (cases rule: claim_next_cases)
  case idle
  with assms(3) show ?thesis by simp
next
  case (won row)
  show ?thesis
  proof (cases "lane' = lane")
    case True
    have "count_where (\<lambda>j. j_id j = j_id row) (jobs d) = 1"
      using count_guard[OF assms(1), of "\<lambda>j. j_id j = j_id row"] won(3) by simp
    then have "running_in_lane lane d' \<le> running_in_lane lane d + 1"
      using count_where_update_add[of "\<lambda>j. j_state j = RUNNING \<and> j_queue j = lane"
          "\<lambda>j. j_id j = j_id row" "lock_row w p now" "jobs d"]
      by (simp add: won(5) claim_row_def tab_simps) (simp add: running_in_lane_def update_jobs_def)
    with True won(1) assms(2) show ?thesis
      by (auto simp: slots_full_def split: option.splits)
  next
    case False
    then have "j_queue row \<noteq> lane" using won(4) by (auto simp: eligible_def)
    from running_in_lane_claim_row[OF assms(1) won(3) this] assms(3) show ?thesis
      unfolding won(5) by (meson order_trans)
  qed
qed

lemma running_in_lane_prune:
  "running_in_lane lane (snd (prune_delete ids states cutoff d)) \<le> running_in_lane lane d"
proof -
  have one: "running_in_lane lane (snd (prune_one states cutoff k (m, d))) \<le> running_in_lane lane d"
    for k m d
    using running_in_lane_delete[of lane "\<lambda>j. j_id j = k"
        "delete_events (\<lambda>e. e_job_id e = k) (delete_attempts (\<lambda>a. a_job_id a = k) d)"]
    by (cases m) (auto simp: prune_one_def Let_def tab_simps split: option.split)
  have "running_in_lane lane (snd (fold (prune_one states cutoff) ids (m, d)))
      \<le> running_in_lane lane d" for m d
  proof (induction ids arbitrary: m d)
    case (Cons k ids)
    show ?case using Cons.IH[of "fst (prune_one states cutoff k (m, d))"
          "snd (prune_one states cutoff k (m, d))"] one[of k m d] by simp
  qed simp
  then show ?thesis by (simp add: prune_delete_def)
qed

lemma running_in_lane_apply:
  assumes "db_inv d" and "claims_within lane n x" and "running_in_lane lane d \<le> n"
  shows "running_in_lane lane (apply_op x d) \<le> n"
proof -
  note ok = db_inv_tables[OF assms(1)]
  have keep: "running_in_lane lane (update_jobs P f d) \<le> n"
    if "\<And>j. P j \<Longrightarrow> j_state (f j) = RUNNING \<Longrightarrow> j_state j = RUNNING \<and> j_queue (f j) = j_queue j"
    for P f
    using running_in_lane_update[of P f lane d] that assms(3) by fastforce
  show ?thesis
  proof (cases x)
    case (Op_add s now)
    with order_trans[OF running_in_lane_add assms(3)] show ?thesis by simp
  next
    case (Op_claim w p now out lane' slots)
    with running_in_lane_claim[OF ok _ assms(3), of w p now out lane' slots] assms(2)
    show ?thesis by (cases "claim_next w p now out lane' slots d") simp
  next
    case (Op_heartbeat k w p now)
    have "running_in_lane lane (update_jobs (owned_by k w p) (\<lambda>j. j\<lparr>j_heartbeat_at := Some now\<rparr>) d) \<le> n"
      by (rule keep) simp
    with Op_heartbeat show ?thesis by (simp add: update_heartbeat_def)
  next
    case (Op_success k att w p now)
    then show ?thesis using assms(3)
      by (auto simp: record_success_def tab_simps succeed_row_def intro!: keep)
  next
    case (Op_failure k att w p kind e err now reason)
    let ?r = "record_failure k att w p kind e err now reason d"
    have "running_in_lane lane d' \<le> n" if "?r = Inr (v, d')" for v d'
      using that ok
    proof (cases rule: record_failure_cases)
      case (won j st ev fr ns nr)
      have "ns \<noteq> RUNNING" using after_failure_cases[OF won(5)] by auto
      then show ?thesis unfolding won(7) recorded_failure_def Let_def
        by (auto simp: tab_simps fail_row_def intro!: keep)
    qed (use assms(3) in simp)
    with committed_cases[of d ?r] Op_failure assms(3) show ?thesis by auto
  next
    case (Op_reap k pid cutoff now reaper)
    obtain r d' where res: "reap k pid cutoff now reaper d = (r, d')" by fastforce
    then have "running_in_lane lane d' \<le> n" using ok
    proof (cases rule: reap_cases)
      case (won j ns nr)
      have "ns \<noteq> RUNNING" using after_failure_cases[OF won(3)] by auto
      then show ?thesis unfolding won(5) reaped_def Let_def
        by (auto simp: tab_simps crash_row_def intro!: keep)
    qed (use assms(3) in simp)
    with Op_reap res show ?thesis by simp
  next
    case (Op_retry k force now)
    have frame: "running_in_lane lane (update_jobs P f (update_attempts Pa fa d)) =
        running_in_lane lane (update_jobs P f d)" for P f Pa fa
      by (simp add: running_in_lane_def update_jobs_def tab_simps)
    show ?thesis using assms(3)
      unfolding Op_retry by (auto simp: retry_job_def Let_def requeue_def tab_simps frame
          requeue_row_def split: option.split intro!: keep)
  next
    case (Op_cancel k allow now)
    then show ?thesis using assms(3)
      by (auto simp: cancel_job_def tab_simps split: option.split intro!: keep)
  next
    case (Op_prune ids states cutoff)
    with running_in_lane_prune[of lane ids states cutoff d] assms(3) show ?thesis by simp
  qed
qed

text \<open>C26. With every claim on a lane made under a slot bound of at most \<open>n\<close>, the lane never has more
  than \<open>n\<close> running jobs, whatever else happens to the queue between the claims.\<close>

theorem slot_ceiling:
  assumes "\<forall>x\<in>set xs. claims_within lane n x" and "0 \<le> n" and "run_ops xs empty_db = Some d"
  shows "running_in_lane lane d \<le> n"
proof -
  have "running_in_lane lane d' \<le> n"
    if "run_ops xs d0 = Some d'" "\<forall>x\<in>set xs. claims_within lane n x" "db_inv d0"
      "running_in_lane lane d0 \<le> n" for xs d0 d'
    using that
    by (induction xs d0 rule: run_ops.induct)
      (auto split: if_splits intro: db_inv_apply running_in_lane_apply)
  moreover have "running_in_lane lane empty_db = 0"
    by (simp add: running_in_lane_def empty_db_def)
  ultimately show ?thesis using assms db_inv_empty by metis
qed

theorem slot_ceiling_witness: "running_in_lane ''default'' db_running \<le> 1"
proof (rule slot_ceiling)
  show "\<forall>x\<in>set running_ops. claims_within ''default'' 1 x" by code_simp
  have "run_ops running_ops empty_db \<noteq> None" by code_simp
  from run_ops_fold[OF this] show "run_ops running_ops empty_db = Some db_running"
    by (simp add: db_running_def demo_run_def)
qed simp

section \<open>The ownership guard\<close>

definition owns :: "db \<Rightarrow> int \<Rightarrow> string \<Rightarrow> int \<Rightarrow> bool" where
  \<comment> \<open>the worker \<open>w\<close> of process \<open>p\<close> holds the lock of a running job \<open>k\<close>\<close>
  "owns d k w p \<longleftrightarrow> (case get_job d k of None \<Rightarrow> False
     | Some j \<Rightarrow> j_state j = RUNNING \<and> j_locked_by j = Some w \<and> j_locked_pid j = Some p)"

lemma owns_guard: "owns d k w p \<longleftrightarrow> (case get_job d k of None \<Rightarrow> False | Some j \<Rightarrow> owned_by k w p j)"
  by (auto simp: owns_def owned_by_def get_job_id split: option.split)

text \<open>C4. A worker that no longer owns the row (it was reaped, canceled or force-retried, whoever holds
  it now) changes nothing: its success and its failure are discarded, its heartbeat matches no row.
  A heartbeat of the owner matches exactly one.\<close>

theorem stale_worker_discarded:
  assumes "reachable d"
  shows "fst (update_heartbeat k w p now d) = (if owns d k w p then 1 else 0)
    \<and> (fst (record_success k att w p now d) = None \<longleftrightarrow> \<not> owns d k w p)
    \<and> (\<not> owns d k w p \<longrightarrow> snd (update_heartbeat k w p now d) = d
        \<and> record_success k att w p now d = (None, d)
        \<and> record_failure k att w p kind x err now reason d \<in> {Inr (None, d), Inl ValueError})"
proof -
  note ok = reachable_tables[OF assms]
  obtain n d1 where hb: "update_heartbeat k w p now d = (n, d1)" by fastforce
  obtain r d2 where su: "record_success k att w p now d = (r, d2)" by fastforce
  have 1: "n = (if owns d k w p then 1 else 0) \<and> (\<not> owns d k w p \<longrightarrow> d1 = d)"
    using hb ok by (cases rule: update_heartbeat_cases) (auto simp: owns_guard split: option.split)
  have 2: "(r = None \<longleftrightarrow> \<not> owns d k w p) \<and> (\<not> owns d k w p \<longrightarrow> d2 = d)"
    using su ok by (cases rule: record_success_cases) (auto simp: owns_guard split: option.split)
  have 3: "record_failure k att w p kind x err now reason d \<in> {Inr (None, d), Inl ValueError}"
    if no: "\<not> owns d k w p"
  proof (cases "record_failure k att w p kind x err now reason d")
    case (Inl e)
    then show ?thesis
      by (auto simp: record_failure_def validate_failure_reason_def and_then_eq_Inl Let_def
          split: option.splits if_splits prod.splits)
  next
    case (Inr rd)
    obtain v d3 where rd: "rd = (v, d3)" by fastforce
    show ?thesis
      using Inr[unfolded rd] ok
      by (cases rule: record_failure_cases) (use no Inr rd in \<open>auto simp: owns_guard\<close>)
  qed
  from 1 2 3 show ?thesis by (simp add: hb su)
qed

theorem stale_worker_discarded_witness:
  "record_success 2 1 ''w0'' 6 200 db_running = (None, db_running)"
proof -
  have "\<not> owns db_running 2 ''w0'' 6" by code_simp
  then show ?thesis using stale_worker_discarded[of db_running 2 "''w0''" 6 200 1] by simp
qed

text \<open>C6. A recorded failure goes to the budget: the job is requeued, to run no earlier than now plus
  the backoff, while its failures stay within \<open>max_retries\<close>, and dead-lettered otherwise. One more
  attempt is charged, no crash, the lock is released, and the attempt handed out is the one closed
  with the failure's state.\<close>

theorem failure_decision:
  assumes "reachable d" and "names_attempt d k att w p"
    and "record_failure k att w p kind x err now reason d = Inr (Some st, d')"
  shows "\<exists>j j' as a a'. get_job d k = Some j \<and> owned_by k w p j \<and> get_job d' k = Some j'
    \<and> st = (if failures j + 1 \<le> j_max_retries j then QUEUED else DEAD)
    \<and> j_state j' = st \<and> j_attempts j' = j_attempts j + 1 \<and> j_crashes j' = j_crashes j
    \<and> (st = QUEUED \<longrightarrow> j_next_run_at j' = fadd now (backoff_seconds (j_attempts j + 1)))
    \<and> j_locked_pid j' = None \<and> j_last_exit_code j' = x \<and> only_job k d d'
    \<and> get_attempts k d = as @ [a] \<and> get_attempts k d' = as @ [a'] \<and> a_id a' = att
    \<and> a_state a' = (if kind = ''timed_out'' then ATT_TIMED_OUT else ATT_FAILED)"
  using assms(3) reachable_tables[OF assms(1)]
proof (cases rule: record_failure_cases)
  case (won j ast ev fr ns nr)
  note job = reachable_job[OF assms(1) won(1)]
  have run: "j_state j = RUNNING" using won(2) by (simp add: owned_by_def)
  have st: "st = ns" using won(6) by simp
  let ?P = "\<lambda>a. a_id a = att \<and> a_state a = ATT_RUNNING"
  let ?f = "\<lambda>a. a\<lparr>a_state := ast, a_finished_at := Some now, a_exit_code := x,
      a_error := Some err, a_failure_reason := Some fr\<rparr>"
  have "running_ok j (atts_of d k)" using job by (simp add: job_ok_def)
  from running_ok_cases[OF this run] obtain bs a
    where a: "atts_of d k = bs @ [a]" "held_by j a" "none_running bs" .
  have id: "a_id a = att" using assms(2) won(1,2) a(1) by (simp add: names_attempt_def)
  have "update_where ?P ?f bs = bs"
    using a(3) by (intro update_where_none) (auto simp: none_running_def)
  moreover have "atts_of d' k = update_where ?P ?f (atts_of d k)"
    unfolding won(7) recorded_failure_def Let_def by (simp add: tab_simps)
  ultimately have as': "atts_of d' k = bs @ [?f a]" using a id by (simp add: held_by_def)
  have row: "get_job d' k = Some (fail_row ns (j_attempts j + 1) nr now x err j)"
    using won(1,2) unfolding won(7) recorded_failure_def Let_def by (simp add: tab_simps)
  have only: "only_job k d d'"
    unfolding won(7) recorded_failure_def Let_def using assms(2)
    by (cases "ns = DEAD") (auto intro!: only_job_intros
        simp: tab_simps owned_by_def names_attempt_def)
  have ast: "ast = (if kind = ''timed_out'' then ATT_TIMED_OUT else ATT_FAILED)"
    using won(3) by (auto simp: FAILURE_EVENTS_def split: if_splits)
  have "db_inv d'" using db_inv_failure[OF reachable_inv[OF assms(1)] assms(3,2)] .
  from db_inv_job[OF this row] have "get_attempts k d' = bs @ [?f a]"
    using as' by (simp add: get_attempts_eq job_ok_def)
  moreover have "get_attempts k d = bs @ [a]" using job a(1) by (simp add: get_attempts_eq job_ok_def)
  ultimately show ?thesis
    using won(1,2) row only id ast after_failure_cases[OF won(5)] st
    by (intro exI[of _ j] exI[of _ "fail_row ns (j_attempts j + 1) nr now x err j"] exI[of _ bs]
        exI[of _ a] exI[of _ "?f a"]) (auto simp: fail_row_def unlock_row_def)
qed auto

theorem failure_decision_witness:
  "\<exists>d'. record_failure 2 1 ''w1'' 7 ''failed'' (Some 2) ''exit 2'' 110 None db_running
     = Inr (Some QUEUED, d') \<and> only_job 2 db_running d'"
proof -
  have "(case record_failure 2 1 ''w1'' 7 ''failed'' (Some 2) ''exit 2'' 110 None db_running of
      Inr (r, d') \<Rightarrow> r = Some QUEUED | Inl e \<Rightarrow> False)" by code_simp
  then obtain d' where r: "record_failure 2 1 ''w1'' 7 ''failed'' (Some 2) ''exit 2'' 110 None db_running
      = Inr (Some QUEUED, d')" by (auto split: sum.splits)
  have "names_attempt db_running 2 1 ''w1'' 7" by code_simp
  from failure_decision[OF _ this r] r show ?thesis by auto
qed

text \<open>C7. Reaping re-checks the row: it acts only on a job that is running, locked by the pid found
  dead and still stale, and leaves the database alone otherwise. It charges one attempt and one
  crash, and requeues while the crashes stay within the limit (always, without one); the failures
  charged to the job are unchanged.\<close>

theorem reap_decision:
  assumes "reachable d" and "reap k pid cutoff now reaper d = (r, d')"
  shows "(r = None \<longrightarrow> d' = d \<and> (\<forall>j. get_job d k = Some j \<longrightarrow> \<not> reapable k pid cutoff j))
    \<and> (\<forall>st. r = Some st \<longrightarrow> (\<exists>j j'. get_job d k = Some j \<and> get_job d' k = Some j' \<and> only_job k d d'
        \<and> j_state j = RUNNING \<and> j_locked_pid j = Some pid \<and> heartbeat_before cutoff j
        \<and> st = (case j_max_crashes j of None \<Rightarrow> QUEUED
             | Some m \<Rightarrow> if j_crashes j + 1 \<le> m then QUEUED else DEAD)
        \<and> j_state j' = st \<and> failures j' = failures j \<and> j_crashes j' = j_crashes j + 1
        \<and> (st = QUEUED \<longrightarrow> j_next_run_at j' = fadd now (backoff_seconds (j_attempts j + 1)))
        \<and> j_locked_pid j' = None))"
  using assms(2) reachable_tables[OF assms(1)]
proof (cases rule: reap_cases)
  case (won j ns nr)
  have row: "get_job d' k = Some (crash_row ns (j_attempts j + 1) (j_crashes j + 1) nr now j)"
    using won(1) get_job_id[OF won(1)] unfolding won(5) reaped_def Let_def by (simp add: tab_simps)
  have only: "only_job k d d'"
    unfolding won(5) reaped_def Let_def
    by (cases "ns = DEAD") (auto intro!: only_job_intros simp: tab_simps)
  have ns: "ns = (case j_max_crashes j of None \<Rightarrow> QUEUED
      | Some m \<Rightarrow> if j_crashes j + 1 \<le> m then QUEUED else DEAD)"
    using after_failure_cases[OF won(3)] by (auto simp: crashes_within_def split: option.splits)
  show ?thesis
    using won(1,2) row only ns[symmetric] after_failure_cases[OF won(3)] won(4)
    by (auto simp: reapable_def crash_row_def unlock_row_def failures_def)
qed auto

theorem reap_decision_witness:
  "\<exists>d'. reap 2 7 150 200 ''w2'' db_running = (Some DEAD, d') \<and> only_job 2 db_running d'"
proof -
  have "fst (reap 2 7 150 200 ''w2'' db_running) = Some DEAD" by code_simp
  then obtain d' where r: "reap 2 7 150 200 ''w2'' db_running = (Some DEAD, d')"
    by (cases "reap 2 7 150 200 ''w2'' db_running") auto
  from reap_decision[OF _ r] r show ?thesis by auto
qed

end
