(* ===== verification/StoreLifecycle.thy ===== *)
theory StoreLifecycle
  imports StoreOwnership
begin

text \<open>
  The store refines a small abstract machine: seen from one job, every operation is either invisible
  or one edge of the lifecycle graph.
\<close>

type_synonym presence = "job_state option"  \<comment> \<open>\<open>None\<close>: the job has no row\<close>

definition state_of :: "int \<Rightarrow> db \<Rightarrow> presence" where
  "state_of k d = map_option j_state (get_job d k)"

fun lifecycle_edge :: "presence \<Rightarrow> presence \<Rightarrow> bool" where
  "lifecycle_edge None (Some t) \<longleftrightarrow> t = QUEUED"
| "lifecycle_edge (Some QUEUED) (Some t) \<longleftrightarrow> t \<in> {RUNNING, CANCELED}"
| "lifecycle_edge (Some RUNNING) (Some t) \<longleftrightarrow> t \<in> {DONE, QUEUED, DEAD, CANCELED}"
| "lifecycle_edge (Some DEAD) (Some t) \<longleftrightarrow> t = QUEUED"
| "lifecycle_edge (Some CANCELED) (Some t) \<longleftrightarrow> t = QUEUED"
| "lifecycle_edge (Some s) None \<longleftrightarrow> s \<in> {DONE, DEAD, CANCELED}"
| "lifecycle_edge _ _ = False"

lemma state_of_other: "only_job k' d d' \<Longrightarrow> k \<noteq> k' \<Longrightarrow> state_of k d' = state_of k d"
  by (simp add: only_job_def state_of_def)

lemma edge_at:
  assumes "only_job k' d d'"
    and "state_of k' d' = state_of k' d \<or> lifecycle_edge (state_of k' d) (state_of k' d')"
  shows "state_of k d' = state_of k d \<or> lifecycle_edge (state_of k d) (state_of k d')"
  using state_of_other[OF assms(1), of k] assms(2) by (cases "k = k'") auto

lemma edge_requeue: "s \<notin> {RUNNING, DONE, QUEUED, FAILED} \<Longrightarrow> lifecycle_edge (Some s) (Some QUEUED)"
  by (cases s) auto

lemma edge_add:
  assumes "tables_ok d"
  shows "state_of k (committed d (add_job_checked s now d)) = state_of k d \<or>
    lifecycle_edge (state_of k d) (state_of k (committed d (add_job_checked s now d)))"
proof -
  have "get_job d (jobs_seq d + 1) = None"
    using assms jt.fresh[of d] by (force simp: tables_ok_def get_job_None)
  then have "state_of k (insert_submission s now d) = state_of k d \<or>
      lifecycle_edge (state_of k d) (state_of k (insert_submission s now d))"
    using get_job_insert_job[OF assms, of "new_job s now" k]
    by (simp add: state_of_def insert_submission_def tab_simps) (simp add: new_job_def)
  then show ?thesis
    by (auto simp: committed_def add_job_checked_def and_then_def Let_def
        split: sum.splits option.splits if_splits)
qed

lemma edge_prune:
  assumes "set states \<subseteq> set PRUNABLE_STATES"
  shows "state_of k (snd (prune_delete ids states cutoff d)) = state_of k d \<or>
    lifecycle_edge (state_of k d) (state_of k (snd (prune_delete ids states cutoff d)))"
proof -
  have one: "state_of k (snd (prune_one states cutoff i (m, d))) = state_of k d \<or>
      state_of k (snd (prune_one states cutoff i (m, d))) = None \<and>
      lifecycle_edge (state_of k d) None" for i m d
    using assms by (cases m) (auto simp: prune_one_def Let_def tab_simps state_of_def prunable_def
        PRUNABLE_STATES_def split: option.split)
  have "state_of k (snd (fold (prune_one states cutoff) ids (m, d))) = state_of k d \<or>
      state_of k (snd (fold (prune_one states cutoff) ids (m, d))) = None \<and>
      lifecycle_edge (state_of k d) None" for m d
  proof (induction ids arbitrary: m d)
    case (Cons i ids)
    show ?case using Cons.IH[of "fst (prune_one states cutoff i (m, d))"
          "snd (prune_one states cutoff i (m, d))"] one[of i m d] by auto
  qed simp
  from this[of "(0, 0, 0)" d] show ?thesis by (auto simp: prune_delete_def)
qed

lemma edge_apply:
  assumes inv: "db_inv d" and "op_ok d x"
  shows "state_of k (apply_op x d) = state_of k d \<or>
    lifecycle_edge (state_of k d) (state_of k (apply_op x d))"
proof (cases x)
  case (Op_add s now)
  with edge_add[OF db_inv_tables[OF inv]] show ?thesis by simp
next
  case (Op_claim w p now out lane slots)
  obtain r d' where res: "claim_next w p now out lane slots d = (r, d')" by fastforce
  then have "state_of k d' = state_of k d \<or> lifecycle_edge (state_of k d) (state_of k d')"
    using db_inv_tables[OF inv]
  proof (cases rule: claim_next_cases)
    case (won row)
    have only: "only_job (j_id row) d d'"
      unfolding won(5) claim_row_def by (intro only_job_intros) simp_all
    show ?thesis
      by (rule edge_at[OF only]) (use won(3,4) in
        \<open>simp add: won(5) state_of_def claim_row_def tab_simps eligible_def
          lock_row_def\<close>)
  qed simp
  with Op_claim res show ?thesis by simp
next
  case (Op_heartbeat i w p now)
  have "get_job (update_jobs (owned_by i w p) (\<lambda>j. j\<lparr>j_heartbeat_at := Some now\<rparr>) d) k =
      map_option (\<lambda>j. if owned_by i w p j then j\<lparr>j_heartbeat_at := Some now\<rparr> else j) (get_job d k)"
    by (simp add: tab_simps)
  then show ?thesis unfolding Op_heartbeat
    by (cases "get_job d k") (simp_all add: update_heartbeat_def state_of_def)
next
  case (Op_success i att w p now)
  obtain r d' where res: "record_success i att w p now d = (r, d')" by fastforce
  then have "state_of k d' = state_of k d \<or> lifecycle_edge (state_of k d) (state_of k d')"
    using db_inv_tables[OF inv]
  proof (cases rule: record_success_cases)
    case (won j)
    have only: "only_job i d d'"
      unfolding won(4) using assms(2) Op_success
      by (intro only_job_intros) (auto simp: tab_simps owned_by_def names_attempt_def)
    show ?thesis
      by (rule edge_at[OF only]) (use won(1,2) in
        \<open>simp add: won(4) state_of_def tab_simps succeed_row_def owned_by_def\<close>)
  qed simp
  with Op_success res show ?thesis by simp
next
  case (Op_failure i att w p kind e err now reason)
  let ?r = "record_failure i att w p kind e err now reason d"
  have "state_of k d' = state_of k d \<or> lifecycle_edge (state_of k d) (state_of k d')"
    if "?r = Inr (v, d')" for v d'
    using that db_inv_tables[OF inv]
  proof (cases rule: record_failure_cases)
    case (won j st ev fr ns nr)
    have only: "only_job i d d'"
      unfolding won(7) recorded_failure_def Let_def using assms(2) Op_failure
      by (cases "ns = DEAD") (auto intro!: only_job_intros
          simp: tab_simps owned_by_def names_attempt_def)
    show ?thesis
      by (rule edge_at[OF only]) (use won(1,2) after_failure_cases[OF won(5)] in
        \<open>auto simp: won(7) recorded_failure_def Let_def state_of_def tab_simps
          fail_row_def owned_by_def\<close>)
  qed simp
  with committed_cases[of d ?r] Op_failure show ?thesis by auto
next
  case (Op_reap i pid cutoff now reaper)
  obtain r d' where res: "reap i pid cutoff now reaper d = (r, d')" by fastforce
  then have "state_of k d' = state_of k d \<or> lifecycle_edge (state_of k d) (state_of k d')"
    using db_inv_tables[OF inv]
  proof (cases rule: reap_cases)
    case (won j ns nr)
    have only: "only_job i d d'"
      unfolding won(5) reaped_def Let_def
      by (cases "ns = DEAD") (auto intro!: only_job_intros simp: tab_simps)
    show ?thesis
      by (rule edge_at[OF only]) (use won(1,2) get_job_id[OF won(1)] after_failure_cases[OF won(3)] in
        \<open>auto simp: won(5) reaped_def Let_def state_of_def tab_simps crash_row_def
          reapable_def\<close>)
  qed simp
  with Op_reap res show ?thesis by simp
next
  case (Op_retry i force now)
  have only: "only_job i d (requeue i f now d')" if "only_job i d d'" for f d'
    unfolding requeue_def using that by (intro only_job_intros) auto
  have "only_job i d (apply_op x d)"
    unfolding Op_retry
    by (auto simp: retry_job_def Let_def split: option.split intro!: only only_job_intros)
  then show ?thesis
    by (rule edge_at) (use get_job_id[of d i] db_inv_job[OF inv, of i] in
      \<open>auto simp: Op_retry retry_job_def Let_def requeue_def state_of_def tab_simps requeue_row_def
        job_ok_def finished_ok_def split: option.split intro!: edge_requeue\<close>)
next
  case (Op_cancel i allow now)
  have "only_job i d (apply_op x d)"
    unfolding Op_cancel
    by (auto simp: cancel_job_def split: option.split intro!: only_job_intros)
  then show ?thesis
    by (rule edge_at) (use get_job_id[of d i] in
      \<open>auto simp: Op_cancel cancel_job_def state_of_def tab_simps split: option.split\<close>)
next
  case (Op_prune ids states cutoff)
  with edge_prune assms(2) show ?thesis by simp
qed

interpretation lc: simulation store_init store_step db_inv "\<lambda>s. s = None" lifecycle_edge "state_of k"
  for k
  by unfold_locales
    (auto simp: store_init_def store_step_def state_of_def empty_db_def get_job_def
      dest: edge_apply[of _ _ k, unfolded state_of_def])

section \<open>What the tables keep\<close>

text \<open>
  \<open>grows keep d d'\<close>: sequences never move back, ids of new rows lie above them, and the events of \<open>d\<close>
  are kept in front of the new ones (all of them, when \<open>keep\<close>).
\<close>

definition grows :: "bool \<Rightarrow> db \<Rightarrow> db \<Rightarrow> bool" where
  "grows keep d d' \<longleftrightarrow> jobs_seq d \<le> jobs_seq d' \<and> evs_seq d \<le> evs_seq d' \<and>
     (\<forall>i. get_job d i = None \<longrightarrow> i \<le> jobs_seq d \<longrightarrow> get_job d' i = None) \<and>
     (\<exists>P es. evs d' = filter P (evs d) @ es \<and> (keep \<longrightarrow> P = (\<lambda>_. True)) \<and>
       (\<forall>e\<in>set es. evs_seq d < e_id e \<and> e_id e \<le> evs_seq d'))"

lemma grows_refl [simp]: "grows keep d d"
  unfolding grows_def by (intro conjI exI[of _ "\<lambda>_. True"] exI[of _ "[]"]) auto

lemma grows_trans:
  assumes "grows keep d d'" and "grows keep d' d''"
  shows "grows keep d d''"
proof -
  obtain P es where 1: "evs d' = filter P (evs d) @ es" "keep \<longrightarrow> P = (\<lambda>_. True)"
    "\<forall>e\<in>set es. evs_seq d < e_id e \<and> e_id e \<le> evs_seq d'"
    using assms(1) by (auto simp: grows_def)
  obtain Q es' where 2: "evs d'' = filter Q (evs d') @ es'" "keep \<longrightarrow> Q = (\<lambda>_. True)"
    "\<forall>e\<in>set es'. evs_seq d' < e_id e \<and> e_id e \<le> evs_seq d''"
    using assms(2) by (auto simp: grows_def)
  have "evs d'' = filter (\<lambda>e. P e \<and> Q e) (evs d) @ (filter Q es @ es')"
    by (simp add: 1(1) 2(1) conj_commute)
  moreover have "keep \<longrightarrow> (\<lambda>e. P e \<and> Q e) = (\<lambda>_. True)" using 1(2) 2(2) by auto
  moreover have "\<forall>e\<in>set (filter Q es @ es'). evs_seq d < e_id e \<and> e_id e \<le> evs_seq d''"
    using 1(3) 2(3) assms by (fastforce simp: grows_def)
  ultimately show ?thesis using assms unfolding grows_def by (meson order_trans)
qed

lemma grows_frame:
  assumes "jobs_seq d' = jobs_seq d" and "evs_seq d' = evs_seq d" and "evs d' = evs d"
    and "\<And>i. get_job d i = None \<Longrightarrow> get_job d' i = None"
  shows "grows keep d d'"
  unfolding grows_def
  by (intro conjI exI[of _ "\<lambda>_. True"] exI[of _ "[]"]) (use assms in auto)

lemma grows_update_jobs:
  "grows keep d d' \<Longrightarrow> (\<And>j. j_id (f j) = j_id j) \<Longrightarrow> grows keep d (update_jobs P f d')"
  by (erule grows_trans, rule grows_frame) (simp_all add: tab_simps)

lemma grows_update_attempts: "grows keep d d' \<Longrightarrow> grows keep d (update_attempts Pa fa d')"
  by (erule grows_trans, rule grows_frame) (simp_all add: tab_simps)

lemma grows_insert_attempt: "grows keep d d' \<Longrightarrow> grows keep d (insert_attempt mk d')"
  by (erule grows_trans, rule grows_frame) (simp_all add: tab_simps)

lemma grows_add_event: "grows keep d d' \<Longrightarrow> grows keep d (add_event k t ev w x d')"
proof (erule grows_trans)
  show "grows keep d' (add_event k t ev w x d')"
    unfolding grows_def
    by (intro conjI exI[of _ "\<lambda>_. True"] exI[of _ "[\<lparr>e_id = evs_seq d' + 1, e_job_id = k, e_at = t,
        e_event = ev, e_worker_id = w, e_detail = x\<rparr>]"])
      (auto simp: tab_simps, simp add: add_event_def insert_event_def)
qed

lemma grows_insert_submission:
  assumes "tables_ok d"
  shows "grows keep d (insert_submission s now d)"
proof -
  have "grows keep d (insert_job (new_job s now) d)"
    unfolding grows_def
    by (intro conjI exI[of _ "\<lambda>_. True"] exI[of _ "[]"])
      (use get_job_insert_job[OF assms, of "new_job s now"] in \<open>auto simp: insert_job_def\<close>)
  then show ?thesis unfolding insert_submission_def by (rule grows_add_event)
qed

lemma grows_prune_one: "grows False d (snd (prune_one states cutoff k (m, d)))"
proof -
  have "grows False d (delete_jobs (\<lambda>j. j_id j = k) (delete_events (\<lambda>e. e_job_id e = k)
      (delete_attempts (\<lambda>a. a_job_id a = k) d)))"
    unfolding grows_def
    by (intro conjI exI[of _ "\<lambda>e. e_job_id e \<noteq> k"] exI[of _ "[]"])
      (auto simp: tab_simps, auto simp: statement_defs)
  then show ?thesis by (cases m) (auto simp: prune_one_def Let_def split: option.split)
qed

lemma grows_prune: "grows False d (snd (prune_delete ids states cutoff d))"
proof -
  have "grows False d (snd (fold (prune_one states cutoff) ids (m, d)))" for m d
  proof (induction ids arbitrary: m d)
    case (Cons k ids)
    show ?case using grows_trans[OF grows_prune_one Cons.IH]
      by (metis fold_simps(2) prod.collapse)
  qed simp
  then show ?thesis by (simp add: prune_delete_def)
qed

lemmas grows_intros = grows_update_jobs grows_update_attempts grows_insert_attempt
  grows_add_event grows_refl

fun is_prune :: "store_op \<Rightarrow> bool" where
  "is_prune (Op_prune ids states cutoff) = True"
| "is_prune _ = False"

lemma grows_apply:
  assumes "tables_ok d"
  shows "grows (\<not> is_prune x) d (apply_op x d)"
proof (cases x)
  case (Op_add s now)
  then show ?thesis using grows_insert_submission[OF assms]
    by (auto simp: committed_def add_job_checked_def and_then_def Let_def
        split: sum.splits option.splits if_splits)
next
  case (Op_claim w p now out lane slots)
  obtain r d' where res: "claim_next w p now out lane slots d = (r, d')" by fastforce
  then have "grows True d d'" using assms
    by (cases rule: claim_next_cases) (auto simp: claim_row_def intro!: grows_intros)
  with Op_claim res show ?thesis by simp
next
  case (Op_failure i att w p kind e err now reason)
  let ?r = "record_failure i att w p kind e err now reason d"
  have "grows True d d'" if "?r = Inr (v, d')" for v d'
    using that assms
    by (cases rule: record_failure_cases)
      (auto simp: recorded_failure_def Let_def intro!: grows_intros)
  with committed_cases[of d ?r] Op_failure show ?thesis by auto
next
  case (Op_reap i pid cutoff now reaper)
  obtain r d' where res: "reap i pid cutoff now reaper d = (r, d')" by fastforce
  then have "grows True d d'" using assms
    by (cases rule: reap_cases) (auto simp: reaped_def Let_def intro!: grows_intros)
  with Op_reap res show ?thesis by simp
next
  case (Op_prune ids states cutoff)
  then show ?thesis by (simp add: grows_prune)
qed (auto simp: update_heartbeat_def record_success_def retry_job_def cancel_job_def requeue_def
    Let_def split: option.split intro!: grows_intros)

section \<open>Properties\<close>

text \<open>C3. The store refines the lifecycle: seen from any job, a write operation leaves its state alone
  or takes one edge of the lifecycle graph. So nothing runs that was not queued, only a running job
  becomes done or dead, only a queued or running one is canceled, and only a finished one loses its
  row.\<close>

theorem lifecycle_refinement:
  assumes "reachable d" and "op_ok d x"
  shows "state_of k (apply_op x d) = state_of k d \<or>
    lifecycle_edge (state_of k d) (state_of k (apply_op x d))"
  by (rule edge_apply[OF reachable_inv[OF assms(1)] assms(2)])

theorem lifecycle_refinement_witness:
  "lifecycle_edge (state_of 2 db_dead) (state_of 2 (apply_op (Op_retry 2 False 140) db_dead))"
proof -
  have "state_of 2 (apply_op (Op_retry 2 False 140) db_dead) \<noteq> state_of 2 db_dead" by code_simp
  then show ?thesis using lifecycle_refinement[of db_dead "Op_retry 2 False 140" 2] by simp
qed

lemma op_Some_None: "state_of k d = None \<longleftrightarrow> get_job d k = None"
  by (simp add: state_of_def)

lemma known_id: "tables_ok d \<Longrightarrow> get_job d k \<noteq> None \<Longrightarrow> k \<le> jobs_seq d"
  using get_job_Some[of d k] by (auto simp: tables_ok_def ids_ok_def)

text \<open>Success is final: once a job is done no sequence of operations runs it, requeues it or changes
  its state; its row can only be pruned, and its id is then never used again.\<close>

theorem done_is_final:
  assumes "reachable d" and "state_of k d = Some DONE" and "run_ops xs d = Some d'"
  shows "state_of k d' \<in> {Some DONE, None}"
proof -
  have "state_of k d' \<in> {Some DONE, None}"
    if "run_ops xs d = Some d'" "db_inv d" "state_of k d \<in> {Some DONE, None}" "k \<le> jobs_seq d"
    for xs d
    using that
  proof (induction xs d rule: run_ops.induct)
    case (2 x xs d)
    then have ok: "op_ok d x" and run: "run_ops xs (apply_op x d) = Some d'"
      by (auto split: if_splits)
    note grow = grows_apply[OF db_inv_tables[OF "2.prems"(2)], of x]
    have "state_of k (apply_op x d) \<in> {Some DONE, None}"
    proof (cases "state_of k d")
      case None
      with grow "2.prems"(4) show ?thesis by (auto simp: grows_def op_Some_None)
    next
      case (Some s)
      with "2.prems"(3) edge_apply[OF "2.prems"(2) ok, of k]
      show ?thesis by (cases "state_of k (apply_op x d)") auto
    qed
    moreover have "k \<le> jobs_seq (apply_op x d)"
      using grow "2.prems"(4) by (simp add: grows_def)
    ultimately show ?case
      using "2.IH"[OF ok run db_inv_apply[OF "2.prems"(2) ok]] by blast
  qed simp
  moreover have "k \<le> jobs_seq d"
    using assms(2) by (intro known_id[OF reachable_tables[OF assms(1)]]) (auto simp: state_of_def)
  ultimately show ?thesis using assms reachable_inv by blast
qed

definition done_ops :: "store_op list" where
  "done_ops = running_ops @ [Op_success 2 1 ''w1'' 7 103]"

theorem done_is_final_witness:
  "state_of 2 (demo_run (done_ops @ [Op_retry 2 False 110, Op_prune [2] [DONE] 200]))
     \<in> {Some DONE, None}"
proof (rule done_is_final)
  show "reachable (demo_run done_ops)" by (rule reachable_demo_run) code_simp
  show "state_of 2 (demo_run done_ops) = Some DONE" by code_simp
  have "run_ops [Op_retry 2 False 110, Op_prune [2] [DONE] 200] (demo_run done_ops) \<noteq> None"
    by code_simp
  from run_ops_fold[OF this]
  show "run_ops [Op_retry 2 False 110, Op_prune [2] [DONE] 200] (demo_run done_ops) =
      Some (demo_run (done_ops @ [Op_retry 2 False 110, Op_prune [2] [DONE] 200]))"
    by (simp add: demo_run_def)
qed

text \<open>The event ledger is append-only: every operation but prune keeps all events and adds new ones
  behind them, and the ids it gives them are above every id ever handed out, those of pruned events
  included, so a consumer's cursor never meets an id twice.\<close>

theorem ledger_append_only:
  assumes "reachable d" and "op_ok d x"
  shows "\<exists>P es. evs (apply_op x d) = filter P (evs d) @ es \<and> (\<not> is_prune x \<longrightarrow> P = (\<lambda>_. True))
    \<and> (\<forall>e\<in>set es. evs_seq d < e_id e) \<and> (\<forall>e\<in>set (evs d). e_id e \<le> evs_seq d)
    \<and> evs_seq d \<le> evs_seq (apply_op x d)"
proof -
  have "\<forall>e\<in>set (evs d). e_id e \<le> evs_seq d"
    using reachable_tables[OF assms(1)] by (simp add: tables_ok_def ids_ok_def)
  moreover obtain P es where "evs (apply_op x d) = filter P (evs d) @ es"
    "\<not> is_prune x \<longrightarrow> P = (\<lambda>_. True)" "\<forall>e\<in>set es. evs_seq d < e_id e"
    "evs_seq d \<le> evs_seq (apply_op x d)"
    using grows_apply[OF reachable_tables[OF assms(1)], of x] unfolding grows_def by blast
  ultimately show ?thesis by blast
qed

theorem ledger_append_only_witness:
  "evs_seq db_dead \<le> evs_seq (apply_op (Op_prune [2] [DEAD] 200) db_dead)
     \<and> evs (apply_op (Op_prune [2] [DEAD] 200) db_dead) \<noteq> []"
proof -
  have "evs (apply_op (Op_prune [2] [DEAD] 200) db_dead) \<noteq> []" by code_simp
  moreover have "op_ok db_dead (Op_prune [2] [DEAD] 200)" by code_simp
  ultimately show ?thesis using ledger_append_only[of db_dead "Op_prune [2] [DEAD] 200"] by auto
qed

section \<open>Enqueueing\<close>

lemma active_with_key_Some:
  assumes "active_with_key key d = Some row"
  shows "row \<in> set (jobs d)" and "j_idempotency_key row = Some key"
    and "j_state row \<in> {QUEUED, RUNNING}"
  using first_by_Some(1)[OF assms[unfolded active_with_key_def]] by auto

lemma active_with_key_None:
  "active_with_key key d = None \<longleftrightarrow>
     (\<forall>j\<in>set (jobs d). j_idempotency_key j = Some key \<longrightarrow> j_state j \<notin> {QUEUED, RUNNING})"
  by (auto simp: active_with_key_def filter_empty_conv)

text \<open>C25. Adding is idempotent per key: while a queued or running job holds the key, an add under it
  inserts nothing and answers with that job, as a duplicate if what would be executed is the same and
  as a conflict naming the differing fields if not. So an add never makes a second active job of a
  key: it inserts only when no active job has it.\<close>

theorem add_idempotent:
  assumes "s_idempotency_key s = Some key" and "add_job_checked s now d = Inr ((i, st, dup, info), d')"
  shows "((\<exists>j\<in>set (jobs d). j_id j = i \<and> j_state j = st \<and> j_idempotency_key j = Some key
        \<and> st \<in> {QUEUED, RUNNING}
        \<and> (dup \<longleftrightarrow> payload_diff (execution_payload_from_row j) (execution_payload (s_argv s)
            (s_timeout_seconds s) (s_max_retries s) (s_priority s) (s_queue s) (s_cwd s) (s_env s)
            (s_max_crashes s)) = []))
      \<and> d' = d)
    \<or> ((\<forall>j\<in>set (jobs d). j_idempotency_key j = Some key \<longrightarrow> j_state j \<notin> {QUEUED, RUNNING})
      \<and> i = jobs_seq d + 1 \<and> \<not> dup \<and> d' = insert_submission s now d)"
proof -
  have valid: "validate_execution_payload (s_max_crashes s) = Inr ()"
    using assms(2) by (auto simp: add_job_checked_def and_then_eq_Inr)
  note res = assms(2)[unfolded add_job_checked_def valid and_then_simps Let_def assms(1) option.case]
  show ?thesis
  proof (cases "active_with_key key d")
    case None
    with res have "i = jobs_seq d + 1 \<and> \<not> dup \<and> d' = insert_submission s now d" by simp
    with None show ?thesis unfolding active_with_key_None by (intro disjI2) simp
  next
    case (Some row)
    note row = active_with_key_Some[OF Some]
    have "i = j_id row \<and> st = j_state row \<and> d' = d \<and>
        (dup \<longleftrightarrow> payload_diff (execution_payload_from_row row) (execution_payload (s_argv s)
            (s_timeout_seconds s) (s_max_retries s) (s_priority s) (s_queue s) (s_cwd s) (s_env s)
            (s_max_crashes s)) = [])"
      using res unfolding Some option.case by (simp split: if_splits)
    with row show ?thesis by (intro disjI1 conjI bexI[of _ row]) blast+
  qed
qed

theorem add_idempotent_witness:
  "\<exists>d'. add_job_checked demo_sub 500 db_queued = Inr ((2, QUEUED, True, MetadataDifferences []), d')
     \<and> d' = db_queued"
proof -
  have "(case add_job_checked demo_sub 500 db_queued of Inr (r, d') \<Rightarrow>
      r = (2, QUEUED, True, MetadataDifferences []) | Inl e \<Rightarrow> False)" by code_simp
  then obtain d' where r: "add_job_checked demo_sub 500 db_queued =
      Inr ((2, QUEUED, True, MetadataDifferences []), d')" by (auto split: sum.splits)
  have "s_idempotency_key demo_sub = Some ''nightly''" by code_simp
  from add_idempotent[OF this r] r show ?thesis by auto
qed

end
