(* ===== verification/StoreQueries.thy ===== *)
theory StoreQueries
  imports StoreLifecycle
begin

text \<open>
  What adding, pruning and reading promise: a row reads back as it was submitted, a prune removes
  exactly the finished jobs it matched, and the counts, the drain test and the paged event ledger say
  what is in the tables.
\<close>

section \<open>Adding\<close>

lemma pval_eq_refl [simp]: "pval_eq v v"
  by (cases v) (simp_all add: dict_eq_def)

lemma payload_diff_Nil:
  "payload_diff p q = [] \<longleftrightarrow>
     (\<forall>k\<in>fst ` set p \<union> fst ` set q. pval_eq (payload_get p k) (payload_get q k))"
  by (auto simp: payload_diff_def filter_empty_conv)



section \<open>Pruning\<close>

definition pruned :: "int list \<Rightarrow> job_state list \<Rightarrow> pyfloat \<Rightarrow> db \<Rightarrow> int \<Rightarrow> bool" where
  "pruned ids states cutoff d i \<longleftrightarrow> i \<in> set ids \<and>
     (case get_job d i of None \<Rightarrow> False | Some j \<Rightarrow> prunable states cutoff j)"

lemma count_where_compl: "count_where P xs + int (length (filter (\<lambda>x. \<not> P x) xs)) = int (length xs)"
  by (induction xs) auto

lemma prune_one_pruned:
  assumes "pruned [k] states cutoff d k"
  shows "prune_one states cutoff k ((x, y, z), d) =
     ((x + count_where (\<lambda>j. j_id j = k) (jobs d), y + count_where (\<lambda>a. a_job_id a = k) (atts d),
       z + count_where (\<lambda>e. e_job_id e = k) (evs d)),
      delete_jobs (\<lambda>j. j_id j = k) (delete_events (\<lambda>e. e_job_id e = k)
        (delete_attempts (\<lambda>a. a_job_id a = k) d)))"
  using assms by (auto simp: pruned_def prune_one_def Let_def tab_simps split: option.splits)

lemma prune_one_kept:
  "\<not> pruned [k] states cutoff d k \<Longrightarrow> prune_one states cutoff k (n, d) = (n, d)"
  by (cases n) (auto simp: pruned_def prune_one_def split: option.splits)

lemma prune_fold:
  "fold (prune_one states cutoff) ids ((x, y, z), d) =
     ((x + count_where (\<lambda>j. pruned ids states cutoff d (j_id j)) (jobs d),
       y + count_where (\<lambda>a. pruned ids states cutoff d (a_job_id a)) (atts d),
       z + count_where (\<lambda>e. pruned ids states cutoff d (e_job_id e)) (evs d)),
      delete_jobs (\<lambda>j. pruned ids states cutoff d (j_id j))
        (delete_events (\<lambda>e. pruned ids states cutoff d (e_job_id e))
          (delete_attempts (\<lambda>a. pruned ids states cutoff d (a_job_id a)) d)))"
proof (induction ids arbitrary: x y z d)
  case Nil
  then show ?case by (simp add: pruned_def statement_defs count_where_eq_0)
next
  case (Cons k ids)
  show ?case
  proof (cases "pruned [k] states cutoff d k")
    case False
    then have "pruned (k # ids) states cutoff d = pruned ids states cutoff d"
      by (auto simp: pruned_def fun_eq_iff)
    with False show ?thesis by (simp add: prune_one_kept Cons.IH)
  next
    case True
    let ?d = "delete_jobs (\<lambda>j. j_id j = k) (delete_events (\<lambda>e. e_job_id e = k)
        (delete_attempts (\<lambda>a. a_job_id a = k) d))"
    let ?p = "pruned (k # ids) states cutoff d" and ?q = "pruned ids states cutoff ?d"
    have q: "?q i \<longleftrightarrow> i \<noteq> k \<and> ?p i" for i
      by (auto simp: pruned_def tab_simps)
    have p: "?p i \<longleftrightarrow> i = k \<or> ?q i" for i
      using True q by (auto simp: pruned_def)
    have split: "count_where (\<lambda>r. idf r = k) xs + count_where (\<lambda>r. ?q (idf r))
          (filter (\<lambda>r. idf r \<noteq> k) xs) = count_where (\<lambda>r. ?p (idf r)) xs"
      for idf :: "'r \<Rightarrow> int" and xs
      by (induction xs) (auto simp: p)
    have filt: "filter (\<lambda>r. \<not> ?q (idf r)) (filter (\<lambda>r. idf r \<noteq> k) xs) =
        filter (\<lambda>r. \<not> ?p (idf r)) xs" for idf :: "'r \<Rightarrow> int" and xs
      by (induction xs) (auto simp: p)
    have rows: "jobs ?d = filter (\<lambda>j. j_id j \<noteq> k) (jobs d)"
      "atts ?d = filter (\<lambda>a. a_job_id a \<noteq> k) (atts d)"
      "evs ?d = filter (\<lambda>e. e_job_id e \<noteq> k) (evs d)"
      by (simp_all add: statement_defs)
    have db: "delete_jobs (\<lambda>j. ?q (j_id j)) (delete_events (\<lambda>e. ?q (e_job_id e))
          (delete_attempts (\<lambda>a. ?q (a_job_id a)) ?d)) =
        delete_jobs (\<lambda>j. ?p (j_id j)) (delete_events (\<lambda>e. ?p (e_job_id e))
          (delete_attempts (\<lambda>a. ?p (a_job_id a)) d))"
      by (rule db.equality) (simp_all add: statement_defs p[unfolded statement_defs])
    show ?thesis
      unfolding fold.simps comp_def prune_one_pruned[OF True] Cons.IH[of _ _ _ ?d] rows db
      by (simp only: add.assoc split[of j_id "jobs d"] split[of a_job_id "atts d"]
          split[of e_job_id "evs d"])
  qed
qed

lemma prune_matches_ids:
  assumes "tables_ok d"
  shows "pruned (map pm_job_id (prune_matches states cutoff d)) states cutoff d i \<longleftrightarrow>
    (case get_job d i of None \<Rightarrow> False | Some j \<Rightarrow> prunable states cutoff j)"
  using get_job_iff[OF assms, of i]
  by (auto simp: pruned_def prune_matches_def Let_def comp_def split: option.splits)

text \<open>A prune deletes exactly the jobs it was given that are still in a matched state and still
  finished before the cutoff, each with all its attempts and events, and nothing else: a job retried
  in between keeps everything. The three numbers it returns are the rows removed.\<close>

theorem prune_exact:
  assumes "prune_delete ids states cutoff d = ((nj, na, ne), d')"
  shows "jobs d' = filter (\<lambda>j. \<not> pruned ids states cutoff d (j_id j)) (jobs d)
    \<and> atts d' = filter (\<lambda>a. \<not> pruned ids states cutoff d (a_job_id a)) (atts d)
    \<and> evs d' = filter (\<lambda>e. \<not> pruned ids states cutoff d (e_job_id e)) (evs d)
    \<and> nj = int (length (jobs d)) - int (length (jobs d'))
    \<and> na = int (length (atts d)) - int (length (atts d'))
    \<and> ne = int (length (evs d)) - int (length (evs d'))"
proof -
  let ?P = "pruned ids states cutoff d"
  from assms have res: "nj = count_where (\<lambda>j. ?P (j_id j)) (jobs d)"
    "na = count_where (\<lambda>a. ?P (a_job_id a)) (atts d)"
    "ne = count_where (\<lambda>e. ?P (e_job_id e)) (evs d)"
    "jobs d' = filter (\<lambda>j. \<not> ?P (j_id j)) (jobs d)"
    "atts d' = filter (\<lambda>a. \<not> ?P (a_job_id a)) (atts d)"
    "evs d' = filter (\<lambda>e. \<not> ?P (e_job_id e)) (evs d)"
    unfolding prune_delete_def prune_fold by (auto simp: statement_defs)
  show ?thesis
    unfolding res
    using count_where_compl[of "\<lambda>j. ?P (j_id j)" "jobs d"]
      count_where_compl[of "\<lambda>a. ?P (a_job_id a)" "atts d"]
      count_where_compl[of "\<lambda>e. ?P (e_job_id e)" "evs d"]
    by (intro conjI refl) linarith+
qed

theorem prune_exact_witness:
  "\<exists>d'. prune_delete [1, 2] [DEAD] 131 db_dead = ((1, 2, 6), d') \<and>
     jobs d' = filter (\<lambda>j. \<not> pruned [1, 2] [DEAD] 131 db_dead (j_id j)) (jobs db_dead)"
proof -
  have "fst (prune_delete [1, 2] [DEAD] 131 db_dead) = (1, 2, 6)" by code_simp
  then obtain d' where r: "prune_delete [1, 2] [DEAD] 131 db_dead = ((1, 2, 6), d')"
    by (cases "prune_delete [1, 2] [DEAD] 131 db_dead") auto
  from prune_exact[OF r] r show ?thesis by blast
qed

lemma count_children:
  assumes "tables_ok d" and "\<And>r. r \<in> set xs \<Longrightarrow> get_job d (owner r) \<noteq> None"
  shows "(\<Sum>j\<leftarrow>sort_key j_id (filter Q (jobs d)). count_where (\<lambda>r. owner r = j_id j) xs) =
    count_where (\<lambda>r. case get_job d (owner r) of None \<Rightarrow> False | Some j \<Rightarrow> Q j) xs"
proof -
  let ?js = "filter Q (jobs d)"
  have dist: "distinct (map j_id ?js)"
    using assms(1) by (intro ascending_distinct ascending_filter) (simp add: tables_ok_def ids_ok_def)
  have "sort_key j_id ?js = ?js"
    using assms(1) by (intro ascending_sort_key ascending_filter) (simp add: tables_ok_def ids_ok_def)
  then have "(\<Sum>j\<leftarrow>sort_key j_id ?js. count_where (\<lambda>r. owner r = j_id j) xs) =
      (\<Sum>i\<leftarrow>map j_id ?js. count_where (\<lambda>r. owner r = i) xs)" by (simp add: comp_def)
  also have "\<dots> = (\<Sum>i\<in>j_id ` set ?js. count_where (\<lambda>r. owner r = i) xs)"
    using sum_list_distinct_conv_sum_set[OF dist, of "\<lambda>i. count_where (\<lambda>r. owner r = i) xs"]
    by (simp only: set_map)
  also have "\<dots> = (\<Sum>i\<in>j_id ` set ?js. count_where (\<lambda>r. (case get_job d (owner r) of
      None \<Rightarrow> False | Some j \<Rightarrow> Q j) \<and> owner r = i) xs)"
  proof (intro sum.cong refl count_where_cong)
    fix i r assume "i \<in> j_id ` set ?js"
    then obtain j where "get_job d i = Some j" "Q j" using get_job_iff[OF assms(1)] by force
    then show "owner r = i \<longleftrightarrow> (case get_job d (owner r) of None \<Rightarrow> False | Some j \<Rightarrow> Q j) \<and> owner r = i"
      by auto
  qed
  also have "\<dots> = count_where (\<lambda>r. case get_job d (owner r) of None \<Rightarrow> False | Some j \<Rightarrow> Q j) xs"
    using get_job_Some by (intro count_where_split) (force split: option.splits)+
  finally show ?thesis .
qed

lemma reachable_owner:
  assumes "reachable d"
  shows "a \<in> set (atts d) \<Longrightarrow> get_job d (a_job_id a) \<noteq> None"
    and "e \<in> set (evs d) \<Longrightarrow> get_job d (e_job_id e) \<noteq> None"
proof -
  have none: "atts_of d i = [] \<and> evs_of d i = []" if "get_job d i = None" for i
    using db_inv_view[OF reachable_inv[OF assms], of i] that by simp
  show "get_job d (a_job_id a) \<noteq> None" if "a \<in> set (atts d)"
    using none[of "a_job_id a"] in_atts_of[of a d "a_job_id a"] that by (metis empty_iff list.set(1))
  show "get_job d (e_job_id e) \<noteq> None" if "e \<in> set (evs d)"
    using none[of "e_job_id e"] in_evs_of[of e d "e_job_id e"] that by (metis empty_iff list.set(1))
qed

text \<open>C31. The dry run predicts the prune: deleting the jobs \<open>prune_matches\<close> lists removes as many jobs,
  attempts and events as it announced.\<close>

theorem dry_run_predicts:
  assumes "reachable d"
  shows "fst (prune_delete (map pm_job_id (prune_matches states cutoff d)) states cutoff d) =
     (int (length (prune_matches states cutoff d)),
      sum_list (map pm_n_attempts (prune_matches states cutoff d)),
      sum_list (map pm_n_events (prune_matches states cutoff d)))"
proof -
  note ok = reachable_tables[OF assms]
  let ?pr = "prunable states cutoff"
  have len: "length (filter (\<lambda>j. case get_job d (j_id j) of None \<Rightarrow> False | Some j \<Rightarrow> ?pr j) (jobs d)) =
      length (filter ?pr (jobs d))"
  proof (intro arg_cong[of _ _ length] filter_cong refl)
    fix j assume "j \<in> set (jobs d)"
    then have "get_job d (j_id j) = Some j" by (simp add: get_job_iff[OF ok])
    then show "(case get_job d (j_id j) of None \<Rightarrow> False | Some j \<Rightarrow> ?pr j) = ?pr j" by simp
  qed
  have at: "int (length (atts_of d k)) = count_where (\<lambda>a. a_job_id a = k) (atts d)"
    "int (length (evs_of d k)) = count_where (\<lambda>e. e_job_id e = k) (evs d)" for k
    by (simp_all add: atts_of_def evs_of_def count_where_def)
  have "sum_list (map pm_n_attempts (prune_matches states cutoff d)) =
      count_where (\<lambda>a. case get_job d (a_job_id a) of None \<Rightarrow> False | Some j \<Rightarrow> ?pr j) (atts d)"
    using count_children[OF ok, of "atts d" a_job_id ?pr, OF reachable_owner(1)[OF assms]]
    by (simp add: prune_matches_def Let_def comp_def at)
  moreover have "sum_list (map pm_n_events (prune_matches states cutoff d)) =
      count_where (\<lambda>e. case get_job d (e_job_id e) of None \<Rightarrow> False | Some j \<Rightarrow> ?pr j) (evs d)"
    using count_children[OF ok, of "evs d" e_job_id ?pr, OF reachable_owner(2)[OF assms]]
    by (simp add: prune_matches_def Let_def comp_def at)
  moreover have "length (prune_matches states cutoff d) = length (filter ?pr (jobs d))"
    by (simp add: prune_matches_def)
  ultimately show ?thesis
    unfolding prune_delete_def prune_fold prune_matches_ids[OF ok] using len
    by (simp add: count_where_def)
qed

theorem dry_run_predicts_witness:
  "fst (prune_delete [2] [DEAD] 131 db_dead) = (1, 2, 6)"
proof -
  have "prune_matches [DEAD] 131 db_dead = [\<lparr>pm_job_id = 2, pm_n_attempts = 2, pm_n_events = 6,
      pm_paths = [(''out/2/1/stdout'', ''out/2/1/stderr''), (''out/2/2/stdout'', ''out/2/2/stderr'')]\<rparr>]"
    by code_simp
  then show ?thesis using dry_run_predicts[of db_dead "[DEAD]" 131] by simp
qed

section \<open>Reading\<close>

text \<open>The status page counts what is there: the fold over the grouped rows gives, for every state
  and for every queue and state, the number of such jobs (zero included), the delayed jobs per queue
  and in all, an entry for exactly the queues that hold a job, and counts that sum to the jobs.\<close>

theorem status_counts_exact:
  "queues_as_map (status_counts now d) =
     (\<lambda>s. count_where (\<lambda>j. j_state j = s) (jobs d), count_where (is_scheduled now) (jobs d),
      \<lambda>q. if q \<in> j_queue ` set (jobs d) then Some
         \<lparr>qs_counts = \<lambda>s. count_where (\<lambda>j. j_queue j = q \<and> j_state j = s) (jobs d),
          qs_scheduled = count_where (\<lambda>j. j_queue j = q \<and> is_scheduled now j) (jobs d)\<rparr>
        else None)
   \<and> sum_list (map (fst (status_counts now d)) JOB_STATES) = int (length (jobs d))"
proof
  show eq: "queues_as_map (status_counts now d) =
     (\<lambda>s. count_where (\<lambda>j. j_state j = s) (jobs d), count_where (is_scheduled now) (jobs d),
      \<lambda>q. if q \<in> j_queue ` set (jobs d) then Some
         \<lparr>qs_counts = \<lambda>s. count_where (\<lambda>j. j_queue j = q \<and> j_state j = s) (jobs d),
          qs_scheduled = count_where (\<lambda>j. j_queue j = q \<and> is_scheduled now j) (jobs d)\<rparr>
        else None)" by (rule status_counts_eq)
  have "(\<Sum>s\<in>set JOB_STATES. count_where (\<lambda>j. True \<and> j_state j = s) (jobs d)) =
      count_where (\<lambda>_. True) (jobs d)"
    by (rule count_where_split) (auto simp: all_job_states)
  moreover have counts: "fst (status_counts now d) = (\<lambda>s. count_where (\<lambda>j. j_state j = s) (jobs d))"
    using eq by (auto simp: queues_as_map_def split: prod.splits)
  ultimately show "sum_list (map (fst (status_counts now d)) JOB_STATES) = int (length (jobs d))"
    unfolding counts sum_list_distinct_conv_sum_set[OF distinct_JOB_STATES]
    by (simp add: count_where_def)
qed

text \<open>The drain test is right both ways: when nothing holds the lane open, no job of it is running
  and a claim finds nothing; when something does, a job of the lane is running or a claim, now or at
  some later time, takes one.\<close>

theorem drain_test:
  assumes "reachable d"
  shows "(unsettled_count lane now d = 0 \<longrightarrow> running_in_lane lane d = 0
      \<and> fst (claim_next w p now out lane slots d) = None)
    \<and> (unsettled_count lane now d \<noteq> 0 \<longrightarrow> running_in_lane lane d \<noteq> 0
      \<or> (\<exists>t\<ge>now. fst (claim_next w p t out lane None d) \<noteq> None))"
proof -
  have claim: "fst (claim_next w p t out lane sl d) = None \<longleftrightarrow>
      slots_full sl lane d \<or> (\<forall>j\<in>set (jobs d). \<not> eligible t lane j)" for t sl
  proof -
    obtain r d' where res: "claim_next w p t out lane sl d = (r, d')" by fastforce
    then show ?thesis using reachable_tables[OF assms]
      by (cases rule: claim_next_cases) (auto simp: res dest: get_job_Some)
  qed
  have none: "running_in_lane lane d = 0 \<and> fst (claim_next w p now out lane slots d) = None"
    if "unsettled_count lane now d = 0"
    using that unfolding claim
    by (fastforce simp: unsettled_count_def running_in_lane_def count_where_eq_0 holds_drain_def
        eligible_def)
  have some: "running_in_lane lane d \<noteq> 0 \<or> (\<exists>t\<ge>now. fst (claim_next w p t out lane None d) \<noteq> None)"
    if "unsettled_count lane now d \<noteq> 0"
  proof -
    from that obtain j where j: "j \<in> set (jobs d)" "holds_drain lane now j"
      by (auto simp: unsettled_count_def count_where_eq_0)
    show ?thesis
    proof (cases "j_state j = RUNNING")
      case True
      with j show ?thesis by (auto simp: running_in_lane_def count_where_eq_0 holds_drain_def)
    next
      case False
      with j have "eligible (max now (j_next_run_at j)) lane j"
        by (auto simp: holds_drain_def eligible_def)
      with j(1) have "fst (claim_next w p (max now (j_next_run_at j)) out lane None d) \<noteq> None"
        unfolding claim by (auto simp: slots_full_def)
      moreover have "now \<le> max now (j_next_run_at j)" by simp
      ultimately show ?thesis by blast
    qed
  qed
  from none some show ?thesis by blast
qed

theorem drain_test_witness: "fst (claim_next ''w1'' 7 99 ''out'' ''gpu'' None db_running) = None"
proof -
  have "unsettled_count ''gpu'' 99 db_running = 0" by code_simp
  then show ?thesis using drain_test[of db_running "''gpu''" 99 "''w1''" 7 "''out''" None] by simp
qed

text \<open>A reader of the event ledger who moves its cursor to the last id it was given loses nothing
  and sees nothing twice, whatever page size it uses and whatever writers append between its reads:
  what it was given is exactly the part of the stream between its first and last cursor, in order,
  and an empty page means it has caught up.\<close>

theorem event_cursor_complete:
  assumes "poll (\<lambda>s d. list_events s job_id (int limit) d) e_id ds since = (out, c)"
    and "ds \<noteq> []" and "\<forall>d\<in>set ds. reachable d"
    and "sorted_wrt (\<lambda>d d'. \<exists>es. evs d' = evs d @ es) ds"
  shows "out = filter (\<lambda>e. in_stream job_id e \<and> since < e_id e \<and> e_id e \<le> c) (evs (last ds))
    \<and> (list_events c job_id (int limit) (last ds) = [] \<longrightarrow>
        out = filter (\<lambda>e. in_stream job_id e \<and> since < e_id e) (evs (last ds)))"
proof -
  let ?S = "\<lambda>d. filter (in_stream job_id) (evs d)"
  have ok: "\<forall>d\<in>set ds. tables_ok d" using assms(3) reachable_tables by blast
  have "sorted_wrt (\<lambda>d d'. \<exists>es. ?S d' = ?S d @ es) ds"
    by (rule sorted_wrt_mono_rel[OF _ assms(4)]) auto
  from ep.poll_contiguous[OF assms(1,2) ok this]
  have le: "since \<le> c" and out: "out = filter (\<lambda>e. since < e_id e \<and> e_id e \<le> c) (?S (last ds))"
    by simp_all
  have "out = filter (\<lambda>e. since < e_id e) (?S (last ds))"
    if "list_events c job_id (int limit) (last ds) = []"
  proof -
    have "filter (\<lambda>e. c < e_id e) (?S (last ds)) = []"
      using ep.caught_up[of "last ds" c job_id limit] that ok assms(2) by simp
    then show ?thesis unfolding out
      by (intro filter_cong refl) (auto simp: filter_empty_conv not_less)
  qed
  then show ?thesis unfolding out by (simp add: conj_commute)
qed

theorem event_cursor_complete_witness:
  "map e_id (fst (poll (\<lambda>s d. list_events s (Some 2) (int 2) d) e_id [db_running, db_dead] 0))
     = [2, 3, 4, 5]"
proof -
  let ?r = "poll (\<lambda>s d. list_events s (Some 2) (int 2) d) e_id [db_running, db_dead] 0"
  have ext: "\<exists>es. evs d' = evs d @ es" if "take (length (evs d)) (evs d') = evs d" for d d'
    by (metis append_take_drop_id that)
  have "take (length (evs db_running)) (evs db_dead) = evs db_running" by code_simp
  then have "fst ?r = filter (\<lambda>e. in_stream (Some 2) e \<and> 0 < e_id e \<and> e_id e \<le> snd ?r) (evs db_dead)"
    using event_cursor_complete[of "Some 2" 2 "[db_running, db_dead]" 0 "fst ?r" "snd ?r"]
    by (auto intro!: ext)
  moreover have "snd ?r = 5" by code_simp
  moreover have "map e_id (filter (\<lambda>e. in_stream (Some 2) e \<and> 0 < e_id e \<and> e_id e \<le> 5) (evs db_dead))
      = [2, 3, 4, 5]" by code_simp
  ultimately show ?thesis by simp
qed

end
