(* ===== verification/Validation.thy ===== *)
theory Validation
  imports Models
begin

text \<open>
  \<open>spoolctl/validation.py\<close>: the parsers of command line values. Each returns the value or raises; the
  error is \<open>INVALID_INPUT\<close> with exit code 1 and, where the code gives one, a suggestion. Two things come
  from outside: the process's current directory (\<open>getcwd\<close>), and the ISO-8601 reader of \<open>--at\<close>
  (\<open>fromiso\<close>: \<open>datetime.fromisoformat\<close> followed by \<open>timestamp()\<close> in the caller's time zone, \<open>None\<close> where
  the former raises \<open>ValueError\<close>).
\<close>

section \<open>float() and os.path\<close>

definition lower :: "char \<Rightarrow> char" where
  "lower c = (if 65 \<le> ord c \<and> ord c \<le> 90 then char_of (ord c + 32) else c)"

definition underscores_ok :: "string \<Rightarrow> bool" where
  \<comment> \<open>an underscore only between two digits\<close>
  "underscores_ok s \<longleftrightarrow> list_all (\<lambda>i. s ! i = CHR ''_'' \<longrightarrow>
     0 < i \<and> i + 1 < length s \<and> is_digit (s ! (i - 1)) \<and> is_digit (s ! (i + 1))) [0..<length s]"

definition mantissa :: "string \<Rightarrow> string" where
  "mantissa u = takeWhile (\<lambda>c. c \<noteq> CHR ''e'' \<and> c \<noteq> CHR ''E'') u"

definition exponent :: "string \<Rightarrow> string" where
  \<comment> \<open>the exponent mark and what follows it\<close>
  "exponent u = dropWhile (\<lambda>c. c \<noteq> CHR ''e'' \<and> c \<noteq> CHR ''E'') u"

definition py_float :: "string \<Rightarrow> py_float_val option" where
  \<comment> \<open>\<open>float(text)\<close>; \<open>None\<close> is \<open>ValueError\<close>, \<open>Infinite\<close> either infinity\<close>
  "py_float raw = (let s = strip raw; t = filter (\<lambda>c. c \<noteq> CHR ''_'') s; u = unsign t;
       low = map lower u; m = mantissa u; x = of_int (sign_of t) * decimal_val m
     in if \<not> underscores_ok s then None
        else if low = ''inf'' \<or> low = ''infinity'' then Some Infinite
        else if low = ''nan'' then Some NaN
        else if \<not> DECIMAL_RE m then None
        else (case exponent u of
            [] \<Rightarrow> Some (to_float x)
          | _ # e \<Rightarrow> if INT_RE e
              then Some (to_float (x * 10 powi (sign_of e * int (digits_val (unsign e)))))
              else None))"

definition norm_step :: "bool \<Rightarrow> string \<Rightarrow> string list \<Rightarrow> string list" where
  \<comment> \<open>one component of \<open>normpath\<close>, the kept ones in reverse\<close>
  "norm_step rooted part new =
     (if part = [] \<or> part = ''.'' then new
      else if part \<noteq> ''..'' \<or> (\<not> rooted \<and> new = []) \<or> (new \<noteq> [] \<and> hd new = ''..'') then part # new
      else tl new)"

definition normpath :: "string \<Rightarrow> string" where
  "normpath p = (if p = [] then ''.'' else
     let slashes = (if starts_with ''//'' p \<and> \<not> starts_with ''///'' p then ''//''
           else if starts_with ''/'' p then ''/'' else []);
         comps = rev (fold (norm_step (slashes \<noteq> [])) (split_on (CHR ''/'') p) []);
         q = slashes @ join_with ''/'' comps
     in if q = [] then ''.'' else q)"

definition abspath :: "string \<Rightarrow> string \<Rightarrow> string" where
  "abspath getcwd p = normpath (if isabs p then p else path_join getcwd p)"

section \<open>Parsers\<close>

definition invalid :: "py_exn + 'a" where
  "invalid = Inl (CliError (cli_error INVALID_INPUT))"

definition invalid_hint :: "string option \<Rightarrow> py_exn + 'a" where
  \<comment> \<open>with a \<open>did_you_mean\<close>\<close>
  "invalid_hint d = Inl (CliError (cli_error_with INVALID_INPUT EXIT_INPUT d))"

definition normalize_key :: "string option \<Rightarrow> py_exn + string option" where
  "normalize_key raw = (case raw of None \<Rightarrow> Inr None | Some r \<Rightarrow>
     let key = strip r
     in if key = [] then invalid
        else if length key > 256 then invalid
        else if \<not> list_all is_printable key then invalid
        else Inr (Some key))"

datatype raw_int = IsInt int | IntText string

definition parse_int_bound :: "int \<Rightarrow> int \<Rightarrow> raw_int \<Rightarrow> py_exn + int" where
  "parse_int_bound minimum maximum raw =
     and_then (case raw of
         IsInt v \<Rightarrow> Inr v
       | IntText s \<Rightarrow> if \<not> INT_RE s then invalid
           else (case int_of_str s of None \<Rightarrow> Inl ValueError | Some v \<Rightarrow> Inr v))
       (\<lambda>value. if value < minimum \<or> value > maximum then invalid else Inr value)"

datatype raw_float = IsFloat py_float_val | FloatText string

definition parse_positive_float :: "pyfloat \<Rightarrow> raw_float \<Rightarrow> py_exn + pyfloat" where
  "parse_positive_float maximum raw =
     (case (case raw of IsFloat v \<Rightarrow> Some v | FloatText s \<Rightarrow> py_float s) of
        None \<Rightarrow> invalid
      | Some (Finite value) \<Rightarrow>
          if value \<le> 0 then invalid else if value > maximum then invalid else Inr value
      | Some _ \<Rightarrow> invalid)"

definition parse_tag_key :: "string \<Rightarrow> py_exn + string" where
  "parse_tag_key raw = (if raw = [] \<or> \<not> TAG_KEY_RE raw then invalid
     else if length raw > 128 then invalid else Inr raw)"

definition add_tag :: "string \<Rightarrow> pydict \<Rightarrow> py_exn + pydict" where
  \<comment> \<open>one pass of the loop\<close>
  "add_tag raw tags = (if CHR ''='' \<notin> set raw then invalid else
     let (key, value) = split_eq raw
     in and_then (parse_tag_key key) (\<lambda>key.
        if map_of tags key \<noteq> None then invalid
        else if length value > 1024 then invalid
        else Inr (dict_set tags key value)))"

fun each :: "('r \<Rightarrow> 's \<Rightarrow> 'e + 's) \<Rightarrow> 'r list \<Rightarrow> 's \<Rightarrow> 'e + 's" where
  \<comment> \<open>a \<open>for\<close> loop whose body may raise\<close>
  "each body [] s = Inr s"
| "each body (r # rs) s = and_then (body r s) (each body rs)"

definition parse_add_tags :: "string list \<Rightarrow> py_exn + pydict" where
  "parse_add_tags raw_tags = (if length raw_tags > 16 then invalid else each add_tag raw_tags [])"

definition add_env :: "string \<Rightarrow> pydict \<Rightarrow> py_exn + pydict" where
  "add_env raw env = (if CHR ''='' \<notin> set raw then invalid_hint (Some ''K=V'') else
     let (key, value) = split_eq raw
     in if key = [] then invalid_hint (Some ''K=V'')
        else if length key > MAX_ENV_KEY_CHARS then invalid_hint (Some ''K=V'')
        else if length value > MAX_ENV_VALUE_CHARS then invalid_hint (Some ''K=V'')
        else if NUL \<in> set key \<or> NUL \<in> set value then invalid_hint (Some ''K=V'')
        else Inr (dict_set env key value))"

definition parse_job_env :: "string list \<Rightarrow> py_exn + pydict" where
  "parse_job_env raw_env = each add_env raw_env []"

definition parse_job_cwd :: "string \<Rightarrow> string option \<Rightarrow> string option \<Rightarrow> py_exn + string option" where
  "parse_job_cwd getcwd base raw = (case raw of None \<Rightarrow> Inr None | Some r \<Rightarrow>
     if r = [] then invalid
     else if NUL \<in> set r then invalid
     else if length r > MAX_PATH_CHARS then invalid
     else let root = (case base of None \<Rightarrow> getcwd | Some b \<Rightarrow> b);
              path = (if isabs r then r else path_join root r)
          in Inr (Some (abspath getcwd path)))"

definition parse_worker_id :: "string option \<Rightarrow> py_exn + string option" where
  "parse_worker_id raw = (case raw of None \<Rightarrow> Inr None | Some r \<Rightarrow>
     if r = [] then invalid
     else if length r > MAX_WORKER_ID_CHARS then invalid
     else if \<not> list_all is_printable r then invalid
     else Inr (Some r))"

fun parse_list_tags :: "string list \<Rightarrow> py_exn + (string \<times> string option) list" where
  "parse_list_tags [] = Inr []"
| "parse_list_tags (raw # raws) =
     (let (key, value) = (if CHR ''='' \<in> set raw
         then (fst (split_eq raw), Some (snd (split_eq raw))) else (raw, None))
      in and_then (parse_tag_key key) (\<lambda>k. and_then (parse_list_tags raws) (\<lambda>ps.
           Inr ((k, value) # ps))))"

definition finite_decimal :: "bool \<Rightarrow> string \<Rightarrow> py_exn + pyfloat" where
  "finite_decimal signed raw =
     (if \<not> (if signed then SIGNED_DECIMAL_RE raw else DECIMAL_RE raw) then invalid
      else case py_float raw of
          Some (Finite value) \<Rightarrow> Inr value
        | Some _ \<Rightarrow> invalid
        | None \<Rightarrow> Inl ValueError)"

definition multipliers :: "(string \<times> pyfloat) list" where
  "multipliers = [(''s'', 1), (''m'', 60), (''h'', 3600), (''d'', 86400)]"

definition parse_duration_seconds :: "string \<Rightarrow> py_exn + pyfloat" where
  "parse_duration_seconds raw =
     (let unit = (if raw = [] then [] else [last raw]);
          scaled = (\<lambda>number multiplier. and_then (finite_decimal False number) (\<lambda>n.
            case to_float (n * multiplier) of
              Finite seconds \<Rightarrow> if seconds > MAX_DURATION_SECONDS then invalid else Inr seconds
            | _ \<Rightarrow> invalid))
      in if unit \<noteq> [] \<and> list_all is_alpha unit
         then (case map_of multipliers unit of
             None \<Rightarrow> invalid
           | Some multiplier \<Rightarrow> scaled (butlast raw) multiplier)
         else scaled raw 1)"

definition parse_after :: "string \<Rightarrow> py_exn + pyfloat" where
  "parse_after raw = parse_duration_seconds raw"

definition parse_at :: "(string \<Rightarrow> pyfloat option) \<Rightarrow> string \<Rightarrow> py_exn + pyfloat" where
  "parse_at fromiso raw = (if SIGNED_DECIMAL_RE raw
     then and_then (finite_decimal True raw) (\<lambda>value.
       if \<bar>value\<bar> > MAX_DURATION_SECONDS then invalid else Inr value)
     else
       let text = (if raw \<noteq> [] \<and> last raw = CHR ''Z'' then butlast raw @ ''+00:00'' else raw)
       in case fromiso text of
            None \<Rightarrow> invalid
          | Some value \<Rightarrow> if \<bar>value\<bar> > MAX_DURATION_SECONDS then invalid else Inr value)"

definition parse_priority :: "raw_int \<Rightarrow> py_exn + int" where
  "parse_priority raw = parse_int_bound PRIORITY_MIN PRIORITY_MAX raw"

definition parse_queue :: "string \<Rightarrow> py_exn + string" where
  "parse_queue raw = (if strip raw \<noteq> raw then invalid
     else if \<not> (1 \<le> length raw \<and> length raw \<le> 64) \<or> \<not> QUEUE_RE raw then invalid
     else Inr raw)"

definition validate_positive_float_env ::
  "string \<Rightarrow> (string \<Rightarrow> string option) \<Rightarrow> py_exn + unit" where
  "validate_positive_float_env name env = (case env name of None \<Rightarrow> Inr ()
     | Some raw \<Rightarrow> and_then (parse_positive_float MAX_WAIT_SECONDS (FloatText raw)) (\<lambda>_. Inr ()))"

definition state_named :: "job_state list \<Rightarrow> string \<Rightarrow> job_state option" where
  "state_named states tok = find (\<lambda>s. job_state_name s = tok) states"

fun parse_state_tokens :: "job_state list \<Rightarrow> string list \<Rightarrow> py_exn + job_state list" where
  \<comment> \<open>the loop the two state parsers share\<close>
  "parse_state_tokens states [] = Inr []"
| "parse_state_tokens states (t # ts) = (let tok = strip t
     in case state_named states tok of
          None \<Rightarrow> invalid_hint (suggest tok (map job_state_name states))
        | Some s \<Rightarrow> and_then (parse_state_tokens states ts) (\<lambda>ss. Inr (s # ss)))"

definition parse_states :: "string option \<Rightarrow> py_exn + job_state list option" where
  "parse_states raw = (case raw of None \<Rightarrow> Inr None | Some r \<Rightarrow>
     and_then (parse_state_tokens JOB_STATES (split_on (CHR '','') r)) (\<lambda>ss. Inr (Some ss)))"

definition job_id_arg :: "string \<Rightarrow> py_exn + int" where
  "job_id_arg raw = parse_int_bound 1 SQLITE_INT64_MAX (IntText raw)"

definition parse_duration :: "string \<Rightarrow> py_exn + pyfloat" where
  "parse_duration raw = parse_duration_seconds raw"

definition parse_prune_states :: "string \<Rightarrow> py_exn + job_state list" where
  "parse_prune_states raw = parse_state_tokens PRUNABLE_STATES (split_on (CHR '','') raw)"

section \<open>What the parsers promise\<close>

lemma published_invalid:
  "invalid = (Inl e :: py_exn + 'a) \<Longrightarrow> published e"
  "invalid_hint d = (Inl e :: py_exn + 'a) \<Longrightarrow> published e"
  by (auto simp: invalid_def invalid_hint_def)

lemma not_Inr_invalid [simp]:
  "invalid \<noteq> Inr v" "invalid_hint d \<noteq> Inr v" "Inr v \<noteq> invalid" "Inr v \<noteq> invalid_hint d"
  by (simp_all add: invalid_def invalid_hint_def)

named_theorems parser_defs

declare normalize_key_def [parser_defs] parse_tag_key_def [parser_defs] add_tag_def [parser_defs]
  add_env_def [parser_defs] parse_job_cwd_def [parser_defs] parse_worker_id_def [parser_defs]
  parse_queue_def [parser_defs] parse_positive_float_def [parser_defs]

lemma py_float_decimal:
  assumes "DECIMAL_RE s"
  shows "py_float s = Some (to_float (decimal_val s))"
proof -
  have chars: "is_digit c \<or> c = CHR ''.''" if "c \<in> set s" for c
  proof -
    have "s = int_part s @ frac_part s" by (simp add: int_part_def frac_part_def)
    then have "c \<in> set (int_part s) \<or> c \<in> set (frac_part s)" using that by (metis Un_iff set_append)
    then show ?thesis
    proof
      assume "c \<in> set (int_part s)"
      then show ?thesis by (auto simp: int_part_def dest: set_takeWhileD)
    next
      assume "c \<in> set (frac_part s)"
      then show ?thesis using assms
        by (auto simp: DECIMAL_RE_def all_digits_def list_all_iff split: list.splits)
    qed
  qed
  have bad: "\<not> is_digit x \<and> x \<noteq> CHR ''.''" if "x \<in> set ''_eE+-nI '' \<or> is_space x" for x
    using that by (auto simp: is_digit_def is_space_def)
  have ne: "s \<noteq> []" using assms by (auto simp: DECIMAL_RE_def frac_part_def int_part_def)
  have keep: "filter (\<lambda>c. c \<noteq> CHR ''_'') s = s"
    using chars bad[of "CHR ''_''"] by (intro filter_True) auto
  have str: "strip s = s"
  proof -
    have sp: "\<not> is_space c" if "c \<in> set s" for c using chars[OF that] bad[of c] by auto
    then have "dropWhile is_space s = s" "dropWhile is_space (rev s) = rev s"
      using ne by (simp_all add: dropWhile_eq_self_iff hd_rev)
    then show ?thesis by (simp add: strip_def)
  qed
  have uns: "unsign s = s"
    using chars[of "hd s"] bad[of "CHR ''+''"] bad[of "CHR ''-''"] ne
    by (cases s) (auto simp: unsign_def)
  have sign: "sign_of s = 1"
    using chars[of "hd s"] bad[of "CHR ''-''"] ne by (cases s) (auto simp: sign_of_def starts_with_def)
  have us: "underscores_ok s"
  proof -
    have "s ! i \<noteq> CHR ''_''" if "i < length s" for i
      using chars[OF nth_mem[OF that]] bad[of "CHR ''_''"] by auto
    then show ?thesis by (simp add: underscores_ok_def list_all_iff)
  qed
  have man: "mantissa s = s"
    unfolding mantissa_def using chars bad[of "CHR ''e''"] bad[of "CHR ''E''"] by force
  have ex: "exponent s = []"
    unfolding exponent_def using chars bad[of "CHR ''e''"] bad[of "CHR ''E''"]
    by (auto simp: dropWhile_eq_Nil_conv)
  have low: "map lower s \<noteq> ''inf'' \<and> map lower s \<noteq> ''infinity'' \<and> map lower s \<noteq> ''nan''"
  proof -
    obtain c r where s: "s = c # r" using ne by (cases s) auto
    then have "is_digit c \<or> c = CHR ''.''" using chars by simp
    then have "ord (lower c) \<le> 57" by (auto simp: lower_def is_digit_def)
    then have "lower c \<noteq> CHR ''i'' \<and> lower c \<noteq> CHR ''n''" by auto
    then show ?thesis by (simp add: s)
  qed
  show ?thesis
    using low assms by (simp add: py_float_def str keep uns sign us man ex)
qed

text \<open>C33. Integer flags accept exactly the decimal texts whose value is in range, and return that value;
  printing an in-range integer and parsing it gives it back. A text of the right form that is rejected
  is out of range, or longer than the interpreter converts: the one case where the error is not the
  flag's own.\<close>

theorem int_bound_exact:
  assumes "SQLITE_INT64_MIN \<le> lo" and "hi \<le> SQLITE_INT64_MAX"
  shows "(parse_int_bound lo hi (IntText s) = Inr v \<longleftrightarrow>
      INT_RE s \<and> int_of_str s = Some v \<and> lo \<le> v \<and> v \<le> hi)
    \<and> (lo \<le> i \<and> i \<le> hi \<longrightarrow> parse_int_bound lo hi (IntText (str_of_int i)) = Inr i)
    \<and> (parse_int_bound lo hi (IntText s) = Inl e \<longrightarrow>
        (if published e then \<not> INT_RE s \<or> (\<exists>w. int_of_str s = Some w \<and> \<not> (lo \<le> w \<and> w \<le> hi))
         else INT_RE s \<and> INT_MAX_STR_DIGITS < length (unsign s)))"
proof (intro conjI)
  show "parse_int_bound lo hi (IntText s) = Inr v \<longleftrightarrow>
      INT_RE s \<and> int_of_str s = Some v \<and> lo \<le> v \<and> v \<le> hi"
    by (auto simp: parse_int_bound_def and_then_def split: option.splits if_splits sum.splits)
  have "(10::int) ^ 20 \<le> 10 ^ INT_MAX_STR_DIGITS"
    by (rule power_increasing) (simp_all add: INT_MAX_STR_DIGITS_def)
  then have "\<bar>i\<bar> < 10 ^ INT_MAX_STR_DIGITS" if "lo \<le> i" "i \<le> hi"
    using that assms by (simp add: SQLITE_INT64_MIN_def SQLITE_INT64_MAX_def)
  then show "lo \<le> i \<and> i \<le> hi \<longrightarrow> parse_int_bound lo hi (IntText (str_of_int i)) = Inr i"
    by (auto simp: parse_int_bound_def INT_RE_str_of_int int_of_str_of_int)
  show "parse_int_bound lo hi (IntText s) = Inl e \<longrightarrow>
        (if published e then \<not> INT_RE s \<or> (\<exists>w. int_of_str s = Some w \<and> \<not> (lo \<le> w \<and> w \<le> hi))
         else INT_RE s \<and> INT_MAX_STR_DIGITS < length (unsign s))"
    by (auto simp: parse_int_bound_def and_then_eq_Inl invalid_def int_of_str_def
        split: if_splits option.splits)
qed

theorem int_bound_exact_witness: "parse_int_bound 1 1000 (IntText (str_of_int 42)) = Inr 42"
  using int_bound_exact[of 1 1000 "[]" 0 42 ValueError]
  by (simp add: SQLITE_INT64_MIN_def SQLITE_INT64_MAX_def)

text \<open>A duration is read as its decimal number times its unit, rounded to a double at each of the
  two steps, and is never negative or above the limit.\<close>

theorem duration_value:
  assumes "parse_duration_seconds raw = Inr v"
  shows "0 \<le> v \<and> v \<le> MAX_DURATION_SECONDS
    \<and> (\<exists>number mult. DECIMAL_RE number \<and> v = dbl (dbl (decimal_val number) * mult)
        \<and> (raw = number \<and> mult = 1 \<or> (\<exists>u. raw = number @ u \<and> map_of multipliers u = Some mult)))"
proof -
  have dbl_nonneg: "0 \<le> dbl x" if "0 \<le> x" for x using dbl_mono[OF that] by simp
  have num: "DECIMAL_RE number \<and> n = dbl (decimal_val number)"
    if "finite_decimal False number = Inr n" for number n
    using that py_float_decimal[of number]
    by (auto simp: finite_decimal_def to_float_def split: if_splits option.splits py_float_val.splits)
  have scaled: "\<exists>n. finite_decimal False number = Inr n \<and> v = dbl (n * mult) \<and> v \<le> MAX_DURATION_SECONDS"
    if "and_then (finite_decimal False number) (\<lambda>n. case to_float (n * mult) of
        Finite seconds \<Rightarrow> if seconds > MAX_DURATION_SECONDS then invalid else Inr seconds
      | _ \<Rightarrow> invalid) = Inr v" for number mult
    using that by (auto simp: and_then_eq_Inr to_float_def split: if_splits py_float_val.splits)
  obtain number mult n where "finite_decimal False number = Inr n" "v = dbl (n * mult)"
    "v \<le> MAX_DURATION_SECONDS" "0 \<le> mult"
    "raw = number \<and> mult = 1 \<or> (\<exists>u. raw = number @ u \<and> map_of multipliers u = Some mult)"
  proof (cases "raw \<noteq> [] \<and> list_all is_alpha [last raw]")
    case True
    then obtain m where m: "map_of multipliers [last raw] = Some m"
      using assms by (auto simp: parse_duration_seconds_def Let_def split: option.splits)
    then have "0 \<le> m" by (auto simp: multipliers_def split: if_splits)
    moreover have "raw = butlast raw @ [last raw]" using True by simp
    ultimately show ?thesis
      using assms True m scaled[of "butlast raw" m]
      by (auto simp: parse_duration_seconds_def Let_def intro: that)
  next
    case False
    then have "and_then (finite_decimal False raw) (\<lambda>n. case to_float (n * 1) of
        Finite seconds \<Rightarrow> if seconds > MAX_DURATION_SECONDS then invalid else Inr seconds
      | _ \<Rightarrow> invalid) = Inr v"
      using assms by (simp add: parse_duration_seconds_def Let_def split: if_splits)
    from scaled[OF this] obtain n where n: "finite_decimal False raw = Inr n" "v = dbl (n * 1)"
      "v \<le> MAX_DURATION_SECONDS" by blast
    show ?thesis by (rule that[OF n]) simp_all
  qed
  then show ?thesis
    using num[of number n] dbl_nonneg[of "decimal_val number"] dbl_nonneg[of "n * mult"]
      decimal_val_nonneg[of number] by auto
qed

theorem duration_value_witness: "\<exists>v. parse_duration_seconds ''1.5h'' = Inr v \<and> v \<le> MAX_DURATION_SECONDS"
proof -
  have "parse_duration_seconds ''1.5h'' = Inr 5400" by code_simp
  with duration_value[OF this] show ?thesis by blast
qed

lemma dict_set_fresh: "map_of d k = None \<Longrightarrow> dict_set d k v = d @ [(k, v)]"
  by (induction d k v rule: dict_set.induct) (auto split: if_splits)

text \<open>C34. Tags round-trip: when a list of \<open>KEY=VALUE\<close> flags is accepted, joining the keys and values of
  the result gives the flags back in order, the keys are distinct and well formed, and there are at
  most 16.\<close>

theorem tags_round_trip:
  assumes "parse_add_tags raw = Inr tags"
  shows "map (\<lambda>(k, v). k @ ''='' @ v) tags = raw \<and> is_dict tags \<and> length tags \<le> 16
    \<and> list_all (\<lambda>(k, v). TAG_KEY_RE k \<and> length k \<le> 128 \<and> length v \<le> 1024) tags"
proof -
  have step: "\<exists>k v. t' = t @ [(k, v)] \<and> r = k @ ''='' @ v \<and> map_of t k = None \<and> TAG_KEY_RE k
      \<and> length k \<le> 128 \<and> length v \<le> 1024" if "add_tag r t = Inr t'" for r t t'
    using that split_eq_join[of r] dict_set_fresh[of t]
    by (auto simp: parser_defs and_then_eq_Inr Let_def split: if_splits prod.splits)
  have "map (\<lambda>(k, v). k @ ''='' @ v) tags = map (\<lambda>(k, v). k @ ''='' @ v) t @ raw \<and> is_dict tags
      \<and> list_all (\<lambda>(k, v). TAG_KEY_RE k \<and> length k \<le> 128 \<and> length v \<le> 1024) tags"
    if "each add_tag raw t = Inr tags" "is_dict t"
      "list_all (\<lambda>(k, v). TAG_KEY_RE k \<and> length k \<le> 128 \<and> length v \<le> 1024) t" for raw t
    using that
  proof (induction raw arbitrary: t)
    case (Cons r raw)
    then obtain t' where t': "add_tag r t = Inr t'" "each add_tag raw t' = Inr tags"
      by (auto simp: and_then_eq_Inr)
    from step[OF t'(1)] obtain k v where kv: "t' = t @ [(k, v)]" "r = k @ ''='' @ v"
      "map_of t k = None" "TAG_KEY_RE k" "length k \<le> 128" "length v \<le> 1024" by blast
    have "is_dict t'"
      using Cons.prems(2) kv(1,3) by (auto simp: is_dict_def map_of_eq_None_iff)
    with Cons.IH[OF t'(2)] Cons.prems(3) kv show ?case by simp
  qed simp
  from this[of raw "[]"] assms have tags: "map (\<lambda>(k, v). k @ ''='' @ v) tags = raw \<and> is_dict tags
      \<and> list_all (\<lambda>(k, v). TAG_KEY_RE k \<and> length k \<le> 128 \<and> length v \<le> 1024) tags"
    by (auto simp: parse_add_tags_def is_dict_def split: if_splits)
  moreover have "length raw \<le> 16" using assms by (auto simp: parse_add_tags_def split: if_splits)
  moreover have "length tags = length raw" using arg_cong[OF conjunct1[OF tags], of length] by simp
  ultimately show ?thesis by simp
qed

theorem tags_round_trip_witness:
  "\<exists>tags. parse_add_tags [''team=infra'', ''url=a=b''] = Inr tags \<and> is_dict tags"
proof -
  have "parse_add_tags [''team=infra'', ''url=a=b''] = Inr [(''team'', ''infra''), (''url'', ''a=b'')]"
    by code_simp
  with tags_round_trip[OF this] show ?thesis by blast
qed

lemma state_named_Some:
  "state_named states tok = Some s \<longleftrightarrow> s \<in> set states \<and> job_state_name s = tok"
proof (cases "state_named states tok")
  case None
  then have "\<forall>t\<in>set states. job_state_name t \<noteq> tok" by (simp add: state_named_def find_None_iff)
  with None show ?thesis by auto
next
  case (Some t)
  then have "t \<in> set states" "job_state_name t = tok"
    by (auto simp: state_named_def find_Some_iff)
  with Some show ?thesis by (auto dest: job_state_name_inj)
qed

lemma parse_state_tokens_iff:
  "parse_state_tokens states ts = Inr ss \<longleftrightarrow> map job_state_name ss = map strip ts \<and> set ss \<subseteq> set states"
proof (induction ts arbitrary: ss)
  case (Cons t ts)
  show ?case
  proof (cases "state_named states (strip t)")
    case None
    then have "job_state_name s \<noteq> strip t" if "s \<in> set states" for s
      using that state_named_Some[of states "strip t" s] by auto
    with None show ?thesis by (auto simp: Cons_eq_map_conv)
  next
    case (Some s)
    then have s: "s \<in> set states" "strip t = job_state_name s" by (simp_all add: state_named_Some)
    have "parse_state_tokens states (t # ts) = Inr ss \<longleftrightarrow>
        (\<exists>ss'. ss = s # ss' \<and> parse_state_tokens states ts = Inr ss')"
      using Some by (auto simp: Let_def and_then_eq_Inr)
    also have "\<dots> \<longleftrightarrow> map job_state_name ss = map strip (t # ts) \<and> set ss \<subseteq> set states"
      unfolding Cons.IH using s by (auto simp: map_eq_Cons_conv dest: job_state_name_inj)
    finally show ?thesis .
  qed
qed auto

text \<open>A state list is read exactly: it is accepted when every comma-separated token, trimmed, names an
  allowed state, and gives those states in order. So \<open>prune\<close> can be asked for finished states only,
  and an unknown state is answered with the closest one, if a single edit reaches it.\<close>

theorem state_lists_exact:
  "(parse_prune_states raw = Inr ss \<longleftrightarrow>
      map job_state_name ss = map strip (split_on (CHR '','') raw) \<and> set ss \<subseteq> set PRUNABLE_STATES)
   \<and> (parse_states (Some raw) = Inr (Some ss) \<longleftrightarrow>
      map job_state_name ss = map strip (split_on (CHR '','') raw))
   \<and> (state_named PRUNABLE_STATES (strip raw) = None \<and> CHR '','' \<notin> set raw \<longrightarrow>
      parse_prune_states raw = invalid_hint (suggest (strip raw) (map job_state_name PRUNABLE_STATES)))"
proof (intro conjI)
  show "state_named PRUNABLE_STATES (strip raw) = None \<and> CHR '','' \<notin> set raw \<longrightarrow>
      parse_prune_states raw = invalid_hint (suggest (strip raw) (map job_state_name PRUNABLE_STATES))"
  proof (intro impI, elim conjE)
    assume none: "state_named PRUNABLE_STATES (strip raw) = None" and sep: "CHR '','' \<notin> set raw"
    have "split_on (CHR '','') raw = [raw]" using sep by (induction raw) auto
    with none show "parse_prune_states raw =
        invalid_hint (suggest (strip raw) (map job_state_name PRUNABLE_STATES))"
      by (simp add: parse_prune_states_def Let_def)
  qed
qed (auto simp: parse_prune_states_def parse_states_def parse_state_tokens_iff and_then_eq_Inr
    all_job_states)

theorem state_lists_exact_witness:
  "parse_prune_states ''deaf'' = (invalid_hint (Some ''dead'') :: py_exn + job_state list)"
proof -
  have "state_named PRUNABLE_STATES (strip ''deaf'') = None \<and> CHR '','' \<notin> set ''deaf''"
    "suggest (strip ''deaf'') (map job_state_name PRUNABLE_STATES) = Some ''dead''" by code_simp+
  with state_lists_exact[of "''deaf''" "[]"] show ?thesis by simp
qed

definition plain_part :: "string \<Rightarrow> bool" where
  "plain_part c \<longleftrightarrow> c \<noteq> [] \<and> c \<noteq> ''.'' \<and> c \<noteq> ''..'' \<and> CHR ''/'' \<notin> set c"

lemma norm_steps_plain:
  "\<forall>c\<in>set new. plain_part c \<Longrightarrow> \<forall>c\<in>set cs. CHR ''/'' \<notin> set c \<Longrightarrow>
     \<forall>c\<in>set (fold (norm_step True) cs new). plain_part c"
proof (induction cs arbitrary: new)
  case (Cons c cs)
  have "\<forall>d\<in>set (norm_step True c new). plain_part d"
    using Cons.prems by (cases new) (auto simp: norm_step_def plain_part_def)
  with Cons show ?case by simp
qed simp

text \<open>The working directory stored with a job is absolute and normal: a slash (or the two POSIX keeps)
  followed by components none of which is empty, \<open>.\<close> or \<open>..\<close>, whatever relative path was given.\<close>

theorem cwd_absolute:
  assumes "parse_job_cwd getcwd base (Some raw) = Inr (Some p)" and "isabs getcwd"
  shows "\<exists>slashes parts. p = slashes @ join_with ''/'' parts \<and> slashes \<in> {''/'', ''//''}
    \<and> (\<forall>c\<in>set parts. plain_part c)"
proof -
  define path where "path = (if isabs raw then raw else
      path_join (case base of None \<Rightarrow> getcwd | Some b \<Rightarrow> b) raw)"
  define q where "q = (if isabs path then path else path_join getcwd path)"
  have p: "p = normpath q"
    using assms(1) by (auto simp: parse_job_cwd_def q_def path_def abspath_def Let_def split: if_splits)
  have abs_join: "isabs (path_join getcwd x)" for x
  proof -
    obtain t where "getcwd = ''/'' @ t" using assms(2) by (auto simp: isabs_def starts_with_iff)
    then show ?thesis by (auto simp: path_join_def isabs_def starts_with_def)
  qed
  have "isabs q" using abs_join by (auto simp: q_def)
  then obtain t where t: "q = ''/'' @ t" by (auto simp: isabs_def starts_with_iff)
  define slashes where "slashes = (if starts_with ''//'' q \<and> \<not> starts_with ''///'' q then ''//'' else ''/'')"
  have "normpath q = slashes @ join_with ''/'' (rev (fold (norm_step True) (split_on (CHR ''/'') q) []))"
    using t by (auto simp: normpath_def slashes_def Let_def starts_with_def)
  moreover have "slashes \<in> {''/'', ''//''}" by (simp add: slashes_def)
  moreover have "\<forall>c\<in>set (rev (fold (norm_step True) (split_on (CHR ''/'') q) [])). plain_part c"
    using norm_steps_plain[of "[]" "split_on (CHR ''/'') q"] split_on_char_free by auto
  ultimately show ?thesis unfolding p by blast
qed

theorem cwd_absolute_witness:
  "\<exists>p slashes parts. parse_job_cwd ''/srv/app'' None (Some ''../x/./y/..'') = Inr (Some p)
     \<and> p = slashes @ join_with ''/'' parts \<and> (\<forall>c\<in>set parts. plain_part c)"
proof -
  have "parse_job_cwd ''/srv/app'' None (Some ''../x/./y/..'') = Inr (Some ''/srv/x'')" by code_simp
  moreover have "isabs ''/srv/app''" by code_simp
  ultimately show ?thesis using cwd_absolute by blast
qed

lemma state_tokens_published: "parse_state_tokens states ts = Inl e \<Longrightarrow> published e"
  by (induction states ts arbitrary: e rule: parse_state_tokens.induct)
    (auto simp: Let_def and_then_eq_Inl dest: published_invalid split: option.splits)

lemma each_published:
  "(\<And>r s e. body r s = Inl e \<Longrightarrow> published e) \<Longrightarrow> each body rs s = Inl e \<Longrightarrow> published e"
  by (induction body rs s rule: each.induct) (auto simp: and_then_eq_Inl)

lemma finite_decimal_published: "finite_decimal False raw = Inl e \<Longrightarrow> published e"
  using py_float_decimal[of raw]
  by (auto simp: finite_decimal_def split: if_splits option.splits py_float_val.splits
      dest: published_invalid)

text \<open>Every rejection is an error of the published contract: the code and the exit code of whatever
  these parsers raise are those of the registry.\<close>

lemma parser_errors_published:
  "(normalize_key k = Inl e \<longrightarrow> published e) \<and> (parse_tag_key s = Inl e \<longrightarrow> published e)
   \<and> (parse_add_tags ss = Inl e \<longrightarrow> published e) \<and> (parse_job_env ss = Inl e \<longrightarrow> published e)
   \<and> (parse_job_cwd getcwd base k = Inl e \<longrightarrow> published e) \<and> (parse_worker_id k = Inl e \<longrightarrow> published e)
   \<and> (parse_positive_float maximum rf = Inl e \<longrightarrow> published e) \<and> (parse_queue s = Inl e \<longrightarrow> published e)
   \<and> (parse_duration_seconds s = Inl e \<longrightarrow> published e) \<and> (parse_states k = Inl e \<longrightarrow> published e)
   \<and> (parse_prune_states s = Inl e \<longrightarrow> published e)"
proof (intro conjI impI)
  have tag: "parse_tag_key s = Inl e \<Longrightarrow> published e" for s e
    by (auto simp: parser_defs dest: published_invalid split: if_splits)
  then show "parse_tag_key s = Inl e \<Longrightarrow> published e" .
  have "add_tag r t = Inl e \<Longrightarrow> published e" for r t e
    using tag by (auto simp: add_tag_def Let_def and_then_eq_Inl dest: published_invalid
        split: if_splits prod.splits)
  then show "parse_add_tags ss = Inl e \<Longrightarrow> published e"
    by (auto simp: parse_add_tags_def dest: published_invalid split: if_splits intro: each_published)
  have "add_env r t = Inl e \<Longrightarrow> published e" for r t e
    by (auto simp: add_env_def Let_def dest: published_invalid split: if_splits prod.splits)
  then show "parse_job_env ss = Inl e \<Longrightarrow> published e"
    by (auto simp: parse_job_env_def intro: each_published)
  have "published e" if "and_then (finite_decimal False number) (\<lambda>n. case to_float (n * m) of
        Finite seconds \<Rightarrow> if seconds > MAX_DURATION_SECONDS then invalid else Inr seconds
      | _ \<Rightarrow> invalid) = Inl e" for number m and e :: py_exn
  proof (cases "finite_decimal False number")
    case (Inr n)
    with that show ?thesis
      by (cases "to_float (n * m)") (auto dest: published_invalid split: if_splits)
  qed (use that in \<open>auto dest: finite_decimal_published\<close>)
  note scaled = this this[of _ 1, simplified]
  show "parse_duration_seconds s = Inl e \<Longrightarrow> published e"
    using scaled unfolding parse_duration_seconds_def Let_def
    by (auto dest: published_invalid split: if_splits option.splits)
  show "parse_states k = Inl e \<Longrightarrow> published e" "parse_prune_states s = Inl e \<Longrightarrow> published e"
    by (auto simp: parse_states_def parse_prune_states_def and_then_eq_Inl
        dest: state_tokens_published split: option.splits)
qed (auto simp: parser_defs Let_def dest: published_invalid
    split: if_splits option.splits py_float_val.splits)

end
