(* ===== verification/Worker.thy ===== *)
theory Worker
  imports StoreQueries Validation
begin

text \<open>
  \<open>spoolctl/worker.py\<close>: liveness probe, reap pass, heartbeat thread, one attempt, one claim cycle and
  the work loop. The operating system comes in through values: what \<open>os.kill\<close>, \<open>ps\<close> and the child
  process did (datatypes with a constructor per outcome), the clock readings, and what other
  processes commit between two transactions of this one (functions on the database). Messages on
  standard error are left out.
\<close>

section \<open>Tunables\<close>

definition env_float :: "(string \<Rightarrow> string option) \<Rightarrow> string \<Rightarrow> pyfloat \<Rightarrow> py_exn + py_float_val" where
  \<comment> \<open>\<open>float(os.environ.get(name, default))\<close>\<close>
  "env_float env name dflt = (case env name of None \<Rightarrow> Inr (Finite dflt)
     | Some raw \<Rightarrow> (case py_float raw of None \<Rightarrow> Inl ValueError | Some v \<Rightarrow> Inr v))"

definition heartbeat_interval :: "(string \<Rightarrow> string option) \<Rightarrow> py_exn + py_float_val" where
  "heartbeat_interval env = env_float env ''SPOOLCTL_TEST_HEARTBEAT_INTERVAL'' HEARTBEAT_INTERVAL"

definition reap_threshold :: "(string \<Rightarrow> string option) \<Rightarrow> py_exn + py_float_val" where
  "reap_threshold env = env_float env ''SPOOLCTL_TEST_REAP_THRESHOLD'' REAP_THRESHOLD"

section \<open>Is the owner dead?\<close>

datatype kill_probe = Kill_ok | Kill_no_process | Kill_denied
  \<comment> \<open>\<open>os.kill(pid, 0)\<close>: returns, \<open>ProcessLookupError\<close>, \<open>PermissionError\<close>\<close>

datatype ps_probe = Ps_raises | Ps_result int string  \<comment> \<open>return code and output\<close>

definition WORKER_CMDLINE_MARKER :: string where "WORKER_CMDLINE_MARKER = ''spoolctl''"

definition is_worker_pid_dead :: "kill_probe \<Rightarrow> ps_probe \<Rightarrow> bool" where
  "is_worker_pid_dead kill ps = (case kill of
       Kill_no_process \<Rightarrow> True
     | Kill_denied \<Rightarrow> False
     | Kill_ok \<Rightarrow> (case ps of
         Ps_raises \<Rightarrow> False
       | Ps_result returncode stdout \<Rightarrow>
           if returncode \<noteq> 0 then False
           else let cmdline = strip stdout
             in if cmdline = [] then False else \<not> substring WORKER_CMDLINE_MARKER cmdline))"

section \<open>The reap pass\<close>

fun reap_each :: "(int \<Rightarrow> kill_probe \<times> ps_probe) \<Rightarrow> (int \<Rightarrow> db \<Rightarrow> db) \<Rightarrow> pyfloat \<Rightarrow> pyfloat \<Rightarrow> string
    \<Rightarrow> job list \<Rightarrow> db \<Rightarrow> int list \<times> db" where
  \<comment> \<open>the loop over the nominated jobs; \<open>others\<close> is what the rest of the world commits before each\<close>
  "reap_each probe others cutoff now reaper_id [] d = ([], d)"
| "reap_each probe others cutoff now reaper_id (j # js) d = (case j_locked_pid j of
       None \<Rightarrow> reap_each probe others cutoff now reaper_id js d
     | Some pid \<Rightarrow>
         if \<not> is_worker_pid_dead (fst (probe pid)) (snd (probe pid))
         then reap_each probe others cutoff now reaper_id js d
         else let (state, d1) = reap (j_id j) pid cutoff now reaper_id (others (j_id j) d);
                  (taken, d2) = reap_each probe others cutoff now reaper_id js d1
              in (if state = None then taken else j_id j # taken, d2))"

definition reap_pass :: "(int \<Rightarrow> kill_probe \<times> ps_probe) \<Rightarrow> (int \<Rightarrow> db \<Rightarrow> db) \<Rightarrow> pyfloat \<Rightarrow> pyfloat
    \<Rightarrow> string \<Rightarrow> db \<Rightarrow> int list \<times> db" where
  "reap_pass probe others threshold now reaper_id d =
     (let cutoff = fsub now threshold
      in reap_each probe others cutoff now reaper_id (stale_running_candidates cutoff d) d)"

section \<open>Heartbeat\<close>

datatype beat = Stop_set | Beat_raises | Beat_matched int

fun heartbeat_run :: "beat list \<Rightarrow> bool" where
  \<comment> \<open>does the thread, seeing these waits and updates in turn, report the ownership lost?\<close>
  "heartbeat_run [] = False"
| "heartbeat_run (Stop_set # bs) = False"
| "heartbeat_run (Beat_raises # bs) = heartbeat_run bs"
| "heartbeat_run (Beat_matched n # bs) = (if n = 0 then True else heartbeat_run bs)"

section \<open>One attempt\<close>

datatype signal = SIGTERM | SIGKILL

definition kill_group :: "bool \<Rightarrow> signal list" where
  \<comment> \<open>the signals sent; \<open>exits\<close>: the child is gone within the grace period\<close>
  "kill_group exits = (if exits then [SIGTERM] else [SIGTERM, SIGKILL])"

datatype child =
  Setup_raises errno      \<comment> \<open>creating the attempt directory or the output files fails\<close>
| Spawn_raises string     \<comment> \<open>the text of the \<open>OSError\<close> or \<open>ValueError\<close>\<close>
| Exits int               \<comment> \<open>within the timeout; negative for a signal\<close>
| Overruns bool           \<comment> \<open>past the timeout; gone within the kill grace?\<close>

type_synonym outcome = "string \<times> int option \<times> string option \<times> string option"

definition execute_attempt :: "job \<Rightarrow> child \<Rightarrow> py_exn + outcome \<times> signal list" where
  "execute_attempt j child = (case child of
       Setup_raises e \<Rightarrow> Inl (OSError e)
     | Spawn_raises exc \<Rightarrow>
         Inr ((''failed'', None, Some (''spawn failed: '' @ exc), Some ''spawn_failed''), [])
     | Overruns exits \<Rightarrow>
         Inr ((''timed_out'', None,
           Some (''timed out after '' @ str_of_int (j_timeout_seconds j) @ ''s''), Some ''timeout''),
           kill_group exits)
     | Exits exit_code \<Rightarrow>
         if exit_code = 0 then Inr ((''succeeded'', Some 0, None, None), [])
         else Inr ((''failed'', Some exit_code, Some (''exit '' @ str_of_int exit_code),
           Some ''process_exit''), []))"

section \<open>One claim cycle\<close>

record cycle =
  cy_pid :: int
  cy_reap_now :: pyfloat
  cy_claim_now :: pyfloat
  cy_done_now :: pyfloat
  cy_threshold :: pyfloat
  cy_probe :: "int \<Rightarrow> kill_probe \<times> ps_probe"
  cy_others :: "int \<Rightarrow> db \<Rightarrow> db"
  cy_before_claim :: "db \<Rightarrow> db"  \<comment> \<open>committed by others between reap pass and claim\<close>
  cy_meanwhile :: "db \<Rightarrow> db"     \<comment> \<open>committed while the child runs, own heartbeats included\<close>
  cy_child :: "job \<Rightarrow> attempt \<Rightarrow> child"

record summary =
  su_attempt_no :: int
  su_job_id :: int
  su_job_state :: "job_state option"
  su_result :: string

definition record_outcome :: "int \<Rightarrow> int \<Rightarrow> string \<Rightarrow> int \<Rightarrow> outcome \<Rightarrow> pyfloat \<Rightarrow> db
    \<Rightarrow> py_exn + job_state option \<times> db" where
  \<comment> \<open>the error text is set whenever the kind is not \<open>succeeded\<close>\<close>
  "record_outcome job_id attempt_id worker_id pid out now d =
     (case out of (kind, exit_code, error, reason) \<Rightarrow>
        if kind = ''succeeded'' then Inr (record_success job_id attempt_id worker_id pid now d)
        else record_failure job_id attempt_id worker_id pid kind exit_code
          (case error of None \<Rightarrow> [] | Some e \<Rightarrow> e) now reason d)"

definition process_one :: "cycle \<Rightarrow> string \<Rightarrow> string \<Rightarrow> string \<Rightarrow> int option \<Rightarrow> db
    \<Rightarrow> (py_exn + summary option) \<times> db" where
  \<comment> \<open>an exception leaves what was committed before it\<close>
  "process_one cy out_root worker_id lane slots d0 =
     (let d1 = cy_before_claim cy
            (snd (reap_pass (cy_probe cy) (cy_others cy) (cy_threshold cy) (cy_reap_now cy) worker_id d0))
      in case claim_next worker_id (cy_pid cy) (cy_claim_now cy) out_root lane slots d1 of
           (None, d2) \<Rightarrow> (Inr None, d2)
         | (Some (j, a), d2) \<Rightarrow>
             let d3 = cy_meanwhile cy d2
             in case execute_attempt j (cy_child cy j a) of
                  Inl e \<Rightarrow> (Inl e, d3)
                | Inr (out, _) \<Rightarrow>
                    (case record_outcome (j_id j) (a_id a) worker_id (cy_pid cy) out (cy_done_now cy) d3 of
                       Inl e \<Rightarrow> (Inl e, d3)
                     | Inr (new_state, d4) \<Rightarrow>
                         (Inr (Some \<lparr>su_attempt_no = a_attempt_no a, su_job_id = j_id j,
                            su_job_state = new_state, su_result = fst out\<rparr>), d4)))"

section \<open>The work loop\<close>

record turn =
  tu_stopped :: bool            \<comment> \<open>a signal has arrived when the loop tests its condition\<close>
  tu_cycle :: cycle
  tu_drain_now :: pyfloat
  tu_before_drain :: "db \<Rightarrow> db"
  tu_idle :: "db \<Rightarrow> db"         \<comment> \<open>committed by others during the poll wait\<close>

fun work_loop :: "string \<Rightarrow> string \<Rightarrow> bool \<Rightarrow> string \<Rightarrow> int option \<Rightarrow> turn list \<Rightarrow> nat \<Rightarrow> db
    \<Rightarrow> ((py_exn + bool \<times> nat) \<times> db) option" where
  \<comment> \<open>drained and executed; \<open>None\<close> while the loop has not ended within the given turns\<close>
  "work_loop out_root worker_id drain lane slots [] executed d = None"
| "work_loop out_root worker_id drain lane slots (t # ts) executed d =
     (if tu_stopped t then Some (Inr (False, executed), d)
      else case process_one (tu_cycle t) out_root worker_id lane slots d of
          (Inl e, d1) \<Rightarrow> Some (Inl e, d1)
        | (Inr (Some su), d1) \<Rightarrow> work_loop out_root worker_id drain lane slots ts (executed + 1) d1
        | (Inr None, d1) \<Rightarrow>
            let d2 = tu_before_drain t d1
            in if drain \<and> unsettled_count lane (tu_drain_now t) d2 = 0
               then Some (Inr (drain, executed), d2)
               else work_loop out_root worker_id drain lane slots ts executed (tu_idle t d2))"

section \<open>Properties\<close>

lemma record_failure_total:
  assumes "map_of FAILURE_EVENTS kind = Some (st, ev)"
    and "validate_failure_reason kind x (default_failure_reason kind x fr) = Inr r"
  shows "\<exists>v. record_failure k att w p kind x e now fr d = Inr v"
proof (cases "find (owned_by k w p) (jobs d)")
  case None
  then show ?thesis by (simp add: record_failure_def assms)
next
  case (Some row)
  obtain ns nr where "after_failure (j_attempts row + 1 - j_crashes row \<le> j_max_retries row)
      (j_attempts row + 1) now = (ns, nr)" by fastforce
  then show ?thesis unfolding record_failure_def assms option.case prod.case and_then_simps Some Let_def
    by simp
qed

lemma outcome_valid:
  assumes "execute_attempt j child = Inr ((kind, x, err, fr), sent)" and "kind \<noteq> ''succeeded''"
  shows "\<exists>st ev r. map_of FAILURE_EVENTS kind = Some (st, ev) \<and>
     validate_failure_reason kind x (default_failure_reason kind x fr) = Inr r"
proof -
  have "kind = ''failed'' \<and> x = None \<and> fr = Some ''spawn_failed''
      \<or> kind = ''failed'' \<and> x \<noteq> None \<and> fr = Some ''process_exit''
      \<or> kind = ''timed_out'' \<and> x = None \<and> fr = Some ''timeout''"
  proof (cases child)
    case Setup_raises
    then show ?thesis using assms(1) by (simp add: execute_attempt_def)
  next
    case (Spawn_raises exc)
    then have "kind = ''failed''" "x = None" "fr = Some ''spawn_failed''"
      using assms(1) unfolding execute_attempt_def by force+
    then show ?thesis by simp
  next
    case (Exits n)
    then have "n \<noteq> 0" using assms unfolding execute_attempt_def by force
    then have "kind = ''failed''" "x = Some n" "fr = Some ''process_exit''"
      using assms(1) Exits unfolding execute_attempt_def by force+
    then show ?thesis by simp
  next
    case (Overruns g)
    then have "kind = ''timed_out''" "x = None" "fr = Some ''timeout''"
      using assms(1) unfolding execute_attempt_def by force+
    then show ?thesis by simp
  qed
  then show ?thesis
    by (elim disjE conjE exE) (simp_all add: FAILURE_EVENTS_def validate_failure_reason_def
        default_failure_reason_def FAILURE_REASONS_def)
qed

text \<open>Whatever the child process did, its outcome can be recorded: the kind, exit code and reason
  \<open>execute_attempt\<close> returns always pass the store's checks, so \<open>record_failure\<close> never raises on them,
  and a job succeeds exactly when its process exits with 0.\<close>

theorem outcome_recordable:
  assumes "execute_attempt j child = Inr (out, sent)"
  shows "(\<exists>v. record_outcome k att w p out now d = Inr v)
    \<and> (fst out = ''succeeded'' \<longleftrightarrow> child = Exits 0)"
proof -
  obtain kind x err fr where out: "out = (kind, x, err, fr)" by (cases out) auto
  have "fst out = ''succeeded'' \<longleftrightarrow> child = Exits 0"
    using assms by (auto simp: execute_attempt_def split: child.splits if_splits)
  moreover have "\<exists>v. record_outcome k att w p out now d = Inr v"
  proof (cases "kind = ''succeeded''")
    case False
    from outcome_valid[OF assms[unfolded out] False] obtain st ev r
      where "map_of FAILURE_EVENTS kind = Some (st, ev)"
        "validate_failure_reason kind x (default_failure_reason kind x fr) = Inr r" by blast
    from record_failure_total[OF this] False show ?thesis by (simp add: record_outcome_def out)
  qed (simp add: record_outcome_def out)
  ultimately show ?thesis by simp
qed

theorem outcome_recordable_witness:
  "\<exists>v. record_outcome 2 1 ''w1'' 7 (''timed_out'', None, Some ''timed out after 300s'', Some ''timeout'')
     110 db_running = Inr v"
proof -
  have "execute_attempt (new_job demo_sub 100 1) (Overruns False) = Inr ((''timed_out'', None,
      Some ''timed out after 300s'', Some ''timeout''), [SIGTERM, SIGKILL])" by code_simp
  from outcome_recordable[OF this] show ?thesis by blast
qed

definition proven_dead :: "(int \<Rightarrow> kill_probe \<times> ps_probe) \<Rightarrow> pyfloat \<Rightarrow> job \<Rightarrow> bool" where
  "proven_dead probe cutoff j \<longleftrightarrow> j_state j = RUNNING \<and> heartbeat_before cutoff j \<and>
     (\<exists>pid. j_locked_pid j = Some pid \<and> (fst (probe pid) = Kill_no_process \<or>
        fst (probe pid) = Kill_ok \<and> (\<exists>out. snd (probe pid) = Ps_result 0 out \<and> strip out \<noteq> [] \<and>
          \<not> substring WORKER_CMDLINE_MARKER (strip out))))"

lemma dead_iff:
  "is_worker_pid_dead kill ps \<longleftrightarrow> kill = Kill_no_process \<or> kill = Kill_ok \<and>
     (\<exists>out. ps = Ps_result 0 out \<and> strip out \<noteq> [] \<and> \<not> substring WORKER_CMDLINE_MARKER (strip out))"
  by (auto simp: is_worker_pid_dead_def Let_def split: kill_probe.split ps_probe.split)

lemma reap_other:
  assumes "tables_ok d" and "reap i pid cutoff now reaper d = (st, d')"
  shows "tables_ok d' \<and> only_job i d d'
    \<and> (d' \<noteq> d \<longrightarrow> (\<exists>j. get_job d i = Some j \<and> reapable i pid cutoff j)) \<and> (st = None \<longrightarrow> d' = d)"
  using assms(2,1)
proof (cases rule: reap_cases)
  case (won j ns nr)
  have "only_job i d d'"
    unfolding won(5) reaped_def Let_def
    by (cases "ns = DEAD") (auto intro!: only_job_intros simp: tab_simps)
  moreover have "tables_ok d'"
    unfolding won(5) reaped_def Let_def
    by (auto intro!: tables_ok_add_event tables_ok_intros assms(1))
  ultimately show ?thesis using won by auto
qed (use assms in auto)

lemma reap_each_spares:
  assumes "tables_ok d" and "reap_each probe (\<lambda>_ d. d) cutoff now reaper js d = (taken, d')"
    and "\<And>j. get_job d k = Some j \<Longrightarrow> \<not> proven_dead probe cutoff j"
  shows "get_job d' k = get_job d k \<and> k \<notin> set taken"
  using assms
proof (induction js arbitrary: d taken)
  case (Cons c js)
  show ?case
  proof (cases "\<exists>pid. j_locked_pid c = Some pid \<and> is_worker_pid_dead (fst (probe pid)) (snd (probe pid))")
    case False
    then have "reap_each probe (\<lambda>_ d. d) cutoff now reaper js d = (taken, d')"
      using Cons.prems(2) by (auto split: option.splits)
    from Cons.IH[OF Cons.prems(1) this Cons.prems(3)] show ?thesis .
  next
    case True
    then obtain pid where pid: "j_locked_pid c = Some pid"
      "is_worker_pid_dead (fst (probe pid)) (snd (probe pid))" by blast
    obtain st d1 where r: "reap (j_id c) pid cutoff now reaper d = (st, d1)" by fastforce
    obtain rest where rest: "reap_each probe (\<lambda>_ d. d) cutoff now reaper js d1 = (rest, d')"
      and taken: "taken = (if st = None then rest else j_id c # rest)"
      using Cons.prems(2) pid r by (auto split: prod.splits)
    note d1 = reap_other[OF Cons.prems(1) r]
    have same: "get_job d1 k = get_job d k \<and> (j_id c = k \<longrightarrow> st = None)"
    proof (cases "j_id c = k")
      case True
      have "\<not> (\<exists>j. get_job d k = Some j \<and> reapable k pid cutoff j)"
        using Cons.prems(3) pid(2) by (auto simp: proven_dead_def reapable_def dead_iff)
      then show ?thesis
        using r[unfolded True] Cons.prems(1) by - (erule (1) reap_cases, auto)
    qed (use d1 in \<open>simp add: only_job_def\<close>)
    with Cons.IH[of d1 rest] d1 rest Cons.prems(3) taken show ?thesis by auto
  qed
qed simp

text \<open>A reap pass never takes a job from a living worker: with no one else writing, a job changes
  only if it was running, its heartbeat was stale, and the probe proved its owner gone (no such
  process, or a live process whose command line, readable and not empty, is not spoolctl's). The ids
  it returns are exactly jobs of that kind.\<close>

theorem reap_pass_safe:
  assumes "reachable d" and "reap_pass probe (\<lambda>_ d. d) threshold now reaper d = (taken, d')"
    and "\<And>j. get_job d k = Some j \<Longrightarrow> \<not> proven_dead probe (fsub now threshold) j"
  shows "get_job d' k = get_job d k \<and> k \<notin> set taken"
  using reap_each_spares[OF reachable_tables[OF assms(1)] _ assms(3)] assms(2)
  by (simp add: reap_pass_def Let_def)

theorem reap_pass_safe_witness:
  "\<exists>taken d'. reap_pass (\<lambda>_. (Kill_denied, Ps_raises)) (\<lambda>_ d. d) 30 500 ''w2'' db_running = (taken, d')
     \<and> get_job d' 2 = get_job db_running 2 \<and> 2 \<notin> set taken"
proof -
  obtain taken d' where r: "reap_pass (\<lambda>_. (Kill_denied, Ps_raises)) (\<lambda>_ d. d) 30 500 ''w2'' db_running
      = (taken, d')" by fastforce
  have "\<not> proven_dead (\<lambda>_. (Kill_denied, Ps_raises)) (fsub 500 30) j" for j
    by (simp add: proven_dead_def)
  from reap_pass_safe[OF _ r this] r show ?thesis by auto
qed

lemma record_outcome_states:
  assumes "record_outcome k att w p out now d = Inr (st, d')" and "tables_ok d"
  shows "(st = None \<longleftrightarrow> \<not> owns d k w p) \<and> (st = None \<longrightarrow> d' = d)
    \<and> (owns d k w p \<longrightarrow> (if fst out = ''succeeded'' then st = Some DONE
        else st = Some QUEUED \<or> st = Some DEAD))"
proof -
  obtain kind x err fr where out: "out = (kind, x, err, fr)" by (cases out) auto
  show ?thesis
  proof (cases "kind = ''succeeded''")
    case True
    then have "record_success k att w p now d = (st, d')" using assms(1) by (simp add: record_outcome_def out)
    then show ?thesis using assms(2)
      by (cases rule: record_success_cases) (auto simp: owns_guard out True split: option.splits)
  next
    case False
    then have "record_failure k att w p kind x (case err of None \<Rightarrow> [] | Some e \<Rightarrow> e) now fr d = Inr (st, d')"
      using assms(1) by (simp add: record_outcome_def out)
    then show ?thesis using assms(2)
    proof (cases rule: record_failure_cases)
      case (won j ast ev r ns nr)
      with after_failure_cases[OF won(5)] False show ?thesis by (auto simp: owns_guard out)
    qed (auto simp: owns_guard split: option.splits)
  qed
qed

text \<open>One claim cycle records what its child did exactly when the worker still owns the job at that
  moment, whatever was committed while the child ran: then a success makes it done and a failure
  requeues or kills it; otherwise the result is discarded and the database left as found.\<close>

theorem cycle_records_owned:
  assumes "claim_next w (cy_pid cy) (cy_claim_now cy) out_root lane slots
      (cy_before_claim cy (snd (reap_pass (cy_probe cy) (cy_others cy) (cy_threshold cy)
        (cy_reap_now cy) w d0))) = (Some (j, a), d2)"
    and "reachable (cy_meanwhile cy d2)" and "\<forall>e. cy_child cy j a \<noteq> Setup_raises e"
  shows "\<exists>su d4. process_one cy out_root w lane slots d0 = (Inr (Some su), d4)
    \<and> su_job_id su = j_id j \<and> su_attempt_no su = a_attempt_no a
    \<and> (su_result su = ''succeeded'' \<longleftrightarrow> cy_child cy j a = Exits 0)
    \<and> (if owns (cy_meanwhile cy d2) (j_id j) w (cy_pid cy)
       then (if cy_child cy j a = Exits 0 then su_job_state su = Some DONE
             else su_job_state su = Some QUEUED \<or> su_job_state su = Some DEAD)
       else su_job_state su = None \<and> d4 = cy_meanwhile cy d2)"
proof -
  have "execute_attempt j (cy_child cy j a) \<noteq> Inl e" for e
    using assms(3) by (auto simp: execute_attempt_def split: child.splits)
  then obtain out sent where ex: "execute_attempt j (cy_child cy j a) = Inr (out, sent)"
    by (cases "execute_attempt j (cy_child cy j a)") auto
  have ok: "fst out = ''succeeded'' \<longleftrightarrow> cy_child cy j a = Exits 0"
    using ex by (cases "cy_child cy j a") (auto simp: execute_attempt_def split: if_splits)
  obtain kind x err fr where out: "out = (kind, x, err, fr)" by (cases out) auto
  have "\<exists>v. record_outcome (j_id j) (a_id a) w (cy_pid cy) out (cy_done_now cy) (cy_meanwhile cy d2) = Inr v"
  proof (cases "kind = ''succeeded''")
    case False
    from outcome_valid[OF ex[unfolded out] False] record_failure_total False show ?thesis
      by (fastforce simp: record_outcome_def out)
  qed (simp add: record_outcome_def out)
  then obtain st d4 where rec: "record_outcome (j_id j) (a_id a) w (cy_pid cy) out (cy_done_now cy)
      (cy_meanwhile cy d2) = Inr (st, d4)" by fastforce
  note states = record_outcome_states[OF rec reachable_tables[OF assms(2)]]
  have "process_one cy out_root w lane slots d0 = (Inr (Some \<lparr>su_attempt_no = a_attempt_no a,
      su_job_id = j_id j, su_job_state = st, su_result = fst out\<rparr>), d4)"
    unfolding process_one_def Let_def assms(1) prod.case option.case ex sum.case rec ..
  then show ?thesis using states ok by (auto split: if_splits)
qed

definition demo_cycle :: cycle where
  "demo_cycle = \<lparr>cy_pid = 7, cy_reap_now = 101, cy_claim_now = 102, cy_done_now = 110,
     cy_threshold = 30, cy_probe = (\<lambda>_. (Kill_denied, Ps_raises)), cy_others = (\<lambda>_ d. d),
     cy_before_claim = (\<lambda>d. d), cy_meanwhile = (\<lambda>d. snd (cancel_job 2 True 105 d)),
     cy_child = (\<lambda>_ _. Exits 0)\<rparr>"

theorem cycle_records_owned_witness:
  "\<exists>su d4. process_one demo_cycle ''out'' ''w1'' ''default'' None db_queued = (Inr (Some su), d4)
     \<and> su_result su = ''succeeded'' \<and> su_job_state su = None"
proof -
  let ?c = "claim_next ''w1'' 7 102 ''out'' ''default'' None
      (snd (reap_pass (\<lambda>_. (Kill_denied, Ps_raises)) (\<lambda>_ d. d) 30 101 ''w1'' db_queued))"
  have "case ?c of (Some (j, a), d2) \<Rightarrow> j_id j = 2 \<and>
      d2 = apply_op (Op_claim ''w1'' 7 102 ''out'' ''default'' None) db_queued \<and>
      \<not> owns (snd (cancel_job 2 True 105 d2)) 2 ''w1'' 7 | _ \<Rightarrow> False" by code_simp
  then obtain j a d2 where c: "?c = (Some (j, a), d2)" and j: "j_id j = 2"
    and d2: "d2 = apply_op (Op_claim ''w1'' 7 102 ''out'' ''default'' None) db_queued"
    and lost: "\<not> owns (snd (cancel_job 2 True 105 d2)) 2 ''w1'' 7"
    by (auto split: prod.splits option.splits)
  have "reachable d2" unfolding d2 by (rule reachable_apply) simp_all
  then have "reachable (apply_op (Op_cancel 2 True 105) d2)" by (rule reachable_apply) simp
  then have r: "reachable (cy_meanwhile demo_cycle d2)" by (simp add: demo_cycle_def)
  have c': "claim_next ''w1'' (cy_pid demo_cycle) (cy_claim_now demo_cycle) ''out'' ''default'' None
      (cy_before_claim demo_cycle (snd (reap_pass (cy_probe demo_cycle) (cy_others demo_cycle)
        (cy_threshold demo_cycle) (cy_reap_now demo_cycle) ''w1'' db_queued))) = (Some (j, a), d2)"
    using c by (simp add: demo_cycle_def)
  from cycle_records_owned[OF c' r] lost j show ?thesis by (auto simp: demo_cycle_def)
qed

end
