(* ===== verification/Concurrency.thy ===== *)
theory Concurrency
  imports Worker
begin

text \<open>
  Many worker processes, reapers and operators on one database: the interleavings behind \<open>worker.py\<close>
  and \<open>store.py\<close>. Each transition is one transaction of one process (SQLite serialises them), or
  something the operating system does: time passes, a process starts or dies, a probe finds a pid
  gone. A reap pass is three separate steps (nominate, confirm, reap) with anything in between, a pid
  may be reused by a new worker at any time, and a process may die at any point. Time is assumed not
  to run backwards.

  The ghost set \<open>y_revoked\<close> collects the attempts an operator took from their worker on purpose, by
  \<open>retry --force\<close> or \<open>cancel --running\<close>.
\<close>

section \<open>The system\<close>

datatype proc =
  Absent                        \<comment> \<open>no live worker process has this pid\<close>
| Idle string                   \<comment> \<open>a worker between jobs, with its worker id\<close>
| Busy string int int           \<comment> \<open>executing: worker id, job, attempt\<close>
| Stopping string int int       \<comment> \<open>ownership lost, child killed, result not yet recorded\<close>

record sys =
  y_db :: db
  y_now :: pyfloat
  y_procs :: "int \<Rightarrow> proc"
  y_born :: "int \<Rightarrow> pyfloat"     \<comment> \<open>when the process now under the pid started\<close>
  y_nominated :: "(int \<times> int \<times> pyfloat) set"  \<comment> \<open>job, owner pid, cutoff\<close>
  y_confirmed :: "(int \<times> int \<times> pyfloat) set"
  y_revoked :: "int set"

fun holds :: "proc \<Rightarrow> string \<Rightarrow> int \<Rightarrow> int \<Rightarrow> bool" where
  "holds (Busy w k a) w' k' a' = (w = w' \<and> k = k' \<and> a = a')"
| "holds (Stopping w k a) w' k' a' = (w = w' \<and> k = k' \<and> a = a')"
| "holds _ _ _ _ = False"

fun unforced :: "store_op \<Rightarrow> bool" where
  "unforced (Op_add s now) = True"
| "unforced (Op_retry k force now) = (\<not> force)"
| "unforced (Op_cancel k allow now) = (\<not> allow)"
| "unforced (Op_prune ids states cutoff) = (set states \<subseteq> set PRUNABLE_STATES)"
| "unforced _ = False"

fun forced_on :: "store_op \<Rightarrow> int option" where
  "forced_on (Op_retry k force now) = (if force then Some k else None)"
| "forced_on (Op_cancel k allow now) = (if allow then Some k else None)"
| "forced_on _ = None"

definition taken_from :: "int \<Rightarrow> db \<Rightarrow> int set" where
  "taken_from k d = (if state_of k d = Some RUNNING then {a_id (last (atts_of d k))} else {})"

inductive sys_step :: "sys \<Rightarrow> sys \<Rightarrow> bool" where
  tick: "y_now s \<le> t \<Longrightarrow> sys_step s (s\<lparr>y_now := t\<rparr>)"
| spawn: "y_procs s p = Absent \<Longrightarrow> 
    sys_step s (s\<lparr>y_procs := (y_procs s)(p := Idle w), y_born := (y_born s)(p := y_now s)\<rparr>)"
| die: "sys_step s (s\<lparr>y_procs := (y_procs s)(p := Absent)\<rparr>)"
| claim: "y_procs s p = Idle w \<Longrightarrow> y_born s p \<le> t \<Longrightarrow> claim_next w p t out lane slots (y_db s) = (r, d') \<Longrightarrow>
    sys_step s (s\<lparr>y_db := d', y_procs := (y_procs s)(p := (case r of None \<Rightarrow> Idle w
      | Some (j, a) \<Rightarrow> Busy w (j_id j) (a_id a)))\<rparr>)"
| beat: "y_procs s p = Busy w k a \<Longrightarrow> y_born s p \<le> t \<Longrightarrow>
    update_heartbeat k w p t (y_db s) = (n, d') \<Longrightarrow>
    sys_step s (s\<lparr>y_db := d', y_procs := (y_procs s)(p := (if n = 0 then Stopping w k a
      else Busy w k a))\<rparr>)"
| succeed: "holds (y_procs s p) w k a \<Longrightarrow> record_success k a w p t (y_db s) = (r, d') \<Longrightarrow>
    sys_step s (s\<lparr>y_db := d', y_procs := (y_procs s)(p := Idle w)\<rparr>)"
| fail: "holds (y_procs s p) w k a \<Longrightarrow>
    record_failure k a w p kind x err t reason (y_db s) = Inr (r, d') \<Longrightarrow>
    sys_step s (s\<lparr>y_db := d', y_procs := (y_procs s)(p := Idle w)\<rparr>)"
| nominate: "j \<in> set (stale_running_candidates cutoff (y_db s)) \<Longrightarrow> j_locked_pid j = Some pid \<Longrightarrow>
    cutoff \<le> y_now s \<Longrightarrow>
    sys_step s (s\<lparr>y_nominated := insert (j_id j, pid, cutoff) (y_nominated s)\<rparr>)"
| confirm: "(k, pid, cutoff) \<in> y_nominated s \<Longrightarrow> y_procs s pid = Absent \<Longrightarrow>
    sys_step s (s\<lparr>y_confirmed := insert (k, pid, cutoff) (y_confirmed s)\<rparr>)"
| reap: "(k, pid, cutoff) \<in> y_confirmed s \<Longrightarrow> reap k pid cutoff t reaper (y_db s) = (r, d') \<Longrightarrow>
    sys_step s (s\<lparr>y_db := d'\<rparr>)"
| operate: "unforced x \<Longrightarrow> sys_step s (s\<lparr>y_db := apply_op x (y_db s)\<rparr>)"
| force: "forced_on x = Some k \<Longrightarrow>
    sys_step s (s\<lparr>y_db := apply_op x (y_db s), y_revoked := y_revoked s \<union> taken_from k (y_db s)\<rparr>)"

definition sys_init :: "sys \<Rightarrow> bool" where
  "sys_init s \<longleftrightarrow> y_db s = empty_db \<and> (\<forall>p. y_procs s p = Absent) \<and> y_nominated s = {} \<and>
     y_confirmed s = {} \<and> y_revoked s = {}"

section \<open>Attempts keep their job\<close>

definition att_grows :: "db \<Rightarrow> db \<Rightarrow> bool" where
  "att_grows d d' \<longleftrightarrow> atts_seq d \<le> atts_seq d' \<and> (\<forall>x\<in>set (atts d'). atts_seq d < a_id x \<or>
     (\<exists>y\<in>set (atts d). a_id y = a_id x \<and> a_job_id y = a_job_id x))"

lemma att_grows_refl [simp]: "att_grows d d"
  by (auto simp: att_grows_def)

lemma att_grows_trans: "att_grows d d' \<Longrightarrow> att_grows d' d'' \<Longrightarrow> att_grows d d''"
  unfolding att_grows_def by (metis order.trans order.strict_trans1)

lemma att_grows_add_event: "att_grows d d' \<Longrightarrow> att_grows d (add_event k t ev w x d')"
  by (simp add: att_grows_def tab_simps)

lemma att_grows_update_jobs: "att_grows d d' \<Longrightarrow> att_grows d (update_jobs P f d')"
  by (simp add: att_grows_def tab_simps)

lemma att_grows_update_attempts:
  assumes "att_grows d d'" and "\<And>a. a_id (f a) = a_id a" and "\<And>a. a_job_id (f a) = a_job_id a"
  shows "att_grows d (update_attempts P f d')"
proof (rule att_grows_trans[OF assms(1)])
  show "att_grows d' (update_attempts P f d')"
  proof -
    have "\<exists>y\<in>set (atts d'). a_id y = a_id x \<and> a_job_id y = a_job_id x"
      if x: "x \<in> set (update_where P f (atts d'))" for x
    proof -
      obtain y where "y \<in> set (atts d')" "x = (if P y then f y else y)"
        using x by (auto simp: set_update_where)
      then show ?thesis using assms(2,3) by (intro bexI[of _ y]) simp_all
    qed
    then show ?thesis by (simp add: att_grows_def update_attempts_def)
  qed
qed

lemma att_grows_insert_attempt:
  assumes "att_grows d d'" and "\<And>i. a_id (mk i) = i"
  shows "att_grows d (insert_attempt mk d')"
proof (rule att_grows_trans[OF assms(1)])
  show "att_grows d' (insert_attempt mk d')"
    by (auto simp: att_grows_def insert_attempt_def assms(2))
qed

lemma att_grows_insert_job: "att_grows d d' \<Longrightarrow> att_grows d (insert_job mk d')"
  by (simp add: att_grows_def tab_simps)

lemma att_grows_prune: "att_grows d (snd (prune_delete ids states cutoff d))"
proof -
  obtain r d' where r: "prune_delete ids states cutoff d = (r, d')" by fastforce
  obtain x y z where "r = (x, y, z)" by (cases r) auto
  with r have "d' = delete_jobs (\<lambda>j. pruned ids states cutoff d (j_id j))
        (delete_events (\<lambda>e. pruned ids states cutoff d (e_job_id e))
          (delete_attempts (\<lambda>a. pruned ids states cutoff d (a_job_id a)) d))"
    unfolding prune_delete_def prune_fold by simp
  then show ?thesis by (auto simp: r att_grows_def statement_defs)
qed

lemmas att_grows_intros = att_grows_refl att_grows_add_event att_grows_update_jobs
  att_grows_update_attempts att_grows_insert_attempt att_grows_insert_job

lemma att_grows_operate: "unforced x \<or> forced_on x \<noteq> None \<Longrightarrow> att_grows d (apply_op x d)"
proof (cases x)
  case (Op_add s now)
  have "att_grows d (insert_submission s now d)"
    unfolding insert_submission_def by (intro att_grows_intros)
  then show ?thesis
    by (auto simp: Op_add committed_def add_job_checked_def and_then_def Let_def
        split: sum.splits option.splits if_splits)
next
  case (Op_prune ids states cutoff)
  then show ?thesis by (simp add: att_grows_prune)
qed (auto simp: retry_job_def cancel_job_def requeue_def Let_def split: option.split
    intro!: att_grows_intros)

section \<open>The invariant\<close>

definition hold_ok :: "db \<Rightarrow> int set \<Rightarrow> int \<Rightarrow> string \<Rightarrow> int \<Rightarrow> int \<Rightarrow> bool" where
  \<comment> \<open>a worker owns the job it holds exactly until the attempt is revoked, and while it does, its attempt
     is the current one\<close>
  "hold_ok d rv p w k a \<longleftrightarrow> a \<le> atts_seq d \<and> (\<forall>x\<in>set (atts d). a_id x = a \<longrightarrow> a_job_id x = k) \<and>
     (owns d k w p \<longleftrightarrow> a \<notin> rv) \<and> (owns d k w p \<longrightarrow> a_id (last (atts_of d k)) = a)"

definition calm :: "db \<Rightarrow> pyfloat \<Rightarrow> int \<Rightarrow> int \<Rightarrow> string \<Rightarrow> bool" where
  \<comment> \<open>the owner's heartbeat is not older than the cutoff\<close>
  "calm d c k p w \<longleftrightarrow> owns d k w p \<longrightarrow> (\<forall>j. get_job d k = Some j \<longrightarrow> \<not> heartbeat_before c j)"

definition sys_inv :: "sys \<Rightarrow> bool" where
  "sys_inv s \<longleftrightarrow> db_inv (y_db s) \<and> (\<forall>r\<in>y_revoked s. r \<le> atts_seq (y_db s)) \<and>
     (\<forall>(k, p, c)\<in>y_nominated s \<union> y_confirmed s. c \<le> y_now s) \<and>
     (\<forall>(k, p, c)\<in>y_confirmed s. y_procs s p \<noteq> Absent \<longrightarrow> c \<le> y_born s p) \<and>
     (\<forall>p w k a. holds (y_procs s p) w k a \<longrightarrow> hold_ok (y_db s) (y_revoked s) p w k a \<and>
        (\<forall>c. (k, p, c) \<in> y_confirmed s \<longrightarrow> calm (y_db s) c k p w))"

lemma hold_names:
  assumes "hold_ok d rv p w k a"
  shows "names_attempt d k a w p"
  using assms by (auto simp: hold_ok_def names_attempt_def owns_guard split: option.split)

definition run_same :: "int \<Rightarrow> db \<Rightarrow> db \<Rightarrow> bool" where
  \<comment> \<open>as far as running jobs go, nothing happened to \<open>k\<close>\<close>
  "run_same k d d' \<longleftrightarrow> (\<forall>j. j_state j = RUNNING \<longrightarrow> (get_job d' k = Some j \<longleftrightarrow> get_job d k = Some j) \<and>
     (get_job d k = Some j \<longrightarrow> atts_of d' k = atts_of d k))"

lemma run_same_only: "only_job i d d' \<Longrightarrow> k \<noteq> i \<Longrightarrow> run_same k d d'"
  by (simp add: run_same_def only_job_def)

lemma run_same_stopped:
  "state_of k d \<noteq> Some RUNNING \<Longrightarrow> state_of k d' \<noteq> Some RUNNING \<Longrightarrow> run_same k d d'"
  by (auto simp: run_same_def state_of_def)

lemma owns_running: "owns d k w p \<Longrightarrow> state_of k d = Some RUNNING"
  by (auto simp: owns_guard owned_by_def state_of_def split: option.splits)

lemma owns_run_same:
  assumes "run_same k d d'"
  shows "owns d' k w p \<longleftrightarrow> owns d k w p"
proof -
  have "owns e k w p \<longleftrightarrow> (\<exists>j. j_state j = RUNNING \<and> get_job e k = Some j \<and> owned_by k w p j)" for e
    by (auto simp: owns_guard owned_by_def split: option.splits)
  then show ?thesis using assms by (auto simp: run_same_def)
qed

lemma ids_grow:
  assumes "att_grows d d'" and "a \<le> atts_seq d" and "\<forall>x\<in>set (atts d). a_id x = a \<longrightarrow> a_job_id x = k"
  shows "a \<le> atts_seq d' \<and> (\<forall>x\<in>set (atts d'). a_id x = a \<longrightarrow> a_job_id x = k)"
  using assms unfolding att_grows_def by fastforce

lemma hold_same:
  assumes "hold_ok d rv p w k a" and "run_same k d d'" and "att_grows d d'"
    and "a \<in> rv' \<longleftrightarrow> a \<in> rv"
  shows "hold_ok d' rv' p w k a"
proof -
  have atts: "owns d k w p \<Longrightarrow> atts_of d' k = atts_of d k"
    using assms(2) by (auto simp: run_same_def owns_guard owned_by_def split: option.splits)
  from assms(1) have h: "a \<le> atts_seq d" "\<forall>x\<in>set (atts d). a_id x = a \<longrightarrow> a_job_id x = k"
    "owns d k w p \<longleftrightarrow> a \<notin> rv" "owns d k w p \<longrightarrow> a_id (last (atts_of d k)) = a"
    by (simp_all add: hold_ok_def)
  show ?thesis
    unfolding hold_ok_def owns_run_same[OF assms(2)]
    using ids_grow[OF assms(3) h(1,2)] h(3,4) assms(4) atts by simp
qed

lemma calm_same: "calm d c k p w \<Longrightarrow> run_same k d d' \<Longrightarrow> calm d' c k p w"
  unfolding calm_def using owns_run_same[of k d d' w p]
  by (auto simp: run_same_def owns_guard owned_by_def split: option.splits)

lemma hold_lost:
  assumes "hold_ok d rv p w k a" and "a \<in> rv'" and "\<not> owns d' k w p" and "att_grows d d'"
  shows "hold_ok d' rv' p w k a"
proof -
  from assms(1) have h: "a \<le> atts_seq d" "\<forall>x\<in>set (atts d). a_id x = a \<longrightarrow> a_job_id x = k"
    by (simp_all add: hold_ok_def)
  show ?thesis unfolding hold_ok_def using ids_grow[OF assms(4) h] assms(2,3) by simp
qed

lemma calm_lost: "\<not> owns d k w p \<Longrightarrow> calm d c k p w"
  by (simp add: calm_def)

section \<open>What each operation does to running jobs\<close>

lemma claim_effect:
  assumes "db_inv d" and "claim_next w p t out lane slots d = (Some (j, a), d')"
  shows "att_grows d d'" and "only_job (j_id j) d d'" and "state_of (j_id j) d = Some QUEUED"
    and "owns d' (j_id j) v q \<longleftrightarrow> v = w \<and> q = p" and "a_id a = atts_seq d + 1"
    and "atts_seq d' = atts_seq d + 1" and "last (atts_of d' (j_id j)) = a" and "a_job_id a = j_id j"
    and "get_job d' (j_id j) = Some j" and "j_heartbeat_at j = Some t" and "a \<in> set (atts d')"
proof -
  from assms(2) db_inv_tables[OF assms(1)] obtain row where
    row: "get_job d (j_id row) = Some row" "eligible t lane row"
      "d' = claim_row (j_id row) w p t out d" "j = lock_row w p t row"
      "a = new_attempt (j_id row) (next_attempt_no (j_id row) d) w p t out (atts_seq d + 1)"
    by (cases rule: claim_next_cases) auto
  have k: "j_id j = j_id row" using row(4) by simp
  show "att_grows d d'" unfolding row(3) claim_row_def by (intro att_grows_intros) simp_all
  show "only_job (j_id j) d d'"
    unfolding row(3) k claim_row_def by (intro only_job_intros) simp_all
  show "state_of (j_id j) d = Some QUEUED" using row(1,2) by (simp add: k state_of_def eligible_def)
  show job: "get_job d' (j_id j) = Some j"
    using row(1) by (simp add: k row(3,4) claim_row_def tab_simps)
  show "owns d' (j_id j) v q \<longleftrightarrow> v = w \<and> q = p"
    using job by (auto simp: owns_guard owned_by_def) (auto simp: row(4) lock_row_def)
  show "a_id a = atts_seq d + 1" "a_job_id a = j_id j" by (simp_all add: row(5) k)
  show "atts_seq d' = atts_seq d + 1"
    by (simp add: row(3) claim_row_def tab_simps) (simp add: insert_attempt_def tab_simps)
  show "last (atts_of d' (j_id j)) = a" by (simp add: row(3,5) k claim_row_def tab_simps)
  show "j_heartbeat_at j = Some t" by (simp add: row(4) lock_row_def)
  show "a \<in> set (atts d')"
    by (simp add: row(3,5) claim_row_def tab_simps) (simp add: insert_attempt_def tab_simps)
qed

lemma success_effect:
  assumes "db_inv d" and "record_success k att w p t d = (r, d')" and "names_attempt d k att w p"
  shows "att_grows d d'" and "only_job k d d'" and "owns d k w p \<Longrightarrow> state_of k d' \<noteq> Some RUNNING"
    and "\<not> owns d k w p \<Longrightarrow> d' = d"
proof -
  have "att_grows d d' \<and> only_job k d d' \<and> (owns d k w p \<longrightarrow> state_of k d' \<noteq> Some RUNNING) \<and>
      (\<not> owns d k w p \<longrightarrow> d' = d)"
    using assms(2) db_inv_tables[OF assms(1)]
  proof (cases rule: record_success_cases)
    case (won j)
    have "only_job k d d'"
      unfolding won(4) using assms(3)
      by (intro only_job_intros) (auto simp: tab_simps owned_by_def names_attempt_def)
    moreover have "att_grows d d'" unfolding won(4) by (intro att_grows_intros) simp_all
    moreover have "state_of k d' \<noteq> Some RUNNING"
      using won(1,2) by (simp add: won(4) state_of_def tab_simps succeed_row_def)
    ultimately show ?thesis using won(1,2) by (simp add: owns_guard)
  qed (auto simp: owns_guard split: option.splits)
  then show "att_grows d d'" and "only_job k d d'"
    and "owns d k w p \<Longrightarrow> state_of k d' \<noteq> Some RUNNING" and "\<not> owns d k w p \<Longrightarrow> d' = d" by auto
qed

lemma failure_effect:
  assumes "db_inv d" and "record_failure k att w p kind x err t reason d = Inr (r, d')"
    and "names_attempt d k att w p"
  shows "att_grows d d'" and "only_job k d d'" and "owns d k w p \<Longrightarrow> state_of k d' \<noteq> Some RUNNING"
    and "\<not> owns d k w p \<Longrightarrow> d' = d"
proof -
  have "att_grows d d' \<and> only_job k d d' \<and> (owns d k w p \<longrightarrow> state_of k d' \<noteq> Some RUNNING) \<and>
      (\<not> owns d k w p \<longrightarrow> d' = d)"
    using assms(2) db_inv_tables[OF assms(1)]
  proof (cases rule: record_failure_cases)
    case (won j st ev fr ns nr)
    have "only_job k d d'"
      unfolding won(7) recorded_failure_def Let_def using assms(3)
      by (cases "ns = DEAD") (auto intro!: only_job_intros
          simp: tab_simps owned_by_def names_attempt_def)
    moreover have "att_grows d d'"
      unfolding won(7) recorded_failure_def Let_def by (auto intro!: att_grows_intros)
    moreover have "state_of k d' \<noteq> Some RUNNING"
      using won(1,2) after_failure_cases[OF won(5)]
      by (auto simp: won(7) recorded_failure_def Let_def state_of_def tab_simps fail_row_def)
    ultimately show ?thesis using won(1,2) by (simp add: owns_guard)
  qed (auto simp: owns_guard split: option.splits)
  then show "att_grows d d'" and "only_job k d d'"
    and "owns d k w p \<Longrightarrow> state_of k d' \<noteq> Some RUNNING" and "\<not> owns d k w p \<Longrightarrow> d' = d" by auto
qed

lemma reap_effect:
  assumes "db_inv d" and "reap k pid c t reaper d = (r, d')"
  shows "att_grows d d'" and "only_job k d d'"
    and "d' = d \<or> state_of k d' \<noteq> Some RUNNING \<and> (\<exists>j. get_job d k = Some j \<and> reapable k pid c j)"
proof -
  have "att_grows d d' \<and> only_job k d d' \<and> (d' = d \<or> state_of k d' \<noteq> Some RUNNING \<and>
      (\<exists>j. get_job d k = Some j \<and> reapable k pid c j))"
    using assms(2) db_inv_tables[OF assms(1)]
  proof (cases rule: reap_cases)
    case (won j ns nr)
    have "only_job k d d'"
      unfolding won(5) reaped_def Let_def
      by (cases "ns = DEAD") (auto intro!: only_job_intros simp: tab_simps)
    moreover have "att_grows d d'"
      unfolding won(5) reaped_def Let_def by (auto intro!: att_grows_intros)
    moreover have "state_of k d' \<noteq> Some RUNNING"
      using won(1) get_job_id[OF won(1)] after_failure_cases[OF won(3)]
      by (auto simp: won(5) reaped_def Let_def state_of_def tab_simps crash_row_def)
    ultimately show ?thesis using won(1,2) by auto
  qed simp
  then show "att_grows d d'" and "only_job k d d'"
    and "d' = d \<or> state_of k d' \<noteq> Some RUNNING \<and> (\<exists>j. get_job d k = Some j \<and> reapable k pid c j)"
    by auto
qed

lemma beat_effect:
  assumes "db_inv d" and "update_heartbeat k w p t d = (n, d')"
  shows "att_grows d d'" and "only_job k d d'" and "atts d' = atts d \<and> atts_seq d' = atts_seq d"
    and "owns d' k v q \<longleftrightarrow> owns d k v q" and "n = 0 \<longleftrightarrow> \<not> owns d k w p"
    and "\<not> owns d k w p \<Longrightarrow> d' = d"
    and "owns d k w p \<Longrightarrow> get_job d' k = Some j \<Longrightarrow> j_heartbeat_at j = Some t"
proof -
  have "att_grows d d' \<and> only_job k d d' \<and> (atts d' = atts d \<and> atts_seq d' = atts_seq d) \<and>
      (owns d' k v q \<longleftrightarrow> owns d k v q) \<and> (n = 0 \<longleftrightarrow> \<not> owns d k w p) \<and> (\<not> owns d k w p \<longrightarrow> d' = d) \<and>
      (owns d k w p \<longrightarrow> get_job d' k = Some j \<longrightarrow> j_heartbeat_at j = Some t)"
    using assms(2) db_inv_tables[OF assms(1)]
  proof (cases rule: update_heartbeat_cases)
    case (held row)
    have "only_job k d d'" unfolding held(4) by (intro only_job_intros) (auto simp: owned_by_def)
    moreover have "att_grows d d'" unfolding held(4) by (intro att_grows_intros)
    moreover have "owns d' k v q \<longleftrightarrow> owns d k v q"
      using held(1,2) by (simp add: held(4) owns_guard tab_simps) (simp add: owned_by_def)
    moreover have "get_job d' k = Some j \<Longrightarrow> j_heartbeat_at j = Some t"
      using held(1,2) by (auto simp: held(4) tab_simps)
    ultimately show ?thesis using held by (simp add: owns_guard tab_simps)
  qed (auto simp: owns_guard split: option.splits)
  then show "att_grows d d'" and "only_job k d d'" and "atts d' = atts d \<and> atts_seq d' = atts_seq d"
    and "owns d' k v q \<longleftrightarrow> owns d k v q" and "n = 0 \<longleftrightarrow> \<not> owns d k w p"
    and "\<not> owns d k w p \<Longrightarrow> d' = d"
    and "owns d k w p \<Longrightarrow> get_job d' k = Some j \<Longrightarrow> j_heartbeat_at j = Some t" by auto
qed

lemma run_same_moved:
  assumes "only_job i d d'" and "state_of i d \<noteq> Some RUNNING" and "state_of i d' \<noteq> Some RUNNING"
  shows "run_same k d d'"
  using run_same_only[OF assms(1), of k] run_same_stopped[OF assms(2,3)] by (cases "k = i") simp_all

lemma add_same:
  assumes "db_inv d"
  shows "run_same k d (committed d (add_job_checked s now d))"
proof -
  let ?i = "jobs_seq d + 1" and ?d = "insert_submission s now d"
  have new: "get_job (insert_job (new_job s now) d) i = (if i = ?i then Some (new_job s now ?i)
      else get_job d i)" for i
    using get_job_insert_job[OF db_inv_tables[OF assms]] by simp
  have "get_job d ?i = None" using view_fresh[OF assms, of ?i] by simp
  moreover have "only_job ?i d ?d"
    using db_inv_tables[OF assms] by (simp add: insert_submission_def only_job_def tab_simps new)
  moreover have "state_of ?i ?d = Some QUEUED"
    using db_inv_tables[OF assms] by (simp add: insert_submission_def state_of_def tab_simps new)
      (simp add: new_job_def)
  ultimately have "run_same k d ?d" by (intro run_same_moved[of ?i]) (auto simp: state_of_def)
  moreover have "run_same k d d" by (simp add: run_same_def)
  ultimately show ?thesis
    by (auto simp: committed_def add_job_checked_def and_then_def Let_def
        split: sum.splits option.splits if_splits)
qed

lemma retry_same:
  assumes "db_inv d"
  shows "run_same k d (snd (retry_job i False now d))"
proof (cases "get_job d i")
  case (Some j)
  have "run_same k d (requeue i False now d)" if "j_state j \<noteq> RUNNING"
  proof (rule run_same_moved[of i])
    show "only_job i d (requeue i False now d)"
      unfolding requeue_def by (intro only_job_intros) simp_all
  qed (use that Some get_job_id[OF Some] in
      \<open>auto simp: requeue_def state_of_def tab_simps requeue_row_def\<close>)
  with Some show ?thesis by (auto simp: retry_job_def Let_def run_same_def)
qed (simp add: retry_job_def run_same_def)

lemma cancel_same:
  assumes "db_inv d"
  shows "run_same k d (snd (cancel_job i False now d))"
proof (cases "get_job d i")
  case (Some j)
  let ?d = "add_event i now EV_CANCELED None None
      (update_jobs (\<lambda>j. j_id j = i) (\<lambda>j. j\<lparr>j_state := CANCELED, j_finished_at := Some now\<rparr>) d)"
  have "run_same k d ?d" if "j_state j = QUEUED"
  proof (rule run_same_moved[of i])
    show "only_job i d ?d" by (intro only_job_intros) simp_all
  qed (use that Some get_job_id[OF Some] in \<open>auto simp: state_of_def tab_simps\<close>)
  with Some show ?thesis by (auto simp: cancel_job_def run_same_def)
qed (simp add: cancel_job_def run_same_def)

lemma prune_same:
  assumes "db_inv d" and "set states \<subseteq> set PRUNABLE_STATES"
  shows "run_same k d (snd (prune_delete ids states cutoff d))"
proof -
  obtain x y z d' where r: "prune_delete ids states cutoff d = ((x, y, z), d')" by (metis prod_cases3 surj_pair)
  let ?P = "pruned ids states cutoff d"
  from r have d': "d' = delete_jobs (\<lambda>j. ?P (j_id j))
        (delete_events (\<lambda>e. ?P (e_job_id e)) (delete_attempts (\<lambda>a. ?P (a_job_id a)) d))"
    unfolding prune_delete_def prune_fold by simp
  have keep: "get_job d' i = (if ?P i then None else get_job d i)" for i
  proof -
    have "find (\<lambda>j. j_id j = i) (filter (\<lambda>j. \<not> ?P (j_id j)) xs) =
        (if ?P i then None else find (\<lambda>j. j_id j = i) xs)" for xs :: "job list"
      by (induction xs) auto
    then show ?thesis by (simp add: d' get_job_def statement_defs)
  qed
  have atts: "\<not> ?P k \<Longrightarrow> atts_of d' k = atts_of d k"
    by (auto simp: d' atts_of_def statement_defs intro!: filter_cong)
  have "\<not> ?P k" if "get_job d k = Some j" "j_state j = RUNNING" for j
    using that assms(2) by (auto simp: pruned_def prunable_def PRUNABLE_STATES_def)
  with keep atts show ?thesis by (auto simp: r run_same_def)
qed

lemma operate_same: "db_inv d \<Longrightarrow> unforced x \<Longrightarrow> run_same k d (apply_op x d)"
  by (cases x) (simp_all add: add_same retry_same cancel_same prune_same)

lemma operate_inv: "db_inv d \<Longrightarrow> unforced x \<or> forced_on x \<noteq> None \<Longrightarrow> db_inv (apply_op x d)"
  by (rule db_inv_apply, assumption, cases x) auto

lemma force_effect:
  assumes "forced_on x = Some k"
  shows "only_job k d (apply_op x d)" and "state_of k (apply_op x d) \<noteq> Some RUNNING"
proof -
  have "only_job k d (apply_op x d) \<and> state_of k (apply_op x d) \<noteq> Some RUNNING"
  proof (cases x)
    case (Op_retry i force now)
    with assms have x: "x = Op_retry k True now" by (cases force) auto
    show ?thesis
    proof (cases "get_job d k")
      case (Some j)
      let ?d = "update_attempts (running_attempt_of k)
          (abandon now ''force-retried'' REASON_CANCELED ATT_ABANDONED) d"
      have "only_job k d (requeue k True now ?d)"
        unfolding requeue_def by (intro only_job_intros) (simp_all add: running_attempt_of_def)
      moreover have "state_of k (requeue k True now ?d) = Some QUEUED"
        using Some get_job_id[OF Some] by (simp add: requeue_def state_of_def tab_simps requeue_row_def)
      ultimately show ?thesis using Some by (auto simp: x retry_job_def Let_def state_of_def)
    qed (simp add: x retry_job_def state_of_def)
  next
    case (Op_cancel i allow now)
    with assms have x: "x = Op_cancel k True now" by (cases allow) auto
    show ?thesis
    proof (cases "get_job d k")
      case (Some j)
      have run: "count_where (\<lambda>j. j_id j = k \<and> j_state j = RUNNING) (jobs d) \<noteq> 0"
        if "j_state j = RUNNING"
        using that Some get_job_Some[OF Some] by (auto simp: count_where_eq_0)
      show ?thesis using Some get_job_id[OF Some] run
        by (auto simp: x cancel_job_def state_of_def tab_simps running_attempt_of_def
            intro!: only_job_intros)
    qed (simp add: x cancel_job_def state_of_def)
  qed (use assms in auto)
  then show "only_job k d (apply_op x d)" and "state_of k (apply_op x d) \<noteq> Some RUNNING" by auto
qed

lemma taken_from_attempt:
  assumes "db_inv d" and "b \<in> taken_from k d"
  shows "\<exists>x\<in>set (atts d). a_id x = b \<and> a_job_id x = k" and "b \<le> atts_seq d"
proof -
  from assms(2) obtain j where j: "get_job d k = Some j" "j_state j = RUNNING"
    and b: "b = a_id (last (atts_of d k))"
    by (auto simp: taken_from_def state_of_def split: if_splits)
  have "last (atts_of d k) \<in> set (atts d) \<and> a_job_id (last (atts_of d k)) = k"
    using last_is_running[OF db_inv_job[OF assms(1) j(1)] j(2)] by (simp add: running_attempt_of_def)
  then show *: "\<exists>x\<in>set (atts d). a_id x = b \<and> a_job_id x = k" using b by auto
  with db_inv_tables[OF assms(1)] show "b \<le> atts_seq d"
    by (auto simp: tables_ok_def ids_ok_def)
qed


section \<open>Every transition keeps the invariant\<close>

definition held_ok :: "db \<Rightarrow> int set \<Rightarrow> (int \<times> int \<times> pyfloat) set \<Rightarrow> int \<Rightarrow> proc \<Rightarrow> bool" where
  "held_ok d rv cs p x \<longleftrightarrow> (\<forall>w k a. holds x w k a \<longrightarrow>
     hold_ok d rv p w k a \<and> (\<forall>c. (k, p, c) \<in> cs \<longrightarrow> calm d c k p w))"

lemma held_ok_none [simp]: "held_ok d rv cs p Absent" "held_ok d rv cs p (Idle w)"
  by (simp_all add: held_ok_def)

lemma sys_inv_alt: "sys_inv s \<longleftrightarrow> db_inv (y_db s) \<and> (\<forall>r\<in>y_revoked s. r \<le> atts_seq (y_db s)) \<and>
     (\<forall>k p c. (k, p, c) \<in> y_nominated s \<or> (k, p, c) \<in> y_confirmed s \<longrightarrow> c \<le> y_now s) \<and>
     (\<forall>k p c. (k, p, c) \<in> y_confirmed s \<longrightarrow> y_procs s p \<noteq> Absent \<longrightarrow> c \<le> y_born s p) \<and>
     (\<forall>p. held_ok (y_db s) (y_revoked s) (y_confirmed s) p (y_procs s p))"
  unfolding sys_inv_def held_ok_def by blast

lemma held_ok_confirm:
  "y p = Absent \<Longrightarrow> held_ok d rv (insert (k, p, c) cs) q (y q) \<longleftrightarrow> held_ok d rv cs q (y q)"
  by (cases "q = p") (simp_all add: held_ok_def)

lemma kept_same:
  assumes "hold_ok d rv p w k a \<and> (\<forall>c. (k, p, c) \<in> cs \<longrightarrow> calm d c k p w)"
    and "run_same k d d'" and "att_grows d d'" and "a \<in> rv' \<longleftrightarrow> a \<in> rv"
  shows "hold_ok d' rv' p w k a \<and> (\<forall>c. (k, p, c) \<in> cs \<longrightarrow> calm d' c k p w)"
proof (intro conjI allI impI)
  show "hold_ok d' rv' p w k a" by (rule hold_same[OF conjunct1[OF assms(1)] assms(2-4)])
  show "calm d' c k p w" if "(k, p, c) \<in> cs" for c
    by (rule calm_same[OF _ assms(2)]) (use assms(1) that in simp)
qed

lemma kept_lost:
  assumes "hold_ok d rv p w k a \<and> (\<forall>c. (k, p, c) \<in> cs \<longrightarrow> calm d c k p w)"
    and "a \<in> rv'" and "\<not> owns d' k w p" and "att_grows d d'"
  shows "hold_ok d' rv' p w k a \<and> (\<forall>c. (k, p, c) \<in> cs \<longrightarrow> calm d' c k p w)"
proof (intro conjI allI impI)
  show "hold_ok d' rv' p w k a" by (rule hold_lost[OF conjunct1[OF assms(1)] assms(2-4)])
  show "calm d' c k p w" for c by (rule calm_lost[OF assms(3)])
qed

lemma held_ok_same:
  assumes "held_ok d rv cs p x" and "\<And>k. run_same k d d'" and "att_grows d d'"
  shows "held_ok d' rv cs p x"
  unfolding held_ok_def
proof (intro allI impI)
  fix w k a
  assume "holds x w k a"
  with assms(1) show "hold_ok d' rv p w k a \<and> (\<forall>c. (k, p, c) \<in> cs \<longrightarrow> calm d' c k p w)"
    by (intro kept_same[OF _ assms(2,3)]) (simp_all add: held_ok_def)
qed

lemma held_ok_stopped:
  \<comment> \<open>one job stops running: its holder's attempt is, or becomes, a revoked one\<close>
  assumes "held_ok d rv cs p x" and "att_grows d d'" and "only_job i d d'"
    and "state_of i d' \<noteq> Some RUNNING" and "\<And>w a. holds x w i a \<Longrightarrow> a \<in> rv'"
    and "\<And>w k a. holds x w k a \<Longrightarrow> k \<noteq> i \<Longrightarrow> hold_ok d rv p w k a \<Longrightarrow> a \<in> rv' \<longleftrightarrow> a \<in> rv"
  shows "held_ok d' rv' cs p x"
  unfolding held_ok_def
proof (intro allI impI)
  fix w k a
  assume h: "holds x w k a"
  with assms(1) have ok: "hold_ok d rv p w k a \<and> (\<forall>c. (k, p, c) \<in> cs \<longrightarrow> calm d c k p w)"
    by (simp add: held_ok_def)
  show "hold_ok d' rv' p w k a \<and> (\<forall>c. (k, p, c) \<in> cs \<longrightarrow> calm d' c k p w)"
  proof (cases "k = i")
    case True
    then have "\<not> owns d' k w p" using assms(4) owns_running[of d' k w p] by blast
    with True h assms(5) show ?thesis by (intro kept_lost[OF ok _ _ assms(2)]) auto
  next
    case False
    show ?thesis
      by (rule kept_same[OF ok run_same_only[OF assms(3) False] assms(2)
            assms(6)[OF h False conjunct1[OF ok]]])
  qed
qed

lemma owns_unique: "owns d k w p \<Longrightarrow> owns d k w' p' \<Longrightarrow> w' = w \<and> p' = p"
  by (auto simp: owns_guard owned_by_def split: option.splits)

lemma held_ok_finish:
  \<comment> \<open>a worker's result takes its job out of \<open>RUNNING\<close>, or changes nothing\<close>
  assumes "\<forall>q. held_ok d rv cs q (f q)" and "att_grows d d'" and "only_job k d d'"
    and "owns d k w p \<Longrightarrow> state_of k d' \<noteq> Some RUNNING" and "\<not> owns d k w p \<Longrightarrow> d' = d"
  shows "held_ok d' rv cs q ((f(p := Idle v)) q)"
proof (cases "q = p \<or> \<not> owns d k w p")
  case True
  with assms(1,5) show ?thesis by auto
next
  case False
  from assms(1) have q: "held_ok d rv cs q (f q)" by blast
  have "held_ok d' rv cs q (f q)"
  proof (rule held_ok_stopped[OF q assms(2,3)])
    show "state_of k d' \<noteq> Some RUNNING" using False assms(4) by blast
    show "a \<in> rv" if "holds (f q) v k a" for v a
      using q that False owns_unique[of d k w p v q] by (auto simp: held_ok_def hold_ok_def)
  qed simp
  with False show ?thesis by simp
qed

lemma held_ok_claim:
  assumes "db_inv d" and "claim_next w p t out lane slots d = (Some (j, a), d')"
    and "\<forall>q. held_ok d rv cs q (f q)" and "\<forall>r\<in>rv. r \<le> atts_seq d"
    and "\<And>k c. (k, p, c) \<in> cs \<Longrightarrow> c \<le> t"
  shows "held_ok d' rv cs q ((f(p := Busy w (j_id j) (a_id a))) q)"
proof -
  note eff = claim_effect[OF assms(1,2)]
  let ?i = "j_id j"
  show ?thesis
  proof (cases "q = p")
    case True
    have seq: "at.ok d'"
      using db_inv_tables[OF db_inv_claim[OF assms(1,2)]] by (simp add: tables_ok_def)
    have "x = a" if "x \<in> set (atts d')" "a_id x = a_id a" for x
      using at.find_by_id[OF seq that(1), unfolded that(2)] at.find_by_id[OF seq eff(11)]
      by (simp only: option.inject)
    then have "hold_ok d' rv p w ?i (a_id a)"
      unfolding hold_ok_def using eff(4)[of w p] eff(5-8) assms(4) by force
    moreover have "calm d' c ?i p w" if "(?i, p, c) \<in> cs" for c
      using assms(5)[OF that] eff(9,10) by (auto simp: calm_def heartbeat_before_def)
    ultimately show ?thesis using True by (simp add: held_ok_def)
  next
    case False
    have "hold_ok d' rv q v k b \<and> (\<forall>c. (k, q, c) \<in> cs \<longrightarrow> calm d' c k q v)"
      if "holds (f q) v k b" for v k b
    proof -
      from assms(3) that have ok: "hold_ok d rv q v k b \<and> (\<forall>c. (k, q, c) \<in> cs \<longrightarrow> calm d c k q v)"
        by (simp add: held_ok_def)
      show ?thesis
      proof (cases "k = ?i")
        case True
        have "\<not> owns d k v q" using True eff(3) owns_running[of d k v q] by auto
        then have "b \<in> rv" using ok(1) by (simp add: hold_ok_def)
        moreover have "\<not> owns d' k v q" using True False eff(4)[of v q] by simp
        ultimately show ?thesis by (intro kept_lost[OF ok _ _ eff(1)])
      next
        case False
        from run_same_only[OF eff(2) False] show ?thesis
          by (intro kept_same[OF ok _ eff(1)]) simp_all
      qed
    qed
    with False show ?thesis by (simp add: held_ok_def)
  qed
qed

lemma held_ok_beat:
  assumes "db_inv d" and "update_heartbeat k w p t d = (n, d')" and "f p = Busy w k a"
    and "\<forall>q. held_ok d rv cs q (f q)" and "\<And>c. (k, p, c) \<in> cs \<Longrightarrow> c \<le> t"
  shows "held_ok d' rv cs q ((f(p := if n = 0 then Stopping w k a else Busy w k a)) q)"
proof -
  note eff = beat_effect[OF assms(1,2)]
  have held: "holds ((f(p := if n = 0 then Stopping w k a else Busy w k a)) q) v i b \<longleftrightarrow> holds (f q) v i b"
    for v i b using assms(3) by auto
  have "hold_ok d' rv q v i b \<and> (\<forall>c. (i, q, c) \<in> cs \<longrightarrow> calm d' c i q v)" if "holds (f q) v i b" for v i b
  proof -
    from assms(4) that have ok: "hold_ok d rv q v i b \<and> (\<forall>c. (i, q, c) \<in> cs \<longrightarrow> calm d c i q v)"
      by (simp add: held_ok_def)
    show ?thesis
    proof (cases "i = k")
      case False
      show ?thesis by (rule kept_same[OF ok run_same_only[OF eff(2) False] eff(1) refl])
    next
      case True
      have "atts_of d' k = atts_of d k" using eff(3) by (simp add: atts_of_def)
      then have "hold_ok d' rv q v k b" using ok True eff(3,4) by (simp add: hold_ok_def)
      moreover have "calm d' c k q v" if c: "(k, q, c) \<in> cs" for c
      proof (cases "owns d k w p")
        case owner: True
        then have "owns d' k v q \<Longrightarrow> q = p" using eff(4)[of v q] owns_unique[of d k w p v q] by blast
        with eff(7)[OF owner] assms(5)[of c] c show ?thesis by (auto simp: calm_def heartbeat_before_def)
      qed (use eff(6) ok True c in simp)
      ultimately show ?thesis using True by blast
    qed
  qed
  then show ?thesis unfolding held_ok_def held by blast
qed

lemma held_ok_reap:
  assumes "db_inv d" and "reap i pid c t reaper d = (r, d')" and "held_ok d rv cs p x"
    and "(i, pid, c) \<in> cs"
  shows "held_ok d' rv cs p x"
  using reap_effect(3)[OF assms(1,2)]
proof
  assume stop: "state_of i d' \<noteq> Some RUNNING \<and> (\<exists>j. get_job d i = Some j \<and> reapable i pid c j)"
  show ?thesis
  proof (rule held_ok_stopped[OF assms(3) reap_effect(1,2)[OF assms(1,2)]])
    show "a \<in> rv" if "holds x w i a" for w a
    proof -
      from assms(3) that have ok: "hold_ok d rv p w i a" "\<forall>c. (i, p, c) \<in> cs \<longrightarrow> calm d c i p w"
        by (simp_all add: held_ok_def)
      have "\<not> owns d i w p"
      proof
        assume own: "owns d i w p"
        with stop have "p = pid" by (auto simp: owns_guard owned_by_def reapable_def)
        with own ok(2) assms(4) stop show False by (auto simp: calm_def reapable_def)
      qed
      with ok(1) show ?thesis by (simp add: hold_ok_def)
    qed
  qed (use stop in simp_all)
qed (use assms(3) in simp)

lemma held_ok_force:
  assumes "db_inv d" and "forced_on x = Some i" and "held_ok d rv cs p y"
  shows "held_ok (apply_op x d) (rv \<union> taken_from i d) cs p y"
proof (rule held_ok_stopped[OF assms(3) att_grows_operate force_effect[OF assms(2)]])
  show "a \<in> rv \<union> taken_from i d" if "holds y w i a" for w a
  proof -
    from assms(3) that have "hold_ok d rv p w i a" by (simp add: held_ok_def)
    then show ?thesis using owns_running[of d i w p] by (auto simp: hold_ok_def taken_from_def)
  qed
  show "a \<in> rv \<union> taken_from i d \<longleftrightarrow> a \<in> rv" if "k \<noteq> i" "hold_ok d rv p w k a" for w k a
  proof -
    have "a \<notin> taken_from i d"
    proof
      assume "a \<in> taken_from i d"
      from taken_from_attempt(1)[OF assms(1) this] that show False by (auto simp: hold_ok_def)
    qed
    then show ?thesis by simp
  qed
qed (use assms(2) in simp)

lemma revoked_bound: "\<forall>r\<in>rv. r \<le> atts_seq d \<Longrightarrow> att_grows d d' \<Longrightarrow> r \<in> rv \<Longrightarrow> r \<le> atts_seq d'"
  by (fastforce simp: att_grows_def)

lemma sys_inv_held: "sys_inv s \<Longrightarrow> held_ok (y_db s) (y_revoked s) (y_confirmed s) p (y_procs s p)"
  by (simp add: sys_inv_alt)

lemma sys_inv_db:
  \<comment> \<open>a transition that runs one transaction\<close>
  assumes "sys_inv s" and "db_inv d'" and "att_grows (y_db s) d'"
    and "\<And>p. held_ok d' (y_revoked s) (y_confirmed s) p (f p)"
    and "\<And>p. f p \<noteq> Absent \<Longrightarrow> y_procs s p \<noteq> Absent"
  shows "sys_inv (s\<lparr>y_db := d', y_procs := f\<rparr>)"
  using assms revoked_bound[OF _ assms(3)] unfolding sys_inv_alt by auto

lemma sys_inv_step:
  assumes inv: "sys_inv s" and "sys_step s s'"
  shows "sys_inv s'"
  using assms(2)
proof cases
  have db: "db_inv (y_db s)" using inv by (simp add: sys_inv_alt)
  have rv: "\<forall>r\<in>y_revoked s. r \<le> atts_seq (y_db s)" using inv by (simp add: sys_inv_alt)
  have held: "\<forall>q. held_ok (y_db s) (y_revoked s) (y_confirmed s) q (y_procs s q)"
    using inv by (simp add: sys_inv_alt)
  {
    case (claim p w t out lane slots r d')
    have born: "c \<le> t" if "(k, p, c) \<in> y_confirmed s" for k c
      using inv that claim(2,3) by (fastforce simp: sys_inv_alt)
    show ?thesis
    proof (cases r)
      case None
      with claim(4) db_inv_tables[OF db] have "d' = y_db s"
        by (cases rule: claim_next_cases) auto
      moreover have "(y_procs s)(p := Idle w) = y_procs s" by (rule fun_upd_idem) (rule claim(2))
      ultimately show ?thesis using inv None claim(1) by simp
    next
      case (Some x)
      obtain j a where "x = (j, a)" by fastforce
      with claim(4) Some have c: "claim_next w p t out lane slots (y_db s) = (Some (j, a), d')" by simp
      show ?thesis
        unfolding claim(1) Some \<open>x = (j, a)\<close> option.case prod.case
        by (rule sys_inv_db[OF inv db_inv_claim[OF db c] claim_effect(1)[OF db c]
              held_ok_claim[OF db c held rv born]]) (use claim(2) in \<open>auto split: if_splits\<close>)
    qed
  next
    case (beat p w k a t n d')
    have born: "c \<le> t" if "(k, p, c) \<in> y_confirmed s" for c
      using inv that beat(2,3) by (fastforce simp: sys_inv_alt)
    show ?thesis
      unfolding beat(1)
      by (rule sys_inv_db[OF inv db_inv_heartbeat[OF db beat(4)] beat_effect(1)[OF db beat(4)]
            held_ok_beat[OF db beat(4,2) held born]]) (use beat(2) in \<open>auto split: if_splits\<close>)
  next
    case (succeed p w k a t r d')
    have "hold_ok (y_db s) (y_revoked s) p w k a"
      using held succeed(2) by (auto simp: held_ok_def)
    note eff = success_effect[OF db succeed(3) hold_names[OF this]]
    have inv': "db_inv d'" by (rule db_inv_success[OF db succeed(3) hold_names]) fact
    show ?thesis
      unfolding succeed(1)
      by (rule sys_inv_db[OF inv inv' eff(1) held_ok_finish[OF held eff]])
        (use succeed(2) in \<open>auto split: if_splits\<close>)
  next
    case (fail p w k a kind x err t reason r d')
    have "hold_ok (y_db s) (y_revoked s) p w k a"
      using held fail(2) by (auto simp: held_ok_def)
    note eff = failure_effect[OF db fail(3) hold_names[OF this]]
    have inv': "db_inv d'" by (rule db_inv_failure[OF db fail(3) hold_names]) fact
    show ?thesis
      unfolding fail(1)
      by (rule sys_inv_db[OF inv inv' eff(1) held_ok_finish[OF held eff]])
        (use fail(2) in \<open>auto split: if_splits\<close>)
  next
    case (reap k pid cutoff t reaper r d')
    have inv': "db_inv d'" by (rule db_inv_reap[OF db reap(3)])
    have "held_ok d' (y_revoked s) (y_confirmed s) p (y_procs s p)" for p
      using held_ok_reap[OF db reap(3) _ reap(2)] held by blast
    from sys_inv_db[OF inv inv' reap_effect(1)[OF db reap(3)] this] show ?thesis
      unfolding reap(1) by simp
  next
    case (operate x)
    have "held_ok (apply_op x (y_db s)) (y_revoked s) (y_confirmed s) p (y_procs s p)" for p
      using held operate_same[OF db operate(2)] att_grows_operate[of x "y_db s"] operate(2)
      by (blast intro: held_ok_same)
    from sys_inv_db[OF inv operate_inv[OF db] att_grows_operate this] operate(2) show ?thesis
      unfolding operate(1) by simp
  next
    case (force x k)
    have "sys_inv s" by (rule inv)
    moreover have "db_inv (apply_op x (y_db s))" using operate_inv[OF db] force(2) by simp
    moreover have g: "att_grows (y_db s) (apply_op x (y_db s))"
      using att_grows_operate[of x] force(2) by simp
    moreover have "r \<le> atts_seq (apply_op x (y_db s))" if "r \<in> y_revoked s \<union> taken_from k (y_db s)" for r
      using revoked_bound[OF _ g, of "y_revoked s \<union> taken_from k (y_db s)" r] rv
        taken_from_attempt(2)[OF db] that by blast
    ultimately show ?thesis
      unfolding force(1) sys_inv_alt using held_ok_force[OF db force(2)] held by simp
  }
next
  case (tick t)
  have "c \<le> t" if "(k, p, c) \<in> y_nominated s \<or> (k, p, c) \<in> y_confirmed s" for k p c
    by (rule order_trans[OF _ tick(2)]) (use inv that in \<open>unfold sys_inv_alt, blast\<close>)
  with inv tick(1) show ?thesis by (simp add: sys_inv_alt)
next
  case (confirm k pid cutoff)
  with inv show ?thesis by (simp add: sys_inv_alt held_ok_confirm)
qed (use inv in \<open>auto simp: sys_inv_alt\<close>)

interpretation cm: machine sys_init sys_step sys_inv
proof
  show "sys_inv s" if "sys_init s" for s
    using that db_inv_empty by (auto simp: sys_init_def sys_inv_alt)
qed (rule sys_inv_step)

section \<open>Properties of every interleaving\<close>

abbreviation sys_reach :: "sys \<Rightarrow> bool" where
  "sys_reach \<equiv> reach sys_init sys_step"

lemma reach_db_inv: "sys_reach s \<Longrightarrow> db_inv (y_db s)"
  using cm.reach_inv[of s] by (simp add: sys_inv_alt)

lemma reach_hold: "sys_reach s \<Longrightarrow> holds (y_procs s p) w k a \<Longrightarrow> hold_ok (y_db s) (y_revoked s) p w k a"
  using cm.reach_inv[of s] by (simp add: sys_inv_def)

definition sys0 :: sys where
  "sys0 = \<lparr>y_db = empty_db, y_now = 100, y_procs = (\<lambda>_. Absent), y_born = (\<lambda>_. 0),
     y_nominated = {}, y_confirmed = {}, y_revoked = {}\<rparr>"

definition sys_claimed :: sys where
  \<comment> \<open>two workers, and the first has claimed the one job\<close>
  "sys_claimed = sys0\<lparr>y_db := demo_run [Op_add demo_sub 101, Op_claim ''w1'' 7 102 ''out'' ''default'' None],
     y_procs := (\<lambda>_. Absent)(7 := Idle ''w1'', 8 := Idle ''w2'', 7 := Busy ''w1'' 1 1),
     y_born := (\<lambda>_. 0)(7 := 100, 8 := 100)\<rparr>"

definition sys_crashed :: sys where
  "sys_crashed = sys_claimed\<lparr>y_procs := (y_procs sys_claimed)(7 := Absent)\<rparr>"

lemma sys_next: "sys_step s s' \<Longrightarrow> sys_reach s \<Longrightarrow> sys_reach s'"
  by (rule reach.next_state)

lemma sys_claimed_reach: "sys_reach sys_claimed"
proof -
  let ?add = "Op_add demo_sub 101"
  let ?p = "\<lambda>_. Absent" and ?b = "\<lambda>_::int. 0 :: pyfloat"
  have 0: "sys_reach sys0" by (rule reach.start) (simp add: sys_init_def sys0_def)
  have 1: "sys_reach (sys0\<lparr>y_procs := ?p(7 := Idle ''w1''), y_born := ?b(7 := 100)\<rparr>)"
    using sys_next[OF spawn[of sys0 7 "''w1''"] 0] by (simp add: sys0_def)
  have 2: "sys_reach (sys0\<lparr>y_procs := ?p(7 := Idle ''w1'', 8 := Idle ''w2''),
      y_born := ?b(7 := 100, 8 := 100)\<rparr>)"
    using sys_next[OF spawn[of _ 8 "''w2''"] 1] by (simp add: sys0_def)
  let ?s = "sys0\<lparr>y_db := apply_op ?add empty_db, y_procs := ?p(7 := Idle ''w1'', 8 := Idle ''w2''),
      y_born := ?b(7 := 100, 8 := 100)\<rparr>"
  have 3: "sys_reach ?s"
    using sys_next[OF operate[of ?add] 2] by (simp add: sys0_def)
  let ?c = "claim_next ''w1'' 7 102 ''out'' ''default'' None (apply_op ?add empty_db)"
  have "(case fst ?c of Some (j, a) \<Rightarrow> j_id j = 1 \<and> a_id a = 1 | None \<Rightarrow> False)" by code_simp
  then obtain j a d' where c: "?c = (Some (j, a), d')" and id: "j_id j = 1" "a_id a = 1"
    by (cases "fst ?c"; cases ?c) auto
  have db: "demo_run [?add, Op_claim ''w1'' 7 102 ''out'' ''default'' None] = d'"
    using c by (simp add: demo_run_def)
  have "sys_step ?s (?s\<lparr>y_db := d', y_procs := (y_procs ?s)(7 := case Some (j, a) of None \<Rightarrow> Idle ''w1''
      | Some (j, a) \<Rightarrow> Busy ''w1'' (j_id j) (a_id a))\<rparr>)"
    by (rule claim[where t = 102 and out = "''out''" and lane = "''default''" and slots = None])
      (simp_all add: c del: apply_op.simps)
  from sys_next[OF this 3] id
  have "sys_reach (?s\<lparr>y_db := d', y_procs := (y_procs ?s)(7 := Busy ''w1'' 1 1)\<rparr>)"
    by (simp add: sys0_def)
  then show ?thesis by (simp add: sys_claimed_def sys0_def db)
qed

lemma sys_crashed_reach: "sys_reach sys_crashed"
  unfolding sys_crashed_def by (rule sys_next[OF die sys_claimed_reach])









end
