(* ===== verification/Json.thy ===== *)
theory Json
  imports Models "HOL-Library.AList"
begin

text \<open>
  JSON values as Python's \<open>json\<close> module reads and writes them, and the part of JSON Schema (dialect
  2020-12) the schemas of \<open>spoolctl/schemas.py\<close> are written in: the keywords \<open>type\<close>, \<open>enum\<close>, \<open>const\<close>,
  \<open>properties\<close>, \<open>required\<close>, \<open>additionalProperties\<close>, \<open>items\<close> and \<open>oneOf\<close>, with what the dialect says a
  value must satisfy for each. A schema is a datatype of its own; \<open>schema_json\<close> is the dictionary the
  program has for it. The two builders \<open>array_of\<close> and \<open>obj\<close> of the program close the theory, with the
  rules by which the conformance of a dictionary is computed.
\<close>

datatype json =
  JNull | JBool bool | JInt int | JFloat pyfloat | JString string | JList "json list"
| JObject "(string \<times> json) list"  \<comment> \<open>distinct keys\<close>

definition json_opt :: "('a \<Rightarrow> json) \<Rightarrow> 'a option \<Rightarrow> json" where
  \<comment> \<open>\<open>None\<close> of Python is \<open>null\<close>\<close>
  "json_opt f x = (case x of None \<Rightarrow> JNull | Some v \<Rightarrow> f v)"

lemma json_opt_simps [simp]: "json_opt f None = JNull" "json_opt f (Some v) = f v"
  by (simp_all add: json_opt_def)

definition jstrings :: "string list \<Rightarrow> json" where
  "jstrings ss = JList (map JString ss)"

text \<open>Python dictionaries: an update keeps the place of a key it finds and appends the others.\<close>

type_synonym dict = "(string \<times> json) list"

definition dict_update :: "dict \<Rightarrow> dict \<Rightarrow> dict" where
  \<comment> \<open>\<open>{**d, **e}\<close>, and \<open>d.update(e)\<close>\<close>
  "dict_update d e = fold (\<lambda>(k, v). AList.update k v) e d"

definition dict_default :: "string \<Rightarrow> json \<Rightarrow> dict \<Rightarrow> dict" where
  \<comment> \<open>\<open>d.setdefault(k, v)\<close>\<close>
  "dict_default k v d = (if map_of d k = None then d @ [(k, v)] else d)"

lemma map_of_dict_update: "map_of (dict_update d e) = map_of d ++ map_of (rev e)"
  by (induction e arbitrary: d) (auto simp: dict_update_def update_conv' map_add_def fun_eq_iff split: option.splits)

lemma distinct_dict_update: "distinct (map fst d) \<Longrightarrow> distinct (map fst (dict_update d e))"
  by (induction e arbitrary: d) (auto simp: dict_update_def distinct_update)

section \<open>Schemas\<close>

datatype json_type = Null | Boolean | Integer | Number | String | Array | Object

datatype schema = Bool_schema bool | Schema "keyword list"
and keyword = Type json_type | Types "json_type list" | Enum "json list" | Const json
| Properties "(string \<times> schema) list" | Required "string list" | Additional schema
| Items schema | One_of "schema list"

fun has_type :: "json \<Rightarrow> json_type \<Rightarrow> bool" where
  \<comment> \<open>a number with zero fractional part is an integer\<close>
  "has_type JNull t \<longleftrightarrow> t = Null"
| "has_type (JBool b) t \<longleftrightarrow> t = Boolean"
| "has_type (JInt i) t \<longleftrightarrow> t = Integer \<or> t = Number"
| "has_type (JFloat f) t \<longleftrightarrow> t = Number \<or> t = Integer \<and> f = of_int \<lfloor>f\<rfloor>"
| "has_type (JString s) t \<longleftrightarrow> t = String"
| "has_type (JList vs) t \<longleftrightarrow> t = Array"
| "has_type (JObject m) t \<longleftrightarrow> t = Object"

fun same_scalar :: "json \<Rightarrow> json \<Rightarrow> bool" where
  \<comment> \<open>equality of JSON values for scalars: numbers by value\<close>
  "same_scalar (JInt i) (JFloat f) \<longleftrightarrow> of_int i = f"
| "same_scalar (JFloat f) (JInt i) \<longleftrightarrow> f = of_int i"
| "same_scalar v w \<longleftrightarrow> v = w"

fun declared :: "keyword list \<Rightarrow> string list" where
  \<comment> \<open>the names in the sibling \<open>properties\<close>, for \<open>additionalProperties\<close>\<close>
  "declared [] = []"
| "declared (Properties fs # ks) = map fst fs @ declared ks"
| "declared (_ # ks) = declared ks"

fun conforms :: "schema \<Rightarrow> json \<Rightarrow> bool" and satisfies :: "string list \<Rightarrow> keyword \<Rightarrow> json \<Rightarrow> bool" where
  "conforms (Bool_schema b) v = b"
| "conforms (Schema ks) v = list_all (\<lambda>k. satisfies (declared ks) k v) ks"
| "satisfies ps (Type t) v = has_type v t"
| "satisfies ps (Types ts) v = list_ex (has_type v) ts"
| "satisfies ps (Enum vs) v = list_ex (same_scalar v) vs"
| "satisfies ps (Const w) v = same_scalar v w"
| "satisfies ps (Properties fs) v = (case v of
     JObject m \<Rightarrow> list_all (\<lambda>f. case map_of m (fst f) of None \<Rightarrow> True | Some x \<Rightarrow> conforms (snd f) x) fs
   | _ \<Rightarrow> True)"
| "satisfies ps (Required ns) v = (case v of
     JObject m \<Rightarrow> list_all (\<lambda>n. map_of m n \<noteq> None) ns | _ \<Rightarrow> True)"
| "satisfies ps (Additional s) v = (case v of
     JObject m \<Rightarrow> list_all (\<lambda>f. fst f \<in> set ps \<or> conforms s (snd f)) m | _ \<Rightarrow> True)"
| "satisfies ps (Items s) v = (case v of JList vs \<Rightarrow> list_all (conforms s) vs | _ \<Rightarrow> True)"
| "satisfies ps (One_of ss) v = (length (filter (\<lambda>s. conforms s v) ss) = 1)"

text \<open>The dictionary of a schema, as the \<open>schema\<close> verb exports it.\<close>

fun json_type_name :: "json_type \<Rightarrow> string" where
  "json_type_name Null = ''null''"
| "json_type_name Boolean = ''boolean''"
| "json_type_name Integer = ''integer''"
| "json_type_name Number = ''number''"
| "json_type_name String = ''string''"
| "json_type_name Array = ''array''"
| "json_type_name Object = ''object''"

fun schema_json :: "schema \<Rightarrow> json" and keyword_json :: "keyword \<Rightarrow> string \<times> json" where
  "schema_json (Bool_schema b) = JBool b"
| "schema_json (Schema ks) = JObject (map keyword_json ks)"
| "keyword_json (Type t) = (''type'', JString (json_type_name t))"
| "keyword_json (Types ts) = (''type'', JList (map (\<lambda>t. JString (json_type_name t)) ts))"
| "keyword_json (Enum vs) = (''enum'', JList vs)"
| "keyword_json (Const w) = (''const'', w)"
| "keyword_json (Properties fs) = (''properties'', JObject (map (\<lambda>f. (fst f, schema_json (snd f))) fs))"
| "keyword_json (Required ns) = (''required'', JList (map JString ns))"
| "keyword_json (Additional s) = (''additionalProperties'', schema_json s)"
| "keyword_json (Items s) = (''items'', schema_json s)"
| "keyword_json (One_of ss) = (''oneOf'', JList (map schema_json ss))"

section \<open>The builders of the program\<close>

definition array_of :: "schema \<Rightarrow> schema" where
  "array_of item_schema = Schema [Type Array, Items item_schema]"

definition obj_with :: "(string \<times> schema) list \<Rightarrow> string list \<Rightarrow> schema \<Rightarrow> schema" where
  \<comment> \<open>\<open>obj\<close> with \<open>required\<close> and \<open>additional\<close> given\<close>
  "obj_with properties required additional =
     Schema [Type Object, Properties properties, Required required, Additional additional]"

definition obj_req :: "(string \<times> schema) list \<Rightarrow> string list \<Rightarrow> schema" where
  "obj_req properties required = obj_with properties required (Bool_schema False)"

definition obj :: "(string \<times> schema) list \<Rightarrow> schema" where
  "obj properties = obj_req properties (sort (map fst properties))"

definition typed :: "json_type \<Rightarrow> schema" where
  "typed t = Schema [Type t]"

definition nullable :: "json_type \<Rightarrow> schema" where
  "nullable t = Schema [Types [t, Null]]"

definition choice :: "string list \<Rightarrow> schema" where
  "choice names = Schema [Type String, Enum (map JString names)]"

definition const :: "json_type \<Rightarrow> json \<Rightarrow> schema" where
  "const t w = Schema [Type t, Const w]"

definition anything :: schema where
  "anything = Schema []"

definition map_to :: "schema \<Rightarrow> schema" where
  "map_to s = Schema [Type Object, Additional s]"

definition one_of :: "schema list \<Rightarrow> schema" where
  "one_of ss = Schema [One_of ss]"

section \<open>Computing conformance\<close>

lemma conforms_anything [simp]: "conforms anything v"
  by (simp add: anything_def)

lemma conforms_typed [simp]: "conforms (typed t) v \<longleftrightarrow> has_type v t"
  by (simp add: typed_def)

lemma conforms_nullable [simp]: "conforms (nullable t) v \<longleftrightarrow> has_type v t \<or> v = JNull"
  by (cases v) (auto simp: nullable_def)

lemma conforms_nullable_opt [simp]:
  "(\<And>x. has_type (f x) t) \<Longrightarrow> conforms (nullable t) (json_opt f v)"
  by (cases v) (auto simp: nullable_def)

lemma conforms_choice [simp]: "conforms (choice names) (JString s) \<longleftrightarrow> s \<in> set names"
  by (auto simp: choice_def list_ex_iff)

lemma conforms_const [simp]: "conforms (const t w) v \<longleftrightarrow> has_type v t \<and> same_scalar v w"
  by (simp add: const_def)

lemma conforms_array [simp]: "conforms (array_of s) (JList vs) \<longleftrightarrow> (\<forall>v\<in>set vs. conforms s v)"
  by (simp add: array_of_def list_all_iff)

lemma conforms_map_to [simp]: "conforms (map_to s) (JObject m) \<longleftrightarrow> (\<forall>f\<in>set m. conforms s (snd f))"
  by (simp add: map_to_def list_all_iff)

lemma conforms_obj_with:
  "conforms (obj_with fs req add) (JObject m) \<longleftrightarrow>
     list_all (\<lambda>f. case map_of m (fst f) of None \<Rightarrow> True | Some x \<Rightarrow> conforms (snd f) x) fs
     \<and> list_all (\<lambda>n. map_of m n \<noteq> None) req
     \<and> list_all (\<lambda>f. fst f \<in> set (map fst fs) \<or> conforms add (snd f)) m"
  by (simp add: obj_with_def)

lemma list_all_sort: "list_all P (sort xs) \<longleftrightarrow> list_all P xs"
  by (simp add: list_all_iff)

lemma conforms_obj:
  \<comment> \<open>every field is there and conforms, and there is no other\<close>
  "conforms (obj fs) (JObject m) \<longleftrightarrow>
     list_all (\<lambda>f. case map_of m (fst f) of None \<Rightarrow> False | Some x \<Rightarrow> conforms (snd f) x) fs
     \<and> list_all (\<lambda>f. fst f \<in> set (map fst fs)) m"
  unfolding obj_def obj_req_def conforms_obj_with list_all_sort
  by (fastforce simp: list_all_iff split: option.splits)

lemma conforms_obj_req:
  "conforms (obj_req fs req) (JObject m) \<longleftrightarrow>
     list_all (\<lambda>f. case map_of m (fst f) of None \<Rightarrow> True | Some x \<Rightarrow> conforms (snd f) x) fs
     \<and> list_all (\<lambda>n. map_of m n \<noteq> None) req \<and> list_all (\<lambda>f. fst f \<in> set (map fst fs)) m"
  by (simp add: obj_req_def conforms_obj_with)

lemma conforms_one_of: "conforms (one_of ss) v \<longleftrightarrow> length (filter (\<lambda>s. conforms s v) ss) = 1"
  by (simp add: one_of_def)

lemmas conforms_dict = conforms_obj conforms_obj_req conforms_obj_with conforms_one_of

end
