(* ===== verification/Parser.thy ===== *)
theory Parser
  imports Json
begin

text \<open>
  The command line of \<open>spoolctl/cli.py\<close> as \<open>build_parser\<close> declares it: for every verb the actions of its
  subparser, in the order \<open>argparse\<close> keeps them (the help option, those of the parent parser, its own).
  Parsing is \<open>argparse\<close>'s; the attributes of an action are what the contract builders and the
  suggestions read.
\<close>

datatype nargs = One | Plus | Star | Optional | Remainder | Subcommand
  \<comment> \<open>\<open>None\<close>, \<open>'+'\<close>, \<open>'*'\<close>, \<open>'?'\<close>, \<open>REMAINDER\<close>, and the \<open>PARSER\<close> of a subparsers action\<close>

datatype action_kind = Store | Store_true | Append | Help | Subparsers

datatype type_name = No_type | Int_token | Float_token
  \<comment> \<open>\<open>type=\<close>: the tokens keep the text and carry the name \<open>int\<close> or \<open>float\<close>\<close>

record action =
  ac_option_strings :: "string list"
  ac_dest :: string
  ac_kind :: action_kind
  ac_type :: type_name
  ac_default :: json
  ac_required :: bool
  ac_choices :: "string list option"
  ac_nargs :: nargs

definition valued :: "string list \<Rightarrow> type_name \<Rightarrow> json \<Rightarrow> action" where
  \<comment> \<open>\<open>add_argument(*option_strings, type=..., default=...)\<close>\<close>
  "valued option_strings type dflt = \<lparr>ac_option_strings = option_strings, ac_dest = [], ac_kind = Store,
     ac_type = type, ac_default = dflt, ac_required = False, ac_choices = None, ac_nargs = One\<rparr>"

definition switch :: "string list \<Rightarrow> action" where
  \<comment> \<open>\<open>action="store_true"\<close>\<close>
  "switch option_strings = (valued option_strings No_type (JBool False))\<lparr>ac_kind := Store_true\<rparr>"

definition repeated :: "string \<Rightarrow> action" where
  \<comment> \<open>\<open>action="append", default=[]\<close>\<close>
  "repeated option = (valued [option] No_type (JList []))\<lparr>ac_kind := Append\<rparr>"

definition help_flag :: action where
  "help_flag = (valued [''-h'', ''--help''] No_type (JString ''==SUPPRESS==''))\<lparr>ac_kind := Help\<rparr>"

definition positional :: "string \<Rightarrow> nargs \<Rightarrow> action" where
  "positional dest n = (valued [] No_type JNull)\<lparr>ac_dest := dest, ac_required := (n \<in> {One, Plus}),
     ac_nargs := n\<rparr>"

definition common_db :: "action list" where
  "common_db = [help_flag, valued [''--db''] No_type JNull, switch [''--json'']]"

definition common_nodb :: "action list" where
  "common_nodb = [help_flag, switch [''--json'']]"

definition SUBPARSERS :: "(string \<times> action list) list" where
  "SUBPARSERS =
     [(''add'', common_db @
        [valued [''-c''] No_type JNull, valued [''--key''] No_type JNull, repeated ''--tag'',
         valued [''--note''] No_type JNull, valued [''--after''] No_type JNull, valued [''--at''] No_type JNull,
         valued [''--priority''] No_type (JString ''0''), valued [''--queue''] No_type (JString ''default''),
         valued [''--timeout''] Int_token (JInt DEFAULT_TIMEOUT_SECONDS),
         valued [''--max-retries''] Int_token (JInt DEFAULT_MAX_RETRIES),
         valued [''--max-crashes''] Int_token JNull, valued [''--cwd''] No_type JNull, repeated ''--env'',
         positional ''argv'' Remainder]),
      (''work'', common_db @
        [switch [''--once''], switch [''--drain''], valued [''--poll-interval''] Float_token JNull,
         valued [''--worker-id''] No_type JNull, valued [''--queue''] No_type (JString ''default''),
         valued [''--slots''] Int_token JNull]),
      (''wait'', common_db @
        [positional ''ids'' Plus, valued [''--timeout''] Float_token JNull,
         valued [''--poll-interval''] Float_token (JFloat (1 / 2))]),
      (''status'', common_db @ [valued [''--limit''] Int_token (JInt 10)]),
      (''list'', common_db @
        [valued [''--state''] No_type JNull, repeated ''--tag'', valued [''--queue''] No_type JNull,
         valued [''--priority-min''] No_type JNull, valued [''--limit''] Int_token (JInt 50)]),
      (''show'', common_db @ [positional ''id'' One]),
      (''retry'', common_db @ [positional ''id'' One, switch [''--force'']]),
      (''cancel'', common_db @ [positional ''id'' One, switch [''--running''], switch [''-y'', ''--yes'']]),
      (''prune'', common_db @
        [(valued [''--older-than''] No_type JNull)\<lparr>ac_required := True\<rparr>,
         valued [''--state''] No_type (JString ''done''), switch [''--dry-run''], switch [''-y'', ''--yes'']]),
      (''output'', common_db @
        [positional ''id'' One,
         (valued [''--stream''] No_type (JString ''both''))\<lparr>ac_choices := Some [''stdout'', ''stderr'', ''both'']\<rparr>,
         switch [''--raw''], valued [''--attempt''] Int_token JNull]),
      (''feedback'', common_db @
        [positional ''id'' One, valued [''--tail-bytes''] Int_token JNull,
         (valued [''--stream''] No_type (JString ''both''))\<lparr>ac_choices := Some [''stdout'', ''stderr'', ''both'']\<rparr>]),
      (''events'', common_db @
        [valued [''--job''] Int_token JNull, valued [''--since-id'', ''--since-cursor''] Int_token JNull,
         valued [''--limit''] Int_token JNull, valued [''--max-events''] Int_token JNull,
         valued [''--idle-timeout''] Float_token JNull, switch [''--wait''],
         valued [''--wait-timeout''] Float_token (JFloat 30), switch [''--follow''],
         valued [''--poll-interval''] Float_token (JFloat (1 / 2))]),
      (''config-show'', common_db),
      (''config-validate'', common_nodb @ [positional ''path'' Optional]),
      (''doctor'', common_db),
      (''brief'', common_nodb),
      (''schema'', common_nodb @ [valued [''--verb''] No_type JNull]),
      (''capabilities'', common_nodb),
      (''robot-docs'', common_nodb @
        [(positional ''robot_docs_command'' Subcommand)\<lparr>ac_kind := Subparsers, ac_required := True,
           ac_choices := Some [''guide'']\<rparr>])]"

definition long_options :: "action list \<Rightarrow> string list" where
  \<comment> \<open>the option strings that start with two dashes\<close>
  "long_options actions = filter (\<lambda>s. starts_with ''--'' s) (concat (map ac_option_strings actions))"

lemma subparsers_verbs: "set (map fst SUBPARSERS) = set VERBS" "distinct (map fst SUBPARSERS)"
  by (auto simp: SUBPARSERS_def VERBS_def)

end
