(* ===== verification/Registry.thy ===== *)
theory Registry
  imports Json
begin

text \<open>
  The texts the contract publishes for the closed vocabularies of \<open>spoolctl/models.py\<close>: the names of the
  attempt states, failure reasons, event types and codes, the lists \<open>ERROR_CODES\<close> and \<open>WARNING_CODES\<close> derived
  from the registry, and the meaning of every code and exit code. \<open>Models\<close> holds the vocabularies as
  datatypes; here each gets its text.
\<close>

definition TOOL_VERSION :: string where "TOOL_VERSION = ''0.4.11''"
definition CONTRACT_VERSION :: string where "CONTRACT_VERSION = ''2''"

section \<open>Names\<close>

definition ATTEMPT_STATES :: "attempt_state list" where
  "ATTEMPT_STATES =
     [ATT_RUNNING, ATT_SUCCEEDED, ATT_FAILED, ATT_TIMED_OUT, ATT_ABANDONED, ATT_CANCELED]"

fun attempt_state_name :: "attempt_state \<Rightarrow> string" where
  "attempt_state_name ATT_RUNNING = ''running''"
| "attempt_state_name ATT_SUCCEEDED = ''succeeded''"
| "attempt_state_name ATT_FAILED = ''failed''"
| "attempt_state_name ATT_TIMED_OUT = ''timed_out''"
| "attempt_state_name ATT_ABANDONED = ''abandoned''"
| "attempt_state_name ATT_CANCELED = ''canceled''"

fun failure_reason_name :: "failure_reason \<Rightarrow> string" where
  "failure_reason_name REASON_PROCESS_EXIT = ''process_exit''"
| "failure_reason_name REASON_TIMEOUT = ''timeout''"
| "failure_reason_name REASON_SPAWN_FAILED = ''spawn_failed''"
| "failure_reason_name REASON_WORKER_CRASH = ''worker_crash''"
| "failure_reason_name REASON_CANCELED = ''canceled''"
| "failure_reason_name REASON_UNKNOWN = ''unknown''"

definition JOB_EVENT_TYPES :: "event_type list" where
  "JOB_EVENT_TYPES = [EV_ADDED, EV_CLAIMED, EV_SUCCEEDED, EV_FAILED, EV_TIMED_OUT, EV_REAPED, EV_DEAD,
     EV_RETRIED, EV_CANCELED]"

fun event_type_name :: "event_type \<Rightarrow> string" where
  "event_type_name EV_ADDED = ''added''"
| "event_type_name EV_CLAIMED = ''claimed''"
| "event_type_name EV_SUCCEEDED = ''succeeded''"
| "event_type_name EV_FAILED = ''failed''"
| "event_type_name EV_TIMED_OUT = ''timed_out''"
| "event_type_name EV_REAPED = ''reaped''"
| "event_type_name EV_DEAD = ''dead''"
| "event_type_name EV_RETRIED = ''retried''"
| "event_type_name EV_CANCELED = ''canceled''"

fun code_name :: "code \<Rightarrow> string" where
  "code_name INVALID_INPUT = ''INVALID_INPUT''"
| "code_name MISSING_REQUIRED = ''MISSING_REQUIRED''"
| "code_name UNKNOWN_FLAG = ''UNKNOWN_FLAG''"
| "code_name UNKNOWN_COMMAND = ''UNKNOWN_COMMAND''"
| "code_name NOT_FOUND = ''NOT_FOUND''"
| "code_name CONFLICT = ''CONFLICT''"
| "code_name IDEMPOTENCY_CONFLICT = ''IDEMPOTENCY_CONFLICT''"
| "code_name SAFETY_BLOCK = ''SAFETY_BLOCK''"
| "code_name LOCKED = ''LOCKED''"
| "code_name TIMEOUT = ''TIMEOUT''"
| "code_name INTERNAL = ''INTERNAL''"
| "code_name KILL_ASYNC = ''KILL_ASYNC''"
| "code_name NO_ATTEMPTS_YET = ''NO_ATTEMPTS_YET''"
| "code_name IDEMPOTENCY_METADATA_DIFFERS = ''IDEMPOTENCY_METADATA_DIFFERS''"
| "code_name TAG_FILTER_SCAN_CAPPED = ''TAG_FILTER_SCAN_CAPPED''"

definition CODES :: "code list" where
  \<comment> \<open>the keys of \<open>CODE_REGISTRY\<close>\<close>
  "CODES = [INVALID_INPUT, MISSING_REQUIRED, UNKNOWN_FLAG, UNKNOWN_COMMAND, NOT_FOUND, CONFLICT,
     IDEMPOTENCY_CONFLICT, SAFETY_BLOCK, LOCKED, TIMEOUT, INTERNAL, KILL_ASYNC, NO_ATTEMPTS_YET,
     IDEMPOTENCY_METADATA_DIFFERS, TAG_FILTER_SCAN_CAPPED]"

definition ERROR_CODES :: "code list" where
  "ERROR_CODES = filter (\<lambda>c. reg_in_errors (CODE_REGISTRY c)) CODES"

definition WARNING_CODES :: "code list" where
  "WARNING_CODES = filter (\<lambda>c. \<not> reg_in_errors (CODE_REGISTRY c)) CODES"

lemma all_attempt_states: "s \<in> set ATTEMPT_STATES"
  by (cases s) (auto simp: ATTEMPT_STATES_def)

lemma all_event_types: "e \<in> set JOB_EVENT_TYPES"
  by (cases e) (auto simp: JOB_EVENT_TYPES_def)

lemma all_codes: "c \<in> set CODES"
  by (cases c) (auto simp: CODES_def)

lemma all_failure_reasons: "failure_reason_name r \<in> set (map fst FAILURE_REASONS)"
  by (cases r) (simp_all add: FAILURE_REASONS_def)

lemma failure_reason_table: "map_of FAILURE_REASONS (failure_reason_name r) = Some r"
  by (cases r) (simp_all add: FAILURE_REASONS_def)

lemma code_lists:
  "c \<in> set ERROR_CODES \<longleftrightarrow> reg_in_errors (CODE_REGISTRY c)"
  "c \<in> set WARNING_CODES \<longleftrightarrow> \<not> reg_in_errors (CODE_REGISTRY c)"
  by (auto simp: ERROR_CODES_def WARNING_CODES_def all_codes)

section \<open>What the codes mean\<close>

fun code_texts :: "code \<Rightarrow> string \<times> string" where
  \<comment> \<open>\<open>summary\<close> and \<open>example\<close>\<close>
  "code_texts INVALID_INPUT =
     (''A supplied value has the wrong type, range, enum, or grammar.'',
      ''spoolctl output --json 1 --stream stdou'')"
| "code_texts MISSING_REQUIRED =
     (''A required verb, flag value, or positional argument is absent.'',
      ''spoolctl --json'')"
| "code_texts UNKNOWN_FLAG =
     (''A flag is not accepted by the selected command surface.'',
      ''spoolctl status --jsno'')"
| "code_texts UNKNOWN_COMMAND =
     (''The requested verb is not implemented by this CLI.'',
      ''spoolctl statu --json'')"
| "code_texts NOT_FOUND =
     (''The requested job or attempt does not exist.'',
      ''spoolctl show 999 --json'')"
| "code_texts CONFLICT =
     (''The requested mutation conflicts with current job state.'',
      ''spoolctl retry 1 --json when job 1 is queued'')"
| "code_texts IDEMPOTENCY_CONFLICT =
     (''An active idempotency key was reused with a different execution payload.'',
      ''spoolctl add --key daily -- false after active daily=true'')"
| "code_texts SAFETY_BLOCK =
     (''A destructive or interrupting action was refused without explicit confirmation.'',
      ''spoolctl retry 1 --json while job 1 is running'')"
| "code_texts LOCKED =
     (''The queue database stayed busy beyond the configured lock timeout.'',
      ''spoolctl add --json -- true during a long write lock'')"
| "code_texts TIMEOUT =
     (''A wait-style operation exceeded its declared time budget.'',
      ''spoolctl wait 1 --timeout 0.1 --json'')"
| "code_texts INTERNAL =
     (''The CLI or environment failed outside a user-input contract path.'',
      ''Opening a database with a schema version newer than this binary.'')"
| "code_texts KILL_ASYNC =
     (''A running cancel has been recorded; process-group termination is asynchronous.'',
      ''spoolctl cancel --running --yes 1 --json'')"
| "code_texts NO_ATTEMPTS_YET =
     (''A job exists but no attempt output can be read yet.'',
      ''spoolctl output 1 --json before a worker runs job 1'')"
| "code_texts IDEMPOTENCY_METADATA_DIFFERS =
     (''An active idempotent add matched execution payload but ignored metadata differences.'',
      ''spoolctl add --key daily --note changed -- true'')"
| "code_texts TAG_FILTER_SCAN_CAPPED =
     (''A list tag filter scanned a bounded prefix and may have omitted later matches.'',
      ''spoolctl list --tag owner=agent --limit 0 --json'')"

definition EXIT_TEXTS :: "(int \<times> string \<times> string option) list" where
  \<comment> \<open>\<open>meaning\<close> and \<open>note\<close> of each exit code, in the order of \<open>EXIT_CODES\<close>\<close>
  "EXIT_TEXTS =
     [(EXIT_OK, ''success (including empty results)'', None),
      (EXIT_INPUT, ''user-input-error'', None),
      (EXIT_SAFETY, ''safety-block (refused; a --force form may exist)'', None),
      (EXIT_ENVIRONMENT, ''tool-environment-error'',
       Some (''ordinary tool-environment failures use ok:false with errors; doctor readiness'' @
          '' failures use ok:true, empty errors, and data.ready:false, so envelope consumers key'' @
          '' off data.ready for doctor'')),
      (EXIT_TRANSIENT, ''transient-failure (retry after a short delay)'', None),
      (EXIT_CONFLICT, ''conflict (state changed underneath)'', None),
      (EXIT_JOB_FAILURE, ''job-outcome-failure (an awaited job ended non-success)'',
       Some (''pairs with ok:true and empty errors[]; the tool call succeeded and the exit code'' @
          '' carries the job outcome for shell use; envelope consumers key off'' @
          '' data.all_succeeded, not the exit code''))]"

definition code_entry_json :: "code \<Rightarrow> json" where
  \<comment> \<open>the entry of \<open>CODE_REGISTRY\<close>; \<open>exit_code\<close> only for errors\<close>
  "code_entry_json c = (let e = CODE_REGISTRY c in JObject (
     [(''appears_in'', JList [JString (if reg_in_errors e then ''errors'' else ''warnings'')]),
      (''summary'', JString (fst (code_texts c)))] @
     (case reg_exit e of None \<Rightarrow> [] | Some x \<Rightarrow> [(''exit_code'', JInt x)]) @
     [(''retryable'', json_opt JBool (reg_retryable e)), (''example'', JString (snd (code_texts c)))]))"

definition exit_code_info :: "int \<Rightarrow> bool option \<Rightarrow> (string \<times> json) list" where
  \<comment> \<open>the entry of \<open>EXIT_CODES\<close>, its keys sorted\<close>
  "exit_code_info x retryable = (case map_of EXIT_TEXTS x of None \<Rightarrow> [] | Some (meaning, note) \<Rightarrow>
     (''meaning'', JString meaning) #
     (case note of None \<Rightarrow> [] | Some n \<Rightarrow> [(''note'', JString n)]) @
     [(''retryable'', json_opt JBool retryable)])"

lemma exit_texts_match: "map fst EXIT_TEXTS = map fst EXIT_CODES"
  by (simp add: EXIT_TEXTS_def EXIT_CODES_def)

end
