(* ===== verification/Contract_Tables.thy ===== *)
theory Contract_Tables
  imports Parser Registry
begin

text \<open>
  The tables of \<open>spoolctl/contract.py\<close>: what the program publishes about its verbs, flags, limits,
  environment variables and behaviour. Each table is the constant of the same name, a Python dictionary
  being the list of its entries in order.
\<close>

section \<open>Verbs and environment\<close>

definition VERB_SUMMARIES :: "(string \<times> string \<times> string) list" where
  \<comment> \<open>\<open>summary\<close> and \<open>data_schema\<close>\<close>
  "VERB_SUMMARIES =
     [(''add'',
       ''enqueue a command; --key deduplicates active queued/running jobs'',
       (''{job_id: int, state: 'queued'|'running', deduplicated: bool, next_run_at: float,'' @
        '' priority: int, queue: str, cwd: str|null, env_keys: [str], idempotency?: {key,'' @
        '' metadata_differs, metadata_differences}}'')),
      (''work'',
       (''run jobs until stopped; --once runs at most one; --drain runs until the queue settles;'' @
        '' --queue serves one lane; --slots optionally bounds running jobs in that lane''),
       (''--once: {claimed: bool, job_id?, attempt_no?, result?, job_state?}; --drain: {drained:'' @
        '' bool, executed: int}; loop mode writes nothing to stdout; claimed:false means no job'' @
        '' runnable by this worker right now, including a full slot ceiling'')),
      (''wait'',
       (''block until every given job settles (done/dead/canceled); exit 0 all done, exit 6 any'' @
        '' failed (envelope stays ok:true)''),
       ''{all_succeeded: bool, jobs: {'<id>': {state, attempts, last_exit_code, last_error}}}''),
      (''status'',
       ''queue counts, scheduled sub-counts, per-lane counts, and recent dead jobs; always exit 0'',
       (''{counts: {canceled,dead,done,failed,queued,running}, scheduled: int, queues: {<queue>:'' @
        '' {counts, scheduled}}, recent_dead: [{id, command, attempts, crashes, last_error,'' @
        '' finished_at, stdout_path, stderr_path}]}'')),
      (''list'',
       ''enumerate jobs, newest first, optionally filtered by state/tag/queue/priority'',
       (''{count: int, jobs: [{id, argv, state, attempts, crashes, max_retries, timeout_seconds,'' @
        '' created_at, started_at, finished_at, next_run_at, priority, queue, cwd,'' @
        '' last_exit_code, last_error, idempotency_key, tags, note}]}'')),
      (''show'',
       ''one job in full detail: row, attempts, event trail'',
       (''{job: {id, argv, state, attempts, max_retries, timeout_seconds, created_at, started_at,'' @
        '' finished_at, next_run_at, priority, queue, cwd, env, crashes, max_crashes, locked_by,'' @
        '' locked_pid, locked_at, heartbeat_at, last_exit_code, last_error, last_failure_reason,'' @
        '' idempotency_key, tags, note}, attempts: [{attempt_no, state, worker_id, worker_pid,'' @
        '' started_at, finished_at, exit_code, error, failure_reason, stdout_path, stderr_path}],'' @
        '' events: [{at, event, worker_id, detail}]}'')),
      (''retry'',
       ''requeue a dead or failed job with a fresh retry budget'',
       ''{job_id: int, state: 'queued'}''),
      (''cancel'',
       (''cancel a queued job; --running also stops a running one (killed by its owning worker'' @
        '' within a heartbeat)''),
       ''{job_id: int, state: 'canceled', was_running: bool}''),
      (''prune'',
       (''delete terminal jobs older than a duration, files first then rows; requires --yes'' @
        '' unless --dry-run reports without deleting''),
       (''{matched: int, deleted_jobs: int, deleted_attempts: int, deleted_events: int,'' @
        '' freed_bytes: int, dry_run: bool, actual: bool, irreversible?: bool}'')),
      (''output'',
       ''captured stdout/stderr for any attempt of a job'',
       (''{attempt_no, attempt_state, attempts_total, job_id, streams: {stdout|stderr: {path,'' @
        '' preview, preview_truncated, size_bytes}}} or {attempts: []}'')),
      (''events'',
       (''read the durable event ledger; verify job ids with spoolctl show; --follow --json emits'' @
        '' NDJSON data frames plus end/error control frames''),
       (''{count: int, events: [{id, job_id, at, event, worker_id, detail}]};'' @
        '' meta.pagination:{cursor, first_id}; --wait also adds meta.wait:{reason, waited_ms}'')),
      (''brief'',
       ''compact db-free usage brief for agent context injection'',
       ''{text: str, approx_tokens: int, budget_tokens: 700}''),
      (''schema'',
       ''export JSON Schemas for the envelope, verb data payloads, and streams'',
       (''{dialect: str, envelope_schema: object, verbs: {<name>: schema}, streams:'' @
        '' {events_follow: schema}}'')),
      (''capabilities'',
       ''this machine-readable contract'',
       (''{attempt_states, contract_policy, contract_version, env, error_codes, events,'' @
        '' exit_codes, failure_reasons, job_states, scheduling, verbs}'')),
      (''config-show'',
       ''show effective read-only project configuration and DB path source'',
       (''{config_path, config_exists, config_valid, values:{db_path}, sources:{db_path},'' @
        '' precedence, ignored_keys}'')),
      (''config-validate'',
       ''validate project config JSON without opening the queue database'',
       ''{config_path, exists, valid, format, schema_version, recognized_keys, unknown_keys}''),
      (''doctor'',
       ''check local spoolctl readiness without repairs or database mutation'',
       (''{ready, summary:{passed,warnings,failed,skipped}, config,'' @
        '' checks:[{id,status,message,remediation,blocked_by}], versions}'')),
      (''feedback'',
       (''one-call verdict on a job: terminal, succeeded, why it failed, output tails, and the'' @
        '' next command to run''),
       (''{job_id, state, terminal: bool, succeeded: bool|null, exit_code, failure_reason,'' @
        '' last_error, attempts, attempts_total, latest_attempt_no, duration_seconds,'' @
        '' remediation, streams:{stdout,stderr}: {tail, size_bytes, truncated, missing, path}}'')),
      (''robot-docs'',
       ''agent workflow guide; currently supports the guide subcommand'',
       ''{text: str, approx_tokens: int, sections: [{title, bullets}]}'')]"

definition ENV_DOCS :: "(string \<times> string) list" where
  "ENV_DOCS =
     [(''SPOOLCTL_DB'',
       (''queue database path (precedence: --db flag, SPOOLCTL_DB, .spoolctl/config.json db_path,'' @
        '' ./.spoolctl/queue.db)'')),
      (''SPOOLCTL_TEST_HEARTBEAT_INTERVAL'',
       ''test-only: seconds between worker heartbeats (default 5)''),
      (''SPOOLCTL_TEST_REAP_THRESHOLD'',
       (''test-only: seconds of heartbeat staleness before a running job becomes a reap candidate'' @
        '' (default 30)''))]"

definition env_doc :: "string \<Rightarrow> string" where
  \<comment> \<open>\<open>ENV_DOCS[name]\<close>\<close>
  "env_doc name = (case map_of ENV_DOCS name of None \<Rightarrow> [] | Some text \<Rightarrow> text)"

section \<open>Probes, limits, flags\<close>

definition EXPECT_INVALID :: json where
  "EXPECT_INVALID =
     JObject [(''code'', JString ''INVALID_INPUT''), (''exit_code'', JInt EXIT_INPUT)]"

definition EXPECT_MISSING :: json where
  "EXPECT_MISSING =
     JObject [(''code'', JString ''MISSING_REQUIRED''), (''exit_code'', JInt EXIT_INPUT)]"

definition EXPECT_UNKNOWN_FLAG :: json where
  "EXPECT_UNKNOWN_FLAG =
     JObject [(''code'', JString ''UNKNOWN_FLAG''), (''exit_code'', JInt EXIT_INPUT)]"

definition EXPECT_SAFETY :: json where
  "EXPECT_SAFETY =
     JObject [(''code'', JString ''SAFETY_BLOCK''), (''exit_code'', JInt EXIT_SAFETY)]"

definition EXPECT_CONFLICT :: json where
  "EXPECT_CONFLICT =
     JObject [(''code'', JString ''IDEMPOTENCY_CONFLICT''), (''exit_code'', JInt EXIT_CONFLICT)]"

definition DB_VERBS :: "string list" where
  "DB_VERBS =
     [''add'', ''cancel'', ''config-show'', ''doctor'', ''events'', ''feedback'', ''list'', ''output'',
      ''prune'', ''retry'', ''show'', ''status'', ''wait'', ''work'']"

definition FEATURES :: "string list" where
  "FEATURES =
     [''json_envelope'', ''schema_export'', ''did_you_mean'', ''event_ledger'', ''raw_output'',
      ''robot_docs'', ''idempotency_keys'', ''destructive_gates'', ''probeable_surface'']"

definition OUTPUT_MODES :: "string list" where
  "OUTPUT_MODES =
     [''envelope'', ''frames'', ''raw'', ''text'']"

definition TOTALITY_CONTRACT :: json where
  "TOTALITY_CONTRACT =
     JObject
     [(''envelope'',
        JObject
        [(''selector'', JString ''--json''),
         (''failure_stdout'', JString ''one parseable JSON envelope''),
         (''failure_stderr'', JString ''human mirror of the first error''),
         (''traceback_allowed'', JBool False)]),
      (''frames'',
        JObject
        [(''implemented'', JBool True),
         (''failure_stdout'', JString ''valid NDJSON frames when a frames surface exists''),
         (''traceback_allowed'', JBool False)]),
      (''raw'',
        JObject
        [(''failure_stdout'', JString ''empty or raw payload only; diagnostics stay on stderr''),
         (''traceback_allowed'', JBool False)]),
      (''text'',
        JObject
        [(''selector'', JString ''default''), (''failure_stdout'', JString ''not a machine surface''),
         (''failure_stderr'', JString ''human diagnostic''), (''traceback_allowed'', JBool False)])]"

definition PROBE_VOCABULARIES :: json where
  "PROBE_VOCABULARIES =
     JObject
     [(''boolean'',
        JObject
        [(''invalid'', JList []),
         (''notes'', JString ''bool flags are presence-only; missing-value probes do not apply'')]),
      (''duration'',
        JObject [(''invalid'', jstrings [''-1'', ''1D'', ''1e308'', '''']), (''valid'', JString ''1s'')]),
      (''integer'',
        JObject
        [(''invalid'', jstrings [''1_000'', ''0x10'', '''', '' 1'', ''1.0'']),
         (''out_of_range_high'', JString (str_of_int (SQLITE_INT64_MAX + 1))),
         (''out_of_range_low'', JString (str_of_int (SQLITE_INT64_MIN - 1))), (''valid'', JString ''1'')]),
      (''float'',
        JObject
        [(''invalid'', jstrings [''nan'', ''-nan'', ''inf'', ''-inf'', '''', ''abc'']),
         (''valid'', JString ''0.1'')]),
      (''key_value'',
        JObject
        [(''invalid'', jstrings [''missing-equals'', ''=value'', ''bad key=value'']),
         (''valid'', JString ''k=v'')]),
      (''path'',
        JObject
        [(''invalid'', jstrings ['''', (''bad'' @ [CHR 0x00] @ ''path'')]), (''valid'', JString ''.'')]),
      (''queue'',
        JObject
        [(''invalid'', jstrings ['''', '' bad'', ''bad name'', ''-bad'']),
         (''valid'', JString ''default'')]),
      (''string'', JObject [(''invalid'', jstrings ['''', [CHR 0x0A]]), (''valid'', JString ''x'')]),
      (''timestamp'',
        JObject
        [(''invalid'', jstrings [''not-a-time'', ''nan'', ''inf'', ''1e9999'']),
         (''valid'', JString ''1700000000'')])]"

definition GLOBAL_FLAGS :: "json list" where
  "GLOBAL_FLAGS =
     [JObject
      [(''name'', JString ''--help''), (''flag'', JString ''--help''),
       (''aliases'', JList [JString ''--help'']), (''type'', JString ''boolean''),
       (''required'', JBool False), (''default'', JBool False), (''minimum'', JNull),
       (''maximum'', JNull), (''unbounded'', JBool False), (''value_required'', JBool False),
       (''repeatable'', JBool False), (''choices'', JNull), (''malformed_expectations'', JObject []),
       (''output_modes'', JList [JString ''text''])],
      JObject
      [(''name'', JString ''--version''), (''flag'', JString ''--version''),
       (''aliases'', JList [JString ''--version'']), (''type'', JString ''boolean''),
       (''required'', JBool False), (''default'', JBool False), (''minimum'', JNull),
       (''maximum'', JNull), (''unbounded'', JBool False), (''value_required'', JBool False),
       (''repeatable'', JBool False), (''choices'', JNull), (''malformed_expectations'', JObject []),
       (''output_modes'', JList [JString ''text''])]]"

definition LIMITS :: "(string \<times> dict) list" where
  "LIMITS =
     [(''attempt_number'',
        [(''type'', JString ''integer''), (''minimum'', JInt 1), (''maximum'', JInt SQLITE_INT64_MAX),
         (''unbounded'', JBool False)]),
      (''cwd_length'',
        [(''type'', JString ''path''), (''minimum'', JInt 1), (''maximum'', JInt (int MAX_PATH_CHARS)),
         (''unbounded'', JBool False)]),
      (''duration_seconds'',
        [(''type'', JString ''duration''), (''minimum'', JInt 0),
         (''maximum'', JFloat MAX_DURATION_SECONDS), (''unbounded'', JBool False)]),
      (''env_key_length'',
        [(''type'', JString ''string''), (''minimum'', JInt 1),
         (''maximum'', JInt (int MAX_ENV_KEY_CHARS)), (''unbounded'', JBool False)]),
      (''env_value_length'',
        [(''type'', JString ''string''), (''minimum'', JInt 0),
         (''maximum'', JInt (int MAX_ENV_VALUE_CHARS)), (''unbounded'', JBool False)]),
      (''feedback_tail_bytes'',
        [(''type'', JString ''integer''), (''minimum'', JInt 1), (''maximum'', JInt FEEDBACK_TAIL_MAX),
         (''default'', JInt FEEDBACK_TAIL_BYTES), (''unbounded'', JBool False)]),
      (''id'',
        [(''type'', JString ''integer''), (''minimum'', JInt 1), (''maximum'', JInt SQLITE_INT64_MAX),
         (''unbounded'', JBool False)]),
      (''idempotency_key_length'',
        [(''type'', JString ''string''), (''minimum'', JInt 1), (''maximum'', JInt 256),
         (''charset'', JString ''printable after trim; no control characters''),
         (''unbounded'', JBool False)]),
      (''limit'',
        [(''type'', JString ''integer''), (''minimum'', JInt 0), (''maximum'', JInt LIST_LIMIT_MAX),
         (''unbounded'', JBool False)]),
      (''event_limit'',
        [(''type'', JString ''integer''), (''minimum'', JInt 0), (''maximum'', JInt EVENT_LIMIT_MAX),
         (''unbounded'', JBool False)]),
      (''status_limit'',
        [(''type'', JString ''integer''), (''minimum'', JInt 0), (''maximum'', JInt STATUS_LIMIT_MAX),
         (''unbounded'', JBool False)]),
      (''note_length'',
        [(''type'', JString ''string''), (''minimum'', JInt 0), (''maximum'', JInt 10000),
         (''unbounded'', JBool False)]),
      (''poll_interval_seconds'',
        [(''type'', JString ''float''), (''minimum'', JInt 0),
         (''maximum'', JFloat MAX_POLL_INTERVAL_SECONDS), (''unbounded'', JBool False),
         (''grammar'', JString ''finite float > 0'')]),
      (''wait_seconds'',
        [(''type'', JString ''float''), (''minimum'', JInt 0), (''maximum'', JFloat MAX_WAIT_SECONDS),
         (''unbounded'', JBool False), (''grammar'', JString ''finite float > 0'')]),
      (''priority'',
        [(''type'', JString ''integer''), (''minimum'', JInt PRIORITY_MIN),
         (''maximum'', JInt PRIORITY_MAX), (''unbounded'', JBool False)]),
      (''queue_name'',
        [(''type'', JString ''queue''), (''minimum'', JInt 1), (''maximum'', JInt 64),
         (''charset'', JString ''^[A-Za-z0-9][A-Za-z0-9._-]*$''), (''unbounded'', JBool False)]),
      (''tag_count'',
        [(''type'', JString ''integer''), (''minimum'', JInt 0), (''maximum'', JInt 16),
         (''unbounded'', JBool False)]),
      (''tag_key_length'',
        [(''type'', JString ''string''), (''minimum'', JInt 1), (''maximum'', JInt 128),
         (''charset'', JString ''^[A-Za-z0-9_.:-]+$''), (''unbounded'', JBool False)]),
      (''tag_value_length'',
        [(''type'', JString ''string''), (''minimum'', JInt 0), (''maximum'', JInt 1024),
         (''unbounded'', JBool False)]),
      (''timeout_seconds'',
        [(''type'', JString ''integer''), (''minimum'', JInt 1), (''maximum'', JInt SQLITE_INT64_MAX),
         (''unbounded'', JBool False)]),
      (''timestamp_epoch_seconds'',
        [(''type'', JString ''timestamp''), (''minimum'', JFloat (- MAX_DURATION_SECONDS)),
         (''maximum'', JFloat MAX_DURATION_SECONDS), (''unbounded'', JBool False),
         (''grammar'', JString ''finite signed decimal epoch seconds or ISO-8601 timestamp'')]),
      (''worker_slots'',
        [(''type'', JString ''integer''), (''minimum'', JInt 1), (''maximum'', JInt SQLITE_INT64_MAX),
         (''unbounded'', JBool False)]),
      (''worker_id_length'',
        [(''type'', JString ''string''), (''minimum'', JInt 1),
         (''maximum'', JInt (int MAX_WORKER_ID_CHARS)),
         (''charset'', JString ''printable; no control characters''), (''unbounded'', JBool False)])]"

definition limit_of :: "string \<Rightarrow> dict" where
  \<comment> \<open>\<open>LIMITS[name]\<close>\<close>
  "limit_of name = (case map_of LIMITS name of None \<Rightarrow> [] | Some d \<Rightarrow> d)"

definition FLAG_CONTRACTS :: "(string \<times> dict) list" where
  "FLAG_CONTRACTS =
     [(''--after'',
        dict_update [(''type'', JString ''duration'')] (limit_of ''duration_seconds'')),
      (''--at'',
        dict_update [(''type'', JString ''timestamp'')] (limit_of ''timestamp_epoch_seconds'')),
      (''--attempt'',
        dict_update [(''type'', JString ''integer'')] (limit_of ''attempt_number'')),
      (''--db'',
        [(''type'', JString ''path''), (''minimum'', JInt 1), (''maximum'', JInt (int MAX_PATH_CHARS)),
         (''unbounded'', JBool False),
         (''malformed_expectations'', JObject [(''bad_path'', EXPECT_INVALID)])]),
      (''--env'',
        [(''type'', JString ''key_value''), (''repeatable'', JBool True),
         (''grammar'', JString ''K=V split on first '='; key non-empty; NUL rejected''),
         (''key_maximum'', JInt (int MAX_ENV_KEY_CHARS)),
         (''value_maximum'', JInt (int MAX_ENV_VALUE_CHARS)),
         (''malformed_expectations'',
           JObject [(''bad_type'', EXPECT_INVALID), (''empty_string'', EXPECT_INVALID)])]),
      (''--key'',
        [(''type'', JString ''string''), (''minimum'', JInt 1), (''maximum'', JInt 256),
         (''charset'', JString ''printable after trim; no control characters''),
         (''malformed_expectations'', JObject [(''empty_string'', EXPECT_INVALID)]),
         (''unbounded'', JBool False)]),
      (''--limit'', dict_update [(''type'', JString ''integer'')] (limit_of ''limit'')),
      (''--max-events'',
        [(''type'', JString ''integer''), (''minimum'', JInt 1), (''maximum'', JInt SQLITE_INT64_MAX),
         (''unbounded'', JBool False)]),
      (''--idle-timeout'',
        dict_update [(''type'', JString ''float'')] (limit_of ''wait_seconds'')),
      (''--max-crashes'',
        [(''type'', JString ''integer''), (''minimum'', JInt 0), (''maximum'', JInt SQLITE_INT64_MAX),
         (''unbounded'', JBool False)]),
      (''--max-retries'',
        [(''type'', JString ''integer''), (''minimum'', JInt 0), (''maximum'', JInt SQLITE_INT64_MAX),
         (''unbounded'', JBool False)]),
      (''--note'',
        [(''type'', JString ''string''), (''minimum'', JInt 0), (''maximum'', JInt 10000),
         (''malformed_expectations'', JObject [(''too_long'', EXPECT_INVALID)]),
         (''unbounded'', JBool False)]),
      (''--older-than'',
        dict_update [(''type'', JString ''duration'')] (limit_of ''duration_seconds'')),
      (''--poll-interval'',
        dict_update [(''type'', JString ''float'')] (limit_of ''poll_interval_seconds'')),
      (''--priority'', dict_update [(''type'', JString ''integer'')] (limit_of ''priority'')),
      (''--priority-min'', dict_update [(''type'', JString ''integer'')] (limit_of ''priority'')),
      (''--queue'', dict_update [(''type'', JString ''queue'')] (limit_of ''queue_name'')),
      (''--since-id'',
        [(''type'', JString ''integer''), (''minimum'', JInt 0), (''maximum'', JInt SQLITE_INT64_MAX),
         (''unbounded'', JBool False)]),
      (''--state'',
        [(''type'', JString ''enum_csv''),
         (''choices'', jstrings (sort (map job_state_name JOB_STATES))),
         (''malformed_expectations'', JObject [(''bad_type'', EXPECT_INVALID)])]),
      (''--stream'',
        [(''type'', JString ''enum''), (''choices'', jstrings [''both'', ''stderr'', ''stdout'']),
         (''malformed_expectations'', JObject [(''bad_type'', EXPECT_INVALID)])]),
      (''--tag'',
        [(''type'', JString ''key_value''), (''repeatable'', JBool True),
         (''grammar'',
           JString ''KEY=VALUE for add; KEY or KEY=VALUE for list; key matches [A-Za-z0-9_.:-]+''),
         (''maximum_items'', JInt 16), (''key_maximum'', JInt 128), (''value_maximum'', JInt 1024),
         (''malformed_expectations'', JObject [(''bad_type'', EXPECT_INVALID)])]),
      (''--timeout'',
        dict_update [(''type'', JString ''integer'')] (limit_of ''timeout_seconds'')),
      (''--wait-timeout'',
        dict_update [(''type'', JString ''float'')] (limit_of ''wait_seconds'')),
      (''--worker-id'',
        dict_update [(''type'', JString ''string'')] (limit_of ''worker_id_length'')),
      (''--verb'',
        [(''type'', JString ''enum''), (''choices'', jstrings (sort VERBS)),
         (''malformed_expectations'', JObject [(''bad_type'', EXPECT_INVALID)])])]"

definition VERB_FLAG_CONTRACTS :: "((string \<times> string) \<times> dict) list" where
  "VERB_FLAG_CONTRACTS =
     [((''prune'', ''--state''),
        [(''type'', JString ''enum_csv''), (''choices'', jstrings [''canceled'', ''dead'', ''done'']),
         (''malformed_expectations'', JObject [(''bad_type'', EXPECT_INVALID)])]),
      ((''wait'', ''--timeout''),
        dict_update [(''type'', JString ''float'')] (limit_of ''wait_seconds'')),
      ((''feedback'', ''--tail-bytes''),
        dict_update [(''type'', JString ''integer'')] (limit_of ''feedback_tail_bytes'')),
      ((''feedback'', ''--stream''),
        [(''type'', JString ''enum''), (''choices'', jstrings [''both'', ''stderr'', ''stdout'']),
         (''malformed_expectations'', JObject [(''bad_type'', EXPECT_INVALID)]),
         (''affects'', JString ''text rendering only; the JSON payload always carries both streams'')]),
      ((''events'', ''--limit''),
        dict_update [(''type'', JString ''integer'')] (limit_of ''event_limit'')),
      ((''events'', ''--max-events''),
        [(''type'', JString ''integer''), (''minimum'', JInt 1), (''maximum'', JInt EVENT_LIMIT_MAX),
         (''unbounded'', JBool False)]),
      ((''status'', ''--limit''),
        dict_update [(''type'', JString ''integer'')] (limit_of ''status_limit'')),
      ((''config-show'', ''--db''),
        [(''malformed_expectations'',
           JObject [(''missing_value'', EXPECT_INVALID), (''value_is_another_flag'', EXPECT_INVALID)]),
         (''opens_database'', JBool False),
         (''unopenable_path'', JString ''reported as effective configuration, not an input error'')]),
      ((''doctor'', ''--db''),
        [(''malformed_expectations'',
           JObject [(''missing_value'', EXPECT_INVALID), (''value_is_another_flag'', EXPECT_INVALID)]),
         (''opens_database'', JString ''readiness diagnostic with non-creating mode=rw''),
         (''unopenable_path'',
           JString ''readiness outcome: ok:true, errors:[], data.ready:false, exit 3'')])]"

definition POSITIONAL_CONTRACTS :: "(string \<times> dict) list" where
  "POSITIONAL_CONTRACTS =
     [(''id'', dict_update [(''type'', JString ''integer'')] (limit_of ''id'')),
      (''ids'', dict_update [(''type'', JString ''integer'')] (limit_of ''id'')),
      (''robot_docs_command'',
        [(''type'', JString ''enum''), (''choices'', JList [JString ''guide'']),
         (''required'', JBool True), (''nargs'', JString ''1''), (''unbounded'', JBool False)]),
      (''argv'',
        [(''type'', JString ''string''), (''required'', JBool True), (''minimum'', JInt 1),
         (''maximum'', JNull), (''unbounded'', JBool True),
         (''unbounded_reason'',
           JString ''command argv is stored as JSON and bounded by OS/SQLite limits'')])]"

datatype traits = Traits (tr_mutates: bool) (tr_destructive: json) (tr_idempotent: json)

definition VERB_TRAITS :: "(string \<times> traits) list" where
  "VERB_TRAITS =
     [(''add'', Traits True (JBool False) (JString ''when --key is supplied'')),
      (''brief'', Traits False (JBool False) (JBool True)),
      (''cancel'', Traits True (JString ''only with --running'') (JBool False)),
      (''capabilities'', Traits False (JBool False) (JBool True)),
      (''config-show'', Traits False (JBool False) (JBool True)),
      (''config-validate'', Traits False (JBool False) (JBool True)),
      (''doctor'', Traits False (JBool False) (JBool True)),
      (''robot-docs'', Traits False (JBool False) (JBool True)),
      (''events'', Traits False (JBool False) (JBool True)),
      (''feedback'', Traits False (JBool False) (JBool True)),
      (''list'', Traits False (JBool False) (JBool True)),
      (''output'', Traits False (JBool False) (JBool True)),
      (''prune'', Traits True (JBool True) (JBool False)),
      (''retry'', Traits True (JString ''only with --force on running jobs'') (JBool False)),
      (''schema'', Traits False (JBool False) (JBool True)),
      (''show'', Traits False (JBool False) (JBool True)),
      (''status'', Traits False (JBool False) (JBool True)),
      (''wait'', Traits False (JBool False) (JBool True)),
      (''work'', Traits True (JBool False) (JBool False))]"

definition VERB_OUTPUT_MODES :: "(string \<times> string list) list" where
  "VERB_OUTPUT_MODES =
     [(''events'', [''envelope'', ''frames'', ''text'']), (''output'', [''envelope'', ''raw'', ''text''])]"

definition VERB_MUTEX :: "(string \<times> string list list) list" where
  "VERB_MUTEX =
     [(''add'', [[''--after'', ''--at'']]),
      (''events'', [[''--wait'', ''--follow''], [''--limit'', ''--follow''],
                     [''--max-events'', ''--wait''], [''--idle-timeout'', ''--wait'']]),
      (''prune'', [[''--yes'', ''--dry-run'']]), (''work'', [[''--once'', ''--drain'']])]"

definition VERB_EXAMPLES :: "(string \<times> string list list) list" where
  "VERB_EXAMPLES =
     [(''add'', [[''spoolctl'', ''add'', ''--json'', ''--key'', ''run-1'', ''--'', ''true'']]),
      (''brief'', [[''spoolctl'', ''brief'', ''--json'']]),
      (''cancel'', [[''spoolctl'', ''cancel'', ''--json'', ''1'']]),
      (''capabilities'', [[''spoolctl'', ''capabilities'', ''--json'']]),
      (''config-show'', [[''spoolctl'', ''config-show'', ''--json'']]),
      (''config-validate'', [[''spoolctl'', ''config-validate'', ''--json'']]),
      (''doctor'', [[''spoolctl'', ''doctor'', ''--json'']]),
      (''robot-docs'', [[''spoolctl'', ''robot-docs'', ''guide'', ''--json'']]),
      (''events'', [[''spoolctl'', ''events'', ''--json'', ''--limit'', ''10'']]),
      (''feedback'', [[''spoolctl'', ''feedback'', ''--json'', ''1'']]),
      (''list'', [[''spoolctl'', ''list'', ''--json'', ''--limit'', ''10'']]),
      (''output'', [[''spoolctl'', ''output'', ''--json'', ''1'', ''--stream'', ''stdout'']]),
      (''prune'', [[''spoolctl'', ''prune'', ''--json'', ''--older-than'', ''30d'',
                               ''--dry-run'']]),
      (''retry'', [[''spoolctl'', ''retry'', ''--json'', ''1'']]),
      (''schema'', [[''spoolctl'', ''schema'', ''--json'']]),
      (''show'', [[''spoolctl'', ''show'', ''--json'', ''1'']]),
      (''status'', [[''spoolctl'', ''status'', ''--json'']]),
      (''wait'', [[''spoolctl'', ''wait'', ''--json'', ''1'']]),
      (''work'', [[''spoolctl'', ''work'', ''--json'', ''--once'']])]"

definition PROBE_HINTS :: dict where
  "PROBE_HINTS =
     [(''categories'',
        jstrings [''unknown_flag'', ''missing_value'', ''bad_type'', ''missing_positional'',
                  ''mutually_exclusive'', ''env_var'', ''output_mode_success'']),
      (''timeout_seconds'', JInt 5),
      (''json_failure_verdict'',
        JObject
        [(''ok'', JBool False), (''stdout'', JString ''parseable envelope''),
         (''stderr'', JString ''non-empty mirror''), (''traceback_allowed'', JBool False)])]"

definition ENV_VAR_CONTRACTS :: json where
  "ENV_VAR_CONTRACTS =
     JObject
     [(''SPOOLCTL_DB'',
        JObject
        [(''description'', JString (env_doc ''SPOOLCTL_DB'')), (''type'', JString ''path''),
         (''required'', JBool False), (''default'', JString ''./.spoolctl/queue.db''),
         (''minimum'', JInt 1), (''maximum'', JInt (int MAX_PATH_CHARS)), (''unbounded'', JBool False),
         (''shadowed_by'', JString ''--db''), (''consumed_by'', jstrings DB_VERBS),
         (''malformed_expectations'', JObject [(''bad_path'', EXPECT_INVALID)])]),
      (''SPOOLCTL_TEST_HEARTBEAT_INTERVAL'',
        JObject
        [(''description'', JString (env_doc ''SPOOLCTL_TEST_HEARTBEAT_INTERVAL'')),
         (''type'', JString ''float''), (''required'', JBool False),
         (''default'', JFloat HEARTBEAT_INTERVAL), (''minimum'', JInt 0),
         (''maximum'', JFloat MAX_WAIT_SECONDS), (''unbounded'', JBool False),
         (''grammar'', JString ''finite float > 0''), (''shadowed_by'', JNull),
         (''consumed_by'', JList [JString ''work'']),
         (''malformed_expectations'', JObject [(''bad_type'', EXPECT_INVALID)])]),
      (''SPOOLCTL_TEST_REAP_THRESHOLD'',
        JObject
        [(''description'', JString (env_doc ''SPOOLCTL_TEST_REAP_THRESHOLD'')),
         (''type'', JString ''float''), (''required'', JBool False),
         (''default'', JFloat REAP_THRESHOLD), (''minimum'', JInt 0),
         (''maximum'', JFloat MAX_WAIT_SECONDS), (''unbounded'', JBool False),
         (''grammar'', JString ''finite float > 0''), (''shadowed_by'', JNull),
         (''consumed_by'', JList [JString ''work'']),
         (''malformed_expectations'', JObject [(''bad_type'', EXPECT_INVALID)])])]"

section \<open>Policy, scheduling, execution, the guide\<close>

definition CONTRACT_POLICY :: string where
  "CONTRACT_POLICY =
     (''contract_version 2 is the v0.4.7 pre-release hardening contract; it intentionally breaks'' @
      '' v1 quirks by refusing unsafe destructive operations, rejecting inert or abbreviated'' @
      '' flags, enforcing active idempotency execution-payload conflicts, making malformed inputs'' @
      '' total and structured, declaring envelope, frames, raw, and text modes, and adding'' @
      '' read-only project config plus readiness diagnostics for automated consumers. No'' @
      '' contract_version 1 compatibility shim is provided before public release.'')"

definition SCHEDULING_CAPABILITIES :: json where
  "SCHEDULING_CAPABILITIES =
     JObject
     [(''duration_grammar'', JString ''<number>[s|m|h|d] or bare seconds; lowercase units only''),
      (''at_timestamp'',
        JString ''epoch seconds or ISO-8601; naive ISO timestamps use the local process timezone''),
      (''finite_numeric_inputs'', jstrings [''--after'', ''--at epoch seconds'']),
      (''priority'',
        JObject
        [(''default'', JInt 0), (''max'', JInt PRIORITY_MAX), (''min'', JInt PRIORITY_MIN),
         (''ordering'', JString ''higher priority first, then next_run_at ascending, then id ascending'')]),
      (''queue'',
        JObject
        [(''default'', JString ''default''),
         (''grammar'', JString ''1-64 chars matching ^[A-Za-z0-9][A-Za-z0-9._-]*$''),
         (''single_lane_worker'', JBool True)]),
      (''slots'',
        JObject
        [(''claimed_false'',
           JString (''work --once --json {claimed:false} means no job runnable by this worker'' @
                    '' right now, including a full slot ceiling'')),
         (''default_ceiling'', JNull), (''fleet_global'', JBool True), (''opt_in'', JBool True),
         (''scope'', JString ''served lane'')]),
      (''scheduled'',
        JObject
        [(''counts_included_in'', JString ''counts.queued''),
         (''includes'', jstrings [''user-delayed rows'', ''retry/reap backoff rows'']),
         (''predicate'', JString ''state='queued' AND next_run_at > now'')]),
      (''drain'',
        JObject
        [(''holds_for'',
           jstrings [''running rows in the served lane'', ''due queued rows in the served lane'',
                     ''future queued retry/reap backoff rows in the served lane (attempts > 0)'']),
         (''scope'', JString ''served lane''),
         (''skips'', JString ''future queued never-run user-delayed rows (attempts = 0)'')])]"

definition EXECUTION_CAPABILITIES :: json where
  "EXECUTION_CAPABILITIES =
     JObject
     [(''cwd'',
        JObject
        [(''flag'', JString ''--cwd DIR''), (''default'', JNull),
         (''resolution'',
           JString ''resolved to os.path.abspath at submit time; symlinks are not realpath-collapsed''),
         (''runtime_failure'',
           JString (''missing or non-directory cwd is a job-owned spawn failure governed by'' @
                    '' --max-retries''))]),
      (''env_overrides'',
        JObject
        [(''flag'', JString ''--env K=V''), (''repeatable'', JBool True),
         (''semantics'',
           JString ''augment worker environment; overrides are layered over os.environ at run time''),
         (''values_stored_plaintext'', JBool True), (''values_in_add_or_list'', JBool False),
         (''values_in_show'', JBool True),
         (''grammar'',
           JString (''split on first '='; key non-empty; NUL rejected in key and value; repeated'' @
                    '' keys last-win''))]),
      (''retry_model'',
        JObject
        [(''attempts'',
           JString ''recorded unsuccessful executions: job-owned failures plus worker crashes''),
         (''job_owned_failures'',
           JString ''nonzero exit, timeout, or spawn failure; count is attempts - crashes''),
         (''worker_crashes'', JString ''confirmed-dead worker reaps; count stored in crashes''),
         (''max_retries'', JString ''bounds job-owned failure requeues only''),
         (''max_crashes'',
           JObject
           [(''default'', JNull),
            (''meaning'', JString ''worker crashes tolerated before dead-lettering; null is unbounded''),
            (''zero'', JString ''first crash dead-letters''),
            (''one'', JString ''first crash requeues, second crash dead-letters'')]),
         (''backoff'',
           JString ''job-owned failures and crash redeliveries both use backoff_seconds(attempts)''),
         (''wait_drain'',
           JString (''with unbounded crashes, a deterministically crashing job can keep wait'' @
                    '' blocking and work --drain unsettled until canceled or bounded''))])]"

definition ROBOT_DOC_SECTIONS :: "(string \<times> string list) list" where
  \<comment> \<open>\<open>title\<close> and \<open>bullets\<close>\<close>
  "ROBOT_DOC_SECTIONS =
     [(''Discover the contract'',
       [''spoolctl capabilities --json'', ''spoolctl schema --json'', ''spoolctl brief --json'',
        ''spoolctl config-show --json'', ''spoolctl config-validate --json'']),
      (''Check local readiness'',
       [''spoolctl doctor --json'',
        ''doctor exits 3 with ok:true and data.ready:false for readiness failures.'',
        ''Use data.checks remediation text; doctor does not repair or mutate config.'']),
      (''Submit and observe work'',
       [''spoolctl add --json --key run-1 --tag owner=agent -- true'', ''spoolctl work --json --once'',
        ''spoolctl wait --json 1'', ''spoolctl output --json 1 --stream stdout'']),
      (''Get a verdict in one call'',
       [''spoolctl feedback --json 1'',
        ''Read terminal first, then succeeded: null succeeded means still in flight.'',
        ''data.remediation is the next command to run; data.streams carries output tails.'',
        ''Use --tail-bytes N for more output, --stream to narrow the text rendering.'']),
      (''Handle conflicts and safety'',
       [''Reuse --key only with the same execution payload.'',
        ''Use prune --dry-run before prune --yes.'',
        ''Use cancel --running --yes only when process interruption is intended.'',
        ''Use retry --force only for a running-job recovery override.'']),
      (''Stream and page safely'',
       [''spoolctl events --json --limit 100'',
        ''spoolctl events --follow --json --since-id 0 --max-events 1'',
        ''spoolctl events --follow --json --idle-timeout 0.1'', ''spoolctl list --json --limit 50''])]"


end
