(* ===== verification/Schemas.thy ===== *)
theory Schemas
  imports Registry
begin

text \<open>
  \<open>spoolctl/schemas.py\<close>: the JSON Schemas the program publishes for its envelope, for the data of every
  verb and for the frames of the event stream, written with the builders of \<open>Json\<close>; and the usage brief,
  whose last line states its own length in tokens, found by iterating to a fixpoint. The section on the
  brief proves that the iteration ends.
\<close>

section \<open>Schemas\<close>

definition DIALECT :: string where "DIALECT = ''https://json-schema.org/draft/2020-12/schema''"

definition BRIEF_BUDGET_TOKENS :: int where "BRIEF_BUDGET_TOKENS = 700"

definition NULLABLE_STRING :: schema where "NULLABLE_STRING = nullable String"

definition NULLABLE_INTEGER :: schema where "NULLABLE_INTEGER = nullable Integer"

definition NULLABLE_NUMBER :: schema where "NULLABLE_NUMBER = nullable Number"

definition FAILURE_REASON_SCHEMA :: schema where
  "FAILURE_REASON_SCHEMA =
     Schema [Types [String, Null], Enum (map (\<lambda>r. JString (fst r)) FAILURE_REASONS @ [JNull])]"

definition ERROR_SCHEMA :: schema where
  "ERROR_SCHEMA =
     obj_req [(''code'', choice (map code_name ERROR_CODES)), (''message'', typed String),
          (''remediation'', typed String), (''exit_code'', typed Integer),
          (''did_you_mean'', NULLABLE_STRING)]
       [''code'', ''message'', ''remediation'', ''exit_code'']"

definition WARNING_SCHEMA :: schema where
  "WARNING_SCHEMA =
     obj_req [(''code'', choice (map code_name WARNING_CODES)), (''message'', typed String)]
       [''code'', ''message'']"

definition CODE_REGISTRY_ENTRY_SCHEMA :: schema where
  "CODE_REGISTRY_ENTRY_SCHEMA =
     obj_req [(''appears_in'', array_of (choice [''errors'', ''warnings''])), (''summary'', typed String),
          (''exit_code'', typed Integer), (''retryable'', nullable Boolean), (''example'', typed String)]
       [''appears_in'', ''summary'', ''retryable'']"

definition PAGINATION_SCHEMA :: schema where
  "PAGINATION_SCHEMA =
     obj_req [(''cursor'', typed Integer), (''first_id'', NULLABLE_INTEGER), (''limit'', typed Integer),
          (''scan_limit'', typed Integer), (''scanned'', typed Integer), (''truncated'', typed Boolean)]
       [''cursor'', ''first_id'']"

definition WAIT_META_SCHEMA :: schema where
  "WAIT_META_SCHEMA =
     obj [(''waited_ms'', typed Integer), (''reason'', choice [''records_available'', ''timeout''])]"

definition ENVELOPE_SCHEMA :: schema where
  "ENVELOPE_SCHEMA =
     obj [(''ok'', typed Boolean), (''tool_version'', typed String), (''data'', anything),
          (''meta'', obj_req [(''request_id'', typed String), (''ts_iso'', typed String),
                  (''elapsed_ms'', typed Integer), (''contract_version'', typed String),
                  (''data_hash'', typed String), (''pagination'', PAGINATION_SCHEMA),
                  (''wait'', WAIT_META_SCHEMA)]
               [''request_id'', ''ts_iso'', ''elapsed_ms'', ''contract_version'', ''data_hash'']),
          (''warnings'', array_of WARNING_SCHEMA), (''commands'', array_of (typed String)),
          (''errors'', array_of ERROR_SCHEMA)]"

definition JOB_METADATA_PROPS :: "(string \<times> schema) list" where
  "JOB_METADATA_PROPS =
     [(''idempotency_key'', NULLABLE_STRING), (''tags'', map_to (typed String)),
      (''note'', NULLABLE_STRING)]"

definition LIST_JOB_PROPS :: "(string \<times> schema) list" where
  "LIST_JOB_PROPS =
     [(''argv'', array_of (typed String)), (''attempts'', typed Integer), (''crashes'', typed Integer),
      (''created_at'', typed Number), (''cwd'', NULLABLE_STRING), (''finished_at'', NULLABLE_NUMBER),
      (''id'', typed Integer), (''last_error'', NULLABLE_STRING),
      (''last_exit_code'', NULLABLE_INTEGER), (''max_retries'', typed Integer),
      (''next_run_at'', typed Number), (''priority'', typed Integer), (''queue'', typed String),
      (''started_at'', NULLABLE_NUMBER), (''state'', choice (map job_state_name JOB_STATES)),
      (''timeout_seconds'', typed Integer)] @ JOB_METADATA_PROPS"

definition LIST_JOB_SCHEMA :: schema where "LIST_JOB_SCHEMA = obj LIST_JOB_PROPS"

definition SHOW_JOB_SCHEMA :: schema where
  "SHOW_JOB_SCHEMA =
     obj (LIST_JOB_PROPS @ [(''env'', map_to (typed String)), (''heartbeat_at'', NULLABLE_NUMBER),
          (''locked_at'', NULLABLE_NUMBER), (''locked_by'', NULLABLE_STRING),
          (''locked_pid'', NULLABLE_INTEGER), (''last_failure_reason'', FAILURE_REASON_SCHEMA),
          (''max_crashes'', NULLABLE_INTEGER)])"

definition ATTEMPT_SCHEMA :: schema where
  "ATTEMPT_SCHEMA =
     obj [(''attempt_no'', typed Integer), (''error'', NULLABLE_STRING),
          (''exit_code'', NULLABLE_INTEGER), (''failure_reason'', FAILURE_REASON_SCHEMA),
          (''finished_at'', NULLABLE_NUMBER), (''started_at'', typed Number),
          (''state'', choice (map attempt_state_name ATTEMPT_STATES)), (''stderr_path'', typed String),
          (''stdout_path'', typed String), (''worker_id'', typed String), (''worker_pid'', typed Integer)]"

definition EVENT_RECORD_SCHEMA :: schema where
  "EVENT_RECORD_SCHEMA =
     obj [(''id'', typed Integer), (''job_id'', typed Integer), (''at'', typed Number),
          (''event'', choice (map event_type_name JOB_EVENT_TYPES)), (''worker_id'', NULLABLE_STRING),
          (''detail'', NULLABLE_STRING)]"

definition EVENT_CONTROL_FRAME_SCHEMA :: schema where
  "EVENT_CONTROL_FRAME_SCHEMA =
     obj [(''control'', obj_req [(''exit_code'', typed Integer), (''message'', typed String),
                  (''reason'', choice [''max_events'', ''idle_timeout'', ''sqlite_error'']),
                  (''type'', choice [''end'', ''error''])]
               [''type'', ''reason''])]"

definition SHOW_EVENT_SCHEMA :: schema where
  "SHOW_EVENT_SCHEMA =
     obj [(''at'', typed Number), (''event'', choice (map event_type_name JOB_EVENT_TYPES)),
          (''worker_id'', NULLABLE_STRING), (''detail'', NULLABLE_STRING)]"

definition STREAM_SCHEMA :: schema where
  "STREAM_SCHEMA =
     obj [(''path'', typed String), (''preview'', typed String), (''preview_truncated'', typed Boolean),
          (''size_bytes'', typed Integer)]"

definition FEEDBACK_STREAM_SCHEMA :: schema where
  "FEEDBACK_STREAM_SCHEMA =
     obj [(''missing'', typed Boolean), (''path'', NULLABLE_STRING), (''size_bytes'', typed Integer),
          (''tail'', typed String), (''truncated'', typed Boolean)]"

definition FEEDBACK_SCHEMA :: schema where
  "FEEDBACK_SCHEMA =
     obj [(''attempts'', typed Integer), (''attempts_total'', typed Integer),
          (''duration_seconds'', NULLABLE_NUMBER), (''exit_code'', NULLABLE_INTEGER),
          (''failure_reason'', FAILURE_REASON_SCHEMA), (''job_id'', typed Integer),
          (''last_error'', NULLABLE_STRING), (''latest_attempt_no'', NULLABLE_INTEGER),
          (''remediation'', NULLABLE_STRING), (''state'', choice (map job_state_name JOB_STATES)),
          (''streams'', obj [(''stdout'', FEEDBACK_STREAM_SCHEMA), (''stderr'', FEEDBACK_STREAM_SCHEMA)]),
          (''succeeded'', nullable Boolean), (''terminal'', typed Boolean)]"

definition DIFFERENCE_SCHEMA :: schema where
  "DIFFERENCE_SCHEMA =
     obj [(''existing'', anything), (''submitted'', anything)]"

definition IDEMPOTENCY_RESULT_SCHEMA :: schema where
  "IDEMPOTENCY_RESULT_SCHEMA =
     obj [(''key'', typed String), (''metadata_differs'', typed Boolean),
          (''metadata_differences'', map_to DIFFERENCE_SCHEMA)]"

definition EXPECTATION_SCHEMA :: schema where
  "EXPECTATION_SCHEMA =
     obj [(''code'', typed String), (''exit_code'', typed Integer)]"

definition CAP_LIMIT_SCHEMA :: schema where
  "CAP_LIMIT_SCHEMA =
     obj_with [(''charset'', typed String), (''grammar'', typed String), (''maximum'', nullable Number),
          (''minimum'', nullable Number), (''type'', typed String), (''unbounded'', typed Boolean),
          (''unbounded_reason'', typed String)]
       [''type'', ''unbounded''] (Bool_schema True)"

definition CAP_FLAG_SCHEMA :: schema where
  "CAP_FLAG_SCHEMA =
     obj_with [(''aliases'', array_of (typed String)), (''charset'', typed String),
          (''choices'', Schema [Types [Array, Null], Items (typed String)]), (''default'', anything),
          (''flag'', typed String), (''grammar'', typed String), (''key_maximum'', typed Integer),
          (''malformed_expectations'', map_to EXPECTATION_SCHEMA), (''maximum'', nullable Number),
          (''maximum_items'', typed Integer), (''minimum'', nullable Number), (''name'', typed String),
          (''repeatable'', typed Boolean), (''required'', typed Boolean), (''type'', typed String),
          (''unbounded'', typed Boolean), (''unbounded_reason'', typed String),
          (''value_maximum'', typed Integer), (''value_required'', typed Boolean)]
       [''aliases'', ''choices'', ''default'', ''flag'', ''malformed_expectations'', ''name'',
            ''repeatable'', ''required'', ''type'', ''unbounded'', ''value_required''] (Bool_schema True)"

definition CAP_ARG_SCHEMA :: schema where
  "CAP_ARG_SCHEMA =
     obj_with [(''choices'', Schema [Types [Array, Null], Items (typed String)]),
          (''malformed_expectations'', map_to EXPECTATION_SCHEMA), (''maximum'', nullable Number),
          (''minimum'', nullable Number), (''name'', typed String),
          (''nargs'', choice [''1'', ''+'', ''*'', ''?'', ''remainder'']),
          (''repeatable'', typed Boolean), (''required'', typed Boolean), (''type'', typed String),
          (''unbounded'', typed Boolean), (''unbounded_reason'', typed String)]
       [''choices'', ''malformed_expectations'', ''name'', ''nargs'', ''repeatable'', ''required'',
            ''type'', ''unbounded''] (Bool_schema True)"

definition CAP_VERB_SCHEMA :: schema where
  "CAP_VERB_SCHEMA =
     obj_with [(''args'', array_of CAP_ARG_SCHEMA), (''data_schema'', typed String),
          (''description'', typed String), (''destructive'', anything),
          (''examples'', array_of (array_of (typed String))),
          (''exit_codes'', array_of (typed Integer)), (''flags'', array_of CAP_FLAG_SCHEMA),
          (''frames'', map_to anything), (''frames_mode'', map_to anything), (''idempotent'', anything),
          (''json'', map_to anything), (''mutates'', typed Boolean),
          (''mutually_exclusive'', array_of (array_of (typed String))),
          (''output_modes'', array_of (choice [''envelope'', ''frames'', ''raw'', ''text''])),
          (''output_schema'', anything), (''positionals'', array_of CAP_ARG_SCHEMA),
          (''probe_hints'', map_to anything), (''raw'', map_to anything), (''safety'', map_to anything),
          (''schema_ref'', typed String), (''since_cursor_alias'', typed String),
          (''stdin'', typed String), (''summary'', typed String), (''text'', map_to anything)]
       [''args'', ''data_schema'', ''description'', ''destructive'', ''examples'', ''exit_codes'',
            ''flags'', ''idempotent'', ''json'', ''mutates'', ''mutually_exclusive'', ''output_modes'',
            ''output_schema'', ''positionals'', ''probe_hints'', ''schema_ref'', ''stdin'', ''summary'',
            ''text''] (Bool_schema True)"

definition ENV_VAR_SCHEMA :: schema where
  "ENV_VAR_SCHEMA =
     obj_with [(''consumed_by'', array_of (typed String)), (''default'', anything),
          (''description'', typed String), (''grammar'', typed String),
          (''malformed_expectations'', map_to EXPECTATION_SCHEMA), (''maximum'', nullable Number),
          (''minimum'', nullable Number), (''required'', typed Boolean),
          (''shadowed_by'', NULLABLE_STRING), (''type'', typed String), (''unbounded'', typed Boolean),
          (''unbounded_reason'', typed String)]
       [''consumed_by'', ''default'', ''description'', ''malformed_expectations'', ''required'',
            ''shadowed_by'', ''type'', ''unbounded''] (Bool_schema True)"

definition ADD_DATA_SCHEMA :: schema where
  "ADD_DATA_SCHEMA =
     obj_req [(''cwd'', NULLABLE_STRING), (''deduplicated'', typed Boolean),
          (''env_keys'', array_of (typed String)), (''idempotency'', IDEMPOTENCY_RESULT_SCHEMA),
          (''job_id'', typed Integer), (''next_run_at'', typed Number), (''priority'', typed Integer),
          (''queue'', typed String), (''state'', choice [''queued'', ''running''])]
       [''cwd'', ''deduplicated'', ''env_keys'', ''job_id'', ''next_run_at'', ''priority'',
            ''queue'', ''state'']"

definition WORK_DATA_SCHEMA :: schema where
  "WORK_DATA_SCHEMA =
     one_of [obj [(''claimed'', const Boolean (JBool False))],
        obj [(''claimed'', const Boolean (JBool True)), (''attempt_no'', typed Integer),
              (''job_id'', typed Integer), (''job_state'', nullable String),
              (''result'', choice [''succeeded'', ''failed'', ''timed_out''])],
        obj [(''drained'', typed Boolean), (''executed'', typed Integer)],
        obj [(''stopped'', const Boolean (JBool True))]]"

definition WAIT_DATA_SCHEMA :: schema where
  "WAIT_DATA_SCHEMA =
     obj [(''all_succeeded'', typed Boolean),
          (''jobs'', map_to (obj [(''attempts'', typed Integer), (''last_error'', NULLABLE_STRING),
                      (''last_exit_code'', NULLABLE_INTEGER),
                      (''state'', choice (map job_state_name JOB_STATES))]))]"

definition STATUS_DATA_SCHEMA :: schema where
  "STATUS_DATA_SCHEMA =
     obj [(''counts'', obj (map (\<lambda>s. (job_state_name s, typed Integer)) (sort JOB_STATES))),
          (''scheduled'', typed Integer),
          (''queues'', map_to (obj [
              (''counts'', obj (map (\<lambda>s. (job_state_name s, typed Integer)) (sort JOB_STATES))),
                      (''scheduled'', typed Integer)])),
          (''recent_dead'', array_of (obj [(''attempts'', typed Integer), (''command'', typed String),
                    (''crashes'', typed Integer), (''finished_at'', NULLABLE_NUMBER),
                    (''id'', typed Integer), (''last_error'', NULLABLE_STRING),
                    (''stderr_path'', NULLABLE_STRING), (''stdout_path'', NULLABLE_STRING)]))]"

definition LIST_DATA_SCHEMA :: schema where
  "LIST_DATA_SCHEMA =
     obj [(''count'', typed Integer), (''jobs'', array_of LIST_JOB_SCHEMA)]"

definition SHOW_DATA_SCHEMA :: schema where
  "SHOW_DATA_SCHEMA =
     obj [(''attempts'', array_of ATTEMPT_SCHEMA), (''events'', array_of SHOW_EVENT_SCHEMA),
          (''job'', SHOW_JOB_SCHEMA)]"

definition RETRY_DATA_SCHEMA :: schema where
  "RETRY_DATA_SCHEMA =
     obj [(''job_id'', typed Integer), (''state'', const String (JString ''queued''))]"

definition CANCEL_DATA_SCHEMA :: schema where
  "CANCEL_DATA_SCHEMA =
     obj [(''job_id'', typed Integer), (''state'', const String (JString ''canceled'')),
          (''was_running'', typed Boolean)]"

definition PRUNE_DATA_SCHEMA :: schema where
  "PRUNE_DATA_SCHEMA =
     obj_req [(''actual'', typed Boolean), (''deleted_attempts'', typed Integer),
          (''deleted_events'', typed Integer), (''deleted_jobs'', typed Integer),
          (''dry_run'', typed Boolean), (''freed_bytes'', typed Integer),
          (''irreversible'', typed Boolean), (''matched'', typed Integer)]
       [''actual'', ''deleted_attempts'', ''deleted_events'', ''deleted_jobs'', ''dry_run'',
            ''freed_bytes'', ''matched'']"

definition OUTPUT_DATA_SCHEMA :: schema where
  "OUTPUT_DATA_SCHEMA =
     one_of [obj [(''attempts'', array_of anything)],
        obj [(''attempt_no'', typed Integer),
              (''attempt_state'', choice (map attempt_state_name ATTEMPT_STATES)),
              (''attempts_total'', typed Integer), (''job_id'', typed Integer),
              (''streams'', map_to STREAM_SCHEMA)]]"

definition FEEDBACK_DATA_SCHEMA :: schema where "FEEDBACK_DATA_SCHEMA = FEEDBACK_SCHEMA"

definition EVENTS_DATA_SCHEMA :: schema where
  "EVENTS_DATA_SCHEMA =
     obj [(''count'', typed Integer), (''events'', array_of EVENT_RECORD_SCHEMA)]"

definition CONFIG_SHOW_DATA_SCHEMA :: schema where
  "CONFIG_SHOW_DATA_SCHEMA =
     obj [(''config_path'', NULLABLE_STRING), (''config_exists'', typed Boolean),
          (''config_valid'', typed Boolean), (''values'', obj [(''db_path'', typed String)]),
          (''sources'', obj [(''db_path'', choice [''flag'', ''environment'', ''project_config'',
            ''default''])]),
          (''precedence'', array_of (choice [''flag'', ''environment'', ''project_config'', ''default''])),
          (''ignored_keys'', array_of (typed String))]"

definition CONFIG_VALIDATE_DATA_SCHEMA :: schema where
  "CONFIG_VALIDATE_DATA_SCHEMA =
     obj [(''config_path'', typed String), (''exists'', typed Boolean), (''valid'', typed Boolean),
          (''format'', const String (JString ''json'')), (''schema_version'', const Integer (JInt 1)),
          (''recognized_keys'', array_of (choice [''db_path''])),
          (''unknown_keys'', array_of (typed String))]"

definition DOCTOR_DATA_SCHEMA :: schema where
  "DOCTOR_DATA_SCHEMA =
     obj [(''ready'', typed Boolean),
          (''summary'', obj [(''passed'', typed Integer), (''warnings'', typed Integer),
                  (''failed'', typed Integer), (''skipped'', typed Integer)]),
          (''config'', obj [(''config_path'', NULLABLE_STRING), (''config_exists'', typed Boolean),
                  (''config_valid'', typed Boolean), (''db_path'', NULLABLE_STRING),
                  (''db_source'', Schema [Types [String, Null], Enum [JString ''flag'',
                    JString ''environment'', JString ''project_config'',
                          JString ''default'', JNull]])]),
          (''checks'', array_of (obj [(''id'', typed String),
                    (''status'', choice [''pass'', ''warn'', ''fail'', ''skip'']),
                    (''message'', typed String), (''remediation'', NULLABLE_STRING),
                    (''blocked_by'', NULLABLE_STRING)])),
          (''versions'', obj [(''tool_version'', typed String), (''contract_version'', typed String),
                  (''schema_version'', typed Integer)])]"

definition BRIEF_DATA_SCHEMA :: schema where
  "BRIEF_DATA_SCHEMA =
     obj [(''approx_tokens'', typed Integer),
          (''budget_tokens'', const Integer (JInt BRIEF_BUDGET_TOKENS)), (''text'', typed String)]"

definition ROBOT_DOCS_DATA_SCHEMA :: schema where
  "ROBOT_DOCS_DATA_SCHEMA =
     obj [(''approx_tokens'', typed Integer),
          (''sections'', array_of (obj [(''bullets'', array_of (typed String)), (''title'',
            typed String)])),
          (''text'', typed String)]"

definition SCHEMA_DATA_SCHEMA :: schema where
  "SCHEMA_DATA_SCHEMA =
     obj [(''dialect'', const String (JString DIALECT)), (''envelope_schema'', anything),
          (''streams'', map_to anything), (''verbs'', map_to anything)]"

definition CAPABILITIES_DATA_SCHEMA :: schema where
  "CAPABILITIES_DATA_SCHEMA =
     obj [(''attempt_states'', array_of (typed String)),
          (''config'', obj_req [(''supported'', typed Boolean), (''path'', typed String),
                  (''format'', const String (JString ''json'')), (''schema_version'', typed Integer),
                  (''precedence'', array_of (choice [''flag'', ''environment'', ''project_config'',
                    ''default''])),
                  (''keys'', array_of (typed String))]
               [''supported'']),
          (''contract_policy'', typed String), (''contract_version'', typed String),
          (''code_registry'', obj_req (map (\<lambda>c. (code_name c, CODE_REGISTRY_ENTRY_SCHEMA)) CODES)
        (sort (map code_name CODES))),
          (''env'', map_to (typed String)), (''env_vars'', map_to ENV_VAR_SCHEMA),
          (''error_codes'', array_of (choice (map code_name ERROR_CODES))),
          (''events'', array_of (typed String)), (''execution'', map_to anything),
          (''exit_codes'', map_to (obj_req [(''meaning'', typed String), (''note'', typed String),
                      (''retryable'', nullable Boolean)]
                   [''meaning'', ''retryable''])),
          (''failure_reasons'', array_of (choice (map fst FAILURE_REASONS))),
          (''features'', array_of (typed String)),
          (''global_flags'', obj [(''db_scope'', typed String), (''flags'', array_of CAP_FLAG_SCHEMA)]),
          (''job_states'', array_of (typed String)), (''limits'', map_to CAP_LIMIT_SCHEMA),
          (''output_modes'', array_of (choice [''envelope'', ''frames'', ''raw'', ''text''])),
          (''probe_vocabularies'', map_to anything), (''robot_docs_uri'', NULLABLE_STRING),
          (''scheduling'', map_to anything), (''schemas_uri'', typed String),
          (''tool_name'', const String (JString ''spoolctl'')), (''tool_version'', typed String),
          (''totality'', map_to anything), (''verbs'', map_to CAP_VERB_SCHEMA)]"

definition VERB_SCHEMAS :: "(string \<times> schema) list" where
  "VERB_SCHEMAS =
     [(''add'', ADD_DATA_SCHEMA), (''work'', WORK_DATA_SCHEMA), (''wait'', WAIT_DATA_SCHEMA),
      (''status'', STATUS_DATA_SCHEMA), (''list'', LIST_DATA_SCHEMA), (''show'', SHOW_DATA_SCHEMA),
      (''retry'', RETRY_DATA_SCHEMA), (''cancel'', CANCEL_DATA_SCHEMA), (''prune'', PRUNE_DATA_SCHEMA),
      (''output'', OUTPUT_DATA_SCHEMA), (''feedback'', FEEDBACK_DATA_SCHEMA),
      (''events'', EVENTS_DATA_SCHEMA), (''config-show'', CONFIG_SHOW_DATA_SCHEMA),
      (''config-validate'', CONFIG_VALIDATE_DATA_SCHEMA), (''doctor'', DOCTOR_DATA_SCHEMA),
      (''brief'', BRIEF_DATA_SCHEMA), (''robot-docs'', ROBOT_DOCS_DATA_SCHEMA),
      (''schema'', SCHEMA_DATA_SCHEMA), (''capabilities'', CAPABILITIES_DATA_SCHEMA)]"

definition STREAM_SCHEMAS :: "(string \<times> schema) list" where
  "STREAM_SCHEMAS =
     [(''events_follow'', one_of [EVENT_RECORD_SCHEMA, EVENT_CONTROL_FRAME_SCHEMA]),
      (''events_follow_data'', EVENT_RECORD_SCHEMA)]"

section \<open>The brief\<close>

definition approx_tokens :: "string \<Rightarrow> nat" where
  \<comment> \<open>\<open>math.ceil(len(text) / 4)\<close>\<close>
  "approx_tokens text = (length text + 3) div 4"

definition NEWLINE :: string where "NEWLINE = [CHR 0x0A]"

definition brief_lines :: "string \<Rightarrow> string \<Rightarrow> string \<Rightarrow> string \<Rightarrow> string list" where
  \<comment> \<open>\<open>env_docs['SPOOLCTL_DB']\<close> last\<close>
  "brief_lines verbs states exit_bits env_db =
     [''spoolctl quick brief'',
      ''Verbs: '' @ verbs @ ''.'',
      ''Jobs move through: '' @ states @ ''.'',
      (''JSON mode: every normal verb accepts --json and returns {ok, tool_version, data, meta,'' @
       '' warnings, commands, errors}.''),
      ''SPOOLCTL_DB: '' @ env_db @ ''. --db overrides it.'',
      (''Typical loop: spoolctl add -- <cmd>; spoolctl work --drain; spoolctl wait <ids>;'' @
       '' spoolctl output <id> --stream stdout.''),
      (''Submit many jobs first, remember their ids, run one worker with work --drain, then wait'' @
       '' on all ids. wait exits 6 when any awaited job fails; the envelope stays ok:true with'' @
       '' data.all_succeeded=false.''),
      (''feedback <id> gives the one-call verdict: terminal, succeeded, exit_code,'' @
       '' failure_reason, last_error, output tails, and a remediation command; --tail-bytes N'' @
       '' widens the tails.''),
      (''add supports --after/--at, --priority, --queue, --key, --cwd, repeatable --env K=V,'' @
       '' repeatable --tag KEY=VALUE, and --note; delayed jobs remain queued with future'' @
       '' next_run_at.''),
      (''work serves one lane with --queue (default default); --slots N is an opt-in fleet-wide'' @
       '' running ceiling for that lane.''),
      (''list filters by --state, repeatable --tag, --queue, and --priority-min; show prints full'' @
       '' job, scheduling fields, attempts, events, key, tags, and note.''),
      (''status counts queued jobs inclusively and adds scheduled plus per-queue counts;'' @
       '' scheduled means queued with future next_run_at, retry backoff included.''),
      (''events reads the durable job_events ledger: one-shot and --wait return envelopes with'' @
       '' meta.pagination.cursor; --follow --json emits NDJSON data frames plus end/error control'' @
       '' frames.''),
      (''config-show explains DB path; config-validate checks JSON without opening DB; doctor'' @
       '' exits 3 with ok:true/data.ready=false for readiness failures.''),
      (''schema --json exports the envelope, verb data, and raw stream JSON Schemas. capabilities'' @
       '' --json enumerates every contract v2 surface, including robot_docs_uri.''),
      (''robot-docs guide is the longer agent workflow handbook; --json adds structured sections'' @
       '' and a token estimate.''),
      ''Exit codes: '' @ exit_bits @ ''.'',
      (''Use retry for dead/failed jobs, cancel for queued/running withdrawal, prune for old'' @
       '' terminal jobs, status for counts/recent dead jobs. Destructive forms need confirmation:'' @
       '' prune --yes or --dry-run, cancel --running --yes, retry --force for running jobs.'')]"

definition token_line :: "nat \<Rightarrow> string" where
  "token_line tokens = NEWLINE @ ''~'' @ str_of_nat tokens @ '' tokens (budget '' @
     str_of_int BRIEF_BUDGET_TOKENS @ '').''"

partial_function (option) brief_loop :: "string \<Rightarrow> nat \<Rightarrow> (string \<times> nat) option" where
  \<comment> \<open>the \<open>while True\<close>\<close>
  "brief_loop prefix tokens =
     (let text = prefix @ token_line tokens; actual = approx_tokens text
      in if actual = tokens then Some (text, actual) else brief_loop prefix actual)"

declare brief_loop.simps [code]

definition build_brief :: "string list \<Rightarrow> (int \<times> string) list \<Rightarrow> job_state list \<Rightarrow> string
    \<Rightarrow> (string \<times> nat) option" where
  \<comment> \<open>the verbs summarised, the exit codes with their meanings, the states, the text on \<open>SPOOLCTL_DB\<close>\<close>
  "build_brief verb_summaries exit_codes job_states env_db =
     (let verbs = join_with '', '' (sort verb_summaries);
          states = join_with '', '' (map job_state_name (sort job_states));
          exit_bits = join_with '', '' (map (\<lambda>(c, meaning). str_of_int c @ ''='' @ meaning)
            (sort_key fst exit_codes));
          prefix = join_with NEWLINE (brief_lines verbs states exit_bits env_db)
      in brief_loop prefix (approx_tokens prefix))"


text \<open>
  The estimate only grows: a longer text counts more tokens, and a larger number takes no fewer digits.
  It is bounded, since a number has at most as many digits as it has units.
\<close>

lemma length_str_of_nat_mono: "m \<le> n \<Longrightarrow> length (str_of_nat m) \<le> length (str_of_nat n)"
proof (induction n arbitrary: m rule: str_of_nat.induct)
  case (1 n)
  show ?case
  proof (cases "n < 10")
    case True
    with "1.prems" show ?thesis by (simp add: str_of_nat.simps)
  next
    case False
    show ?thesis
    proof (cases "m < 10")
      case True
      with False show ?thesis by (simp add: str_of_nat.simps[of m] str_of_nat.simps[of n])
    next
      case big: False
      have "length (str_of_nat (m div 10)) \<le> length (str_of_nat (n div 10))"
        using "1.IH"[OF False] "1.prems" by (simp add: div_le_mono)
      with False big show ?thesis by (simp add: str_of_nat.simps[of m] str_of_nat.simps[of n])
    qed
  qed
qed

lemma length_str_of_nat_le: "length (str_of_nat n) \<le> n + 1"
proof (induction n rule: str_of_nat.induct)
  case (1 n)
  then show ?case by (cases "n < 10") (auto simp: str_of_nat.simps[of n])
qed

definition estimate :: "string \<Rightarrow> nat \<Rightarrow> nat" where
  "estimate prefix tokens = approx_tokens (prefix @ token_line tokens)"

lemma estimate_mono: "m \<le> n \<Longrightarrow> estimate prefix m \<le> estimate prefix n"
  using length_str_of_nat_mono[of m n] by (simp add: estimate_def approx_tokens_def token_line_def div_le_mono)

lemma estimate_bound: "length prefix + 60 \<le> n \<Longrightarrow> estimate prefix n \<le> n"
proof -
  assume "length prefix + 60 \<le> n"
  moreover have "length (str_of_int BRIEF_BUDGET_TOKENS) = 3" by (simp add: BRIEF_BUDGET_TOKENS_def) code_simp
  ultimately show ?thesis using length_str_of_nat_le[of n]
    by (simp add: estimate_def approx_tokens_def token_line_def NEWLINE_def)
qed

lemma estimate_grows: "approx_tokens prefix \<le> estimate prefix n"
  by (simp add: estimate_def approx_tokens_def div_le_mono)

lemma brief_loop_result:
  assumes "tokens \<le> estimate prefix tokens" and "tokens \<le> length prefix + 60"
  shows "\<exists>n. brief_loop prefix tokens = Some (prefix @ token_line n, n) \<and> estimate prefix n = n \<and> tokens \<le> n
    \<and> (\<forall>m. tokens \<le> m \<longrightarrow> estimate prefix m = m \<longrightarrow> n \<le> m)"
  using assms
proof (induction "length prefix + 60 - tokens" arbitrary: tokens rule: less_induct)
  case less
  show ?case
  proof (cases "estimate prefix tokens = tokens")
    case True
    then show ?thesis by (subst brief_loop.simps) (auto simp: Let_def estimate_def)
  next
    case False
    let ?t = "estimate prefix tokens"
    have up: "tokens < ?t" using False less.prems(1) by simp
    have le: "?t \<le> length prefix + 60"
      using estimate_mono[OF less.prems(2)] estimate_bound[of prefix "length prefix + 60"]
      by (meson le_refl order.trans)
    have grow: "?t \<le> estimate prefix ?t" using estimate_mono[of tokens ?t prefix] up by simp
    have "\<exists>n. brief_loop prefix ?t = Some (prefix @ token_line n, n) \<and> estimate prefix n = n \<and> ?t \<le> n
        \<and> (\<forall>m. ?t \<le> m \<longrightarrow> estimate prefix m = m \<longrightarrow> n \<le> m)"
      using up le grow by (intro less.hyps) auto
    then obtain n where n: "brief_loop prefix ?t = Some (prefix @ token_line n, n)" "estimate prefix n = n" "?t \<le> n"
      "\<And>m. ?t \<le> m \<Longrightarrow> estimate prefix m = m \<Longrightarrow> n \<le> m" by blast
    have "brief_loop prefix tokens = brief_loop prefix ?t"
      using False by (subst brief_loop.simps) (simp add: Let_def estimate_def)
    moreover have "n \<le> m" if "tokens \<le> m" "estimate prefix m = m" for m
      using n(4)[of m] estimate_mono[OF that(1), of prefix] that(2) by simp
    ultimately show ?thesis using n(1-3) up by auto
  qed
qed

end
