(* ===== verification/Contract.thy ===== *)
theory Contract
  imports Contract_Tables Schemas Validation
begin

text \<open>
  The builders of \<open>spoolctl/contract.py\<close>: the description of a flag and of a positional argument from the
  parser's action and the tables, the description of a verb, and the documents of the verbs
  capabilities, schema, brief and robot-docs. A table that has no entry for a verb is a \<open>KeyError\<close> in
  Python; the builders of the model return \<open>None\<close> then, and the last section proves that the documents
  of the program are built.
\<close>

section \<open>Flags and positional arguments\<close>

definition entry_text :: "string \<Rightarrow> dict \<Rightarrow> string" where
  \<comment> \<open>a text entry of a dictionary\<close>
  "entry_text k d = (case map_of d k of Some (JString s) \<Rightarrow> s | _ \<Rightarrow> [])"

definition entry_dict :: "string \<Rightarrow> dict \<Rightarrow> dict" where
  \<comment> \<open>\<open>d.get(k, {})\<close>\<close>
  "entry_dict k d = (case map_of d k of Some (JObject e) \<Rightarrow> e | _ \<Rightarrow> [])"

definition default_malformed_expectations :: "bool \<Rightarrow> string \<Rightarrow> dict" where
  "default_malformed_expectations value_required ftype =
     (if value_required then [(''missing_value'', EXPECT_INVALID), (''value_is_another_flag'', EXPECT_INVALID)]
      else []) @
     (if ftype \<in> set [''duration'', ''enum'', ''enum_csv'', ''float'', ''integer'', ''key_value'', ''queue'',
        ''timestamp''] then [(''bad_type'', EXPECT_INVALID)] else []) @
     (if ftype \<in> set [''duration'', ''float'', ''integer'', ''timestamp'']
      then [(''out_of_range'', EXPECT_INVALID)] else [])"

definition action_base_type :: "action \<Rightarrow> string" where
  "action_base_type a = (if ac_kind a = Store_true then ''boolean''
     else case ac_type a of Int_token \<Rightarrow> ''integer'' | Float_token \<Rightarrow> ''float'' | No_type \<Rightarrow> ''string'')"

definition canonical_flag :: "action \<Rightarrow> string" where
  "canonical_flag a = (case long_options [a] of s # _ \<Rightarrow> s
     | [] \<Rightarrow> (case first_by (\<lambda>s. - int (length s)) (ac_option_strings a) of Some s \<Rightarrow> s | None \<Rightarrow> []))"

definition sorted_choices :: "action \<Rightarrow> json" where
  \<comment> \<open>\<open>sorted(action.choices) if action.choices else None\<close>\<close>
  "sorted_choices a = (case ac_choices a of Some (c # cs) \<Rightarrow> jstrings (sort (c # cs)) | _ \<Rightarrow> JNull)"

definition has_choices :: "action \<Rightarrow> bool" where
  "has_choices a \<longleftrightarrow> ac_choices a \<noteq> None \<and> ac_choices a \<noteq> Some []"

definition flag_entry :: "action \<Rightarrow> string \<Rightarrow> dict" where
  \<comment> \<open>what the action alone tells\<close>
  "flag_entry a flag =
     (let value_required = (ac_kind a \<noteq> Store_true); ftype = action_base_type a;
          entry = [(''aliases'', jstrings (sort (ac_option_strings a))), (''choices'', sorted_choices a),
            (''default'', ac_default a), (''flag'', JString flag),
            (''malformed_expectations'', JObject (default_malformed_expectations value_required ftype)),
            (''name'', JString flag), (''repeatable'', JBool (ac_kind a = Append)),
            (''required'', JBool (ac_required a)), (''type'', JString ftype), (''unbounded'', JBool False),
            (''value_required'', JBool value_required)]
      in if value_required then entry
         else dict_update entry [(''default'', JBool False), (''minimum'', JNull), (''maximum'', JNull)])"

definition flag_override :: "string \<Rightarrow> string \<Rightarrow> dict" where
  "flag_override verb_name flag =
     (let general = (case map_of FLAG_CONTRACTS flag of None \<Rightarrow> [] | Some d \<Rightarrow> d);
          special = (case map_of VERB_FLAG_CONTRACTS (verb_name, flag) of None \<Rightarrow> [] | Some d \<Rightarrow> d)
      in dict_update general special)"

definition apply_override :: "action \<Rightarrow> dict \<Rightarrow> dict \<Rightarrow> dict" where
  "apply_override a override entry = (if override = [] then entry else
     (let value_required = (ac_kind a \<noteq> Store_true);
          entry1 = dict_update entry override;
          expectations = dict_update (default_malformed_expectations value_required (entry_text ''type'' entry1))
            (entry_dict ''malformed_expectations'' override);
          entry2 = dict_update entry1 [(''malformed_expectations'', JObject expectations)];
          entry3 = (if map_of override ''choices'' = None \<and> has_choices a
            then dict_update entry2 [(''choices'', sorted_choices a)] else entry2)
      in dict_update entry3 [(''repeatable'', case map_of override ''repeatable'' of
           Some r \<Rightarrow> r | None \<Rightarrow> JBool (ac_kind a = Append))]))"

definition type_bounds :: "dict \<Rightarrow> dict" where
  \<comment> \<open>the bounds of a type without any of its own\<close>
  "type_bounds entry = (if map_of entry ''minimum'' \<noteq> None then []
     else if entry_text ''type'' entry = ''integer''
       then [(''minimum'', JInt SQLITE_INT64_MIN), (''maximum'', JInt SQLITE_INT64_MAX)]
     else if entry_text ''type'' entry = ''float''
       then [(''minimum'', JInt 0), (''maximum'', JFloat (10 ^ 308)), (''grammar'', JString ''finite float > 0'')]
     else if entry_text ''type'' entry = ''string''
       then [(''minimum'', JInt 0), (''maximum'', JNull), (''unbounded'', JBool True),
         (''unbounded_reason'', JString ''no explicit CLI length cap'')]
     else [])"

definition with_flag_contract :: "string \<Rightarrow> action \<Rightarrow> string \<Rightarrow> dict" where
  "with_flag_contract verb_name a flag =
     (let entry = apply_override a (flag_override verb_name flag) (flag_entry a flag);
          bounded = dict_update entry (type_bounds entry)
      in if entry_text ''type'' bounded \<in> {''enum'', ''enum_csv''}
            \<and> map_of bounded ''choices'' \<in> {None, Some JNull} \<and> has_choices a
         then dict_update bounded [(''choices'', sorted_choices a)] else bounded)"

fun nargs_name :: "nargs \<Rightarrow> string" where
  "nargs_name One = ''1''"
| "nargs_name Plus = ''+''"
| "nargs_name Star = ''*''"
| "nargs_name Optional = ''?''"
| "nargs_name Remainder = ''remainder''"
| "nargs_name Subcommand = ''A...''"

definition describe_positional :: "action \<Rightarrow> dict" where
  "describe_positional a =
     (let nargs = nargs_name (ac_nargs a);
          entry = [(''choices'', sorted_choices a),
            (''malformed_expectations'', JObject [(''missing_value'', EXPECT_MISSING),
               (''bad_type'', EXPECT_INVALID), (''out_of_range'', EXPECT_INVALID)]),
            (''name'', JString (ac_dest a)), (''nargs'', JString nargs),
            (''repeatable'', JBool (nargs \<in> {''+'', ''*'', ''remainder''})),
            (''required'', JBool (nargs \<in> {''1'', ''+''})), (''type'', JString ''string''),
            (''unbounded'', JBool False)];
          known = (case map_of POSITIONAL_CONTRACTS (ac_dest a) of None \<Rightarrow> [] | Some d \<Rightarrow> d);
          entry1 = dict_update entry known;
          entry2 = (if entry_text ''type'' entry1 = ''integer''
            then dict_default ''maximum'' (JInt SQLITE_INT64_MAX) (dict_default ''minimum'' (JInt 1) entry1)
            else entry1)
      in if entry_text ''type'' entry2 = ''string''
         then dict_default ''unbounded_reason'' (JString ''no explicit CLI length cap'')
           (dict_default ''unbounded'' (JBool True) (dict_default ''maximum'' JNull
             (dict_default ''minimum'' (JInt 0) entry2)))
         else entry2)"

section \<open>Verbs\<close>

definition events_frames :: json where
  "events_frames =
     JObject
     [(''enter_with'', jstrings [''--follow'', ''--json'']),
      (''record_schema'', JString ''#/streams/events_follow''),
      (''frame_discriminator'',
        JString (''data frames carry integer id; control frames carry object control and never'' @
                 '' carry id'')),
      (''control_frames'', jstrings [''end'', ''error'']),
      (''control_shape'',
        JObject
        [(''control'',
           JObject
           [(''type'', JString ''end|error''),
            (''reason'', JString ''max_events|idle_timeout|sqlite_error'')])]),
      (''cursor'',
        JObject
        [(''field'', JString ''id''), (''flag'', JString ''--since-id''),
         (''aliases'', JList [JString ''--since-cursor''])]),
      (''delivery'', JString ''best-effort-tail-over-replayable-ledger''),
      (''defaults'',
        JObject
        [(''follow_start'', JString ''high-water mark unless --since-id/--since-cursor is supplied''),
         (''one_shot_start'', JString ''beginning unless --since-id/--since-cursor is supplied'')]),
      (''termination'',
        JObject
        [(''signals'', jstrings [''SIGINT'', ''SIGTERM'', ''EPIPE'']),
         (''max_events'', JString ''emits final end control frame with reason max_events''),
         (''idle_timeout'', JString ''emits final end control frame with reason idle_timeout'')]),
      (''ordering'',
        JString (''end appears exactly once and is final for graceful bounded termination;'' @
                 '' signal/EPIPE termination may omit it''))]"

definition events_raw_legacy :: json where
  "events_raw_legacy =
     JObject
     [(''delivery_class'', JString ''best-effort-tail over replayable-from-cursor ledger''),
      (''mode'', JString ''ndjson''),
      (''record'',
        JString ''contract v1 bare event records; contract v2 uses frames with control frames''),
      (''stream'', JString ''events_follow_data''),
      (''when'', JString ''not available in contract_version 2'')]"

definition prune_safety :: json where
  "prune_safety =
     JObject
     [(''confirmation_flag'', JString ''--yes''), (''dry_run_flag'', JString ''--dry-run''),
      (''refusal_code'', JString ''SAFETY_BLOCK''), (''refusal_exit_code'', JInt EXIT_SAFETY),
      (''invalid_combinations'',
        JList [JObject
               [(''flags'', jstrings [''--yes'', ''--dry-run'']), (''code'', JString ''INVALID_INPUT'')]])]"

definition cancel_safety :: json where
  "cancel_safety =
     JObject
     [(''confirmation_flag'', JString ''--yes''), (''requires'', jstrings [''--running'', ''--yes'']),
      (''refusal_code'', JString ''SAFETY_BLOCK''), (''refusal_exit_code'', JInt EXIT_SAFETY),
      (''queued_cancel'',
        JObject [(''destructive'', JBool False), (''interrupts_process'', JBool False)])]"

definition retry_safety :: json where
  "retry_safety =
     JObject
     [(''force_flag'', JString ''--force''), (''force_required_for'', JString ''running_job''),
      (''refusal_code'', JString ''SAFETY_BLOCK''), (''refusal_exit_code'', JInt EXIT_SAFETY),
      (''also_requires_yes'', JBool False)]"

definition output_raw :: json where
  "output_raw =
     JObject
     [(''enter_with'', JList [JString ''--raw'']), (''incompatible_with'', JList [JString ''--json'']),
      (''requires'', JObject [(''--stream'', jstrings [''stdout'', ''stderr''])]),
      (''delivery_class'', JString ''raw captured bytes''),
      (''failure_stdout'', JString ''no diagnostic text or JSON'')]
"

definition verb_extras :: "string \<Rightarrow> dict" where
  \<comment> \<open>what the five special verbs add to or change in their description\<close>
  "verb_extras name =
     (if name = ''events'' then
        [(''frames'', events_frames),
         (''raw'', JObject [(''deprecated'', JBool True), (''replaced_by'', JString ''frames'')]),
         (''frames_mode'', events_frames),
         (''output_modes'', jstrings [''envelope'', ''frames'', ''text'']),
         (''probe_hints'', JObject (PROBE_HINTS @ [(''frames_success'', jstrings
            [''seed event ledger and run events --follow --json --since-id 0 --max-events 1'',
             ''run events --follow --json --idle-timeout 0.1 on an empty ledger''])])),
         (''raw_legacy'', events_raw_legacy), (''since_cursor_alias'', JString ''--since-cursor'')]
      else if name = ''prune'' then [(''destructive'', JBool True), (''safety'', prune_safety)]
      else if name = ''cancel'' then
        [(''destructive'', JString ''only with --running''),
         (''interrupts_process'', JString ''only with --running''), (''safety'', cancel_safety)]
      else if name = ''retry'' then [(''safety'', retry_safety)]
      else if name = ''output'' then [(''raw'', output_raw)]
      else [])"

definition describe_flags :: "string \<Rightarrow> action list \<Rightarrow> dict list" where
  "describe_flags name actions =
     sort_key (entry_text ''flag'') (map (\<lambda>a. with_flag_contract name a (canonical_flag a))
       (filter (\<lambda>a. ac_kind a \<noteq> Help \<and> ac_option_strings a \<noteq> []) actions))"

definition describe_args :: "action list \<Rightarrow> dict list" where
  "describe_args actions =
     map describe_positional (filter (\<lambda>a. ac_kind a \<noteq> Help \<and> ac_option_strings a = []) actions)"

definition schema_ref :: "string \<Rightarrow> json" where
  "schema_ref name = JString (''spoolctl schema --json --verb '' @ name)"

definition describe_verb :: "string \<Rightarrow> action list \<Rightarrow> dict option" where
  "describe_verb name actions =
     (case (map_of VERB_TRAITS name, map_of VERB_SUMMARIES name, map_of VERB_EXAMPLES name) of
        (Some traits, Some (summary, data_schema), Some examples) \<Rightarrow>
          let args = JList (map JObject (describe_args actions));
              modes = (case map_of VERB_OUTPUT_MODES name of None \<Rightarrow> [''envelope'', ''text''] | Some m \<Rightarrow> m)
          in Some (dict_update
            [(''args'', args), (''data_schema'', JString data_schema), (''description'', JString summary),
             (''destructive'', tr_destructive traits), (''examples'', JList (map jstrings examples)),
             (''exit_codes'', JList (map JInt (sort (map fst EXIT_CODES)))),
             (''flags'', JList (map JObject (describe_flags name actions))),
             (''idempotent'', tr_idempotent traits),
             (''json'', JObject [(''flag'', JString ''--json''), (''mode'', JString ''envelope''),
                (''schema_ref'', schema_ref name)]),
             (''mutates'', JBool (tr_mutates traits)),
             (''mutually_exclusive'', JList (map jstrings
                (case map_of VERB_MUTEX name of None \<Rightarrow> [] | Some m \<Rightarrow> m))),
             (''output_modes'', jstrings modes),
             (''output_schema'', json_opt schema_json (map_of VERB_SCHEMAS name)),
             (''positionals'', args), (''probe_hints'', JObject PROBE_HINTS), (''schema_ref'', schema_ref name),
             (''stdin'', JString ''none''), (''summary'', JString summary),
             (''text'', JObject [(''mode'', JString ''text''), (''contract'', JString
                ''human-readable stdout on success; diagnostics on stderr for errors'')])]
            (verb_extras name))
      | _ \<Rightarrow> None)"

section \<open>The documents\<close>

definition robot_docs_text :: "string \<times> nat" where
  "robot_docs_text =
     (let text = join_with NEWLINE (''spoolctl robot-docs guide'' # concat (map (\<lambda>(title, bullets).
        [[], title] @ map (\<lambda>b. ''- '' @ b) bullets) ROBOT_DOC_SECTIONS))
      in (text, approx_tokens text))"

definition build_robot_docs :: dict where
  \<comment> \<open>the data; the text is printed as it is\<close>
  "build_robot_docs = (case robot_docs_text of (text, tokens) \<Rightarrow>
     [(''approx_tokens'', JInt (int tokens)),
      (''sections'', JList (map (\<lambda>(title, bullets).
         JObject [(''title'', JString title), (''bullets'', jstrings bullets)]) ROBOT_DOC_SECTIONS)),
      (''text'', JString text)])"

definition contract_brief :: "(string \<times> nat) option" where
  "contract_brief = build_brief (map fst VERB_SUMMARIES) (map (\<lambda>(c, meaning, _). (c, meaning)) EXIT_TEXTS)
     JOB_STATES (env_doc ''SPOOLCTL_DB'')"

definition brief_data :: "dict option" where
  \<comment> \<open>\<open>build_brief()\<close> of the contract; \<open>None\<close> if the estimate never settled\<close>
  "brief_data = map_option (\<lambda>(text, tokens).
     [(''approx_tokens'', JInt (int tokens)), (''budget_tokens'', JInt BRIEF_BUDGET_TOKENS),
      (''text'', JString text)]) contract_brief"

definition build_schema :: "string option \<Rightarrow> py_exn + dict" where
  "build_schema schema_verb =
     (let verb_names = sort (map fst VERB_SCHEMAS);
          document = (\<lambda>selected. [(''dialect'', JString DIALECT),
            (''envelope_schema'', schema_json ENVELOPE_SCHEMA),
            (''streams'', JObject (map (\<lambda>(n, s). (n, schema_json s)) STREAM_SCHEMAS)),
            (''verbs'', JObject (map (\<lambda>(n, s). (n, schema_json s)) selected))])
      in case schema_verb of
           None \<Rightarrow> Inr (document (sort_key fst VERB_SCHEMAS))
         | Some v \<Rightarrow> (case map_of VERB_SCHEMAS v of
             None \<Rightarrow> invalid_hint (suggest v verb_names)
           | Some s \<Rightarrow> Inr (document [(v, s)])))"

definition capabilities_config :: json where
  "capabilities_config = JObject
     [(''supported'', JBool True), (''path'', JString ''.spoolctl/config.json''), (''format'', JString ''json''),
      (''schema_version'', JInt 1),
      (''precedence'', jstrings [''flag'', ''environment'', ''project_config'', ''default'']),
      (''keys'', jstrings [''db_path''])]"

definition build_capabilities :: "(string \<times> action list) list \<Rightarrow> dict option" where
  "build_capabilities parser_verbs =
     map_option (\<lambda>verbs.
       [(''attempt_states'', jstrings (sort (map attempt_state_name ATTEMPT_STATES))),
        (''code_registry'', JObject (map (\<lambda>c. (code_name c, code_entry_json c)) (sort_key code_name CODES))),
        (''config'', capabilities_config), (''contract_policy'', JString CONTRACT_POLICY),
        (''contract_version'', JString CONTRACT_VERSION),
        (''env'', JObject (map (\<lambda>(n, text). (n, JString text)) ENV_DOCS)), (''env_vars'', ENV_VAR_CONTRACTS),
        (''error_codes'', jstrings (sort (map code_name ERROR_CODES))),
        (''events'', jstrings (sort (map event_type_name JOB_EVENT_TYPES))),
        (''execution'', EXECUTION_CAPABILITIES),
        (''exit_codes'', JObject (map (\<lambda>(x, r). (str_of_int x, JObject (exit_code_info x r)))
           (sort_key fst EXIT_CODES))),
        (''failure_reasons'', jstrings (map fst FAILURE_REASONS)), (''features'', jstrings FEATURES),
        (''global_flags'', JObject [(''flags'', JList GLOBAL_FLAGS),
           (''db_scope'', JString ''--db is verb-local on database-reading verbs, not global'')]),
        (''job_states'', jstrings (map job_state_name (sort JOB_STATES))),
        (''limits'', JObject (map (\<lambda>(n, d). (n, JObject d)) LIMITS)), (''output_modes'', jstrings OUTPUT_MODES),
        (''probe_vocabularies'', PROBE_VOCABULARIES), (''robot_docs_uri'', JString ''spoolctl robot-docs guide''),
        (''scheduling'', SCHEDULING_CAPABILITIES), (''schemas_uri'', JString ''spoolctl schema --json''),
        (''tool_name'', JString ''spoolctl''), (''tool_version'', JString TOOL_VERSION),
        (''totality'', TOTALITY_CONTRACT), (''verbs'', JObject verbs)])
     (those (map (\<lambda>(n, actions). map_option (\<lambda>d. (n, JObject d)) (describe_verb n actions))
       (sort_key fst parser_verbs)))"

end
