(* ===== verification/ContractProps.thy ===== *)
theory ContractProps
  imports Contract
begin

text \<open>
  What holds of the documents the contract builders make: they are always built, and each conforms to the
  schema that \<open>schemas.py\<close> publishes for it. The descriptions of flags and verbs are dictionaries updated
  several times over, so the invariant kept through an update is that every entry conforms to the schema
  of its key (\<open>fields_ok\<close>).
\<close>

section \<open>Dictionaries whose entries conform\<close>

definition fields_ok :: "(string \<times> schema) list \<Rightarrow> dict \<Rightarrow> bool" where
  "fields_ok fs d \<longleftrightarrow> list_all (\<lambda>f. case map_of fs (fst f) of None \<Rightarrow> True | Some s \<Rightarrow> conforms s (snd f)) d"

lemma fields_ok_simps [simp]:
  "fields_ok fs []"
  "fields_ok fs (f # d) \<longleftrightarrow> (case map_of fs (fst f) of None \<Rightarrow> True | Some s \<Rightarrow> conforms s (snd f)) \<and> fields_ok fs d"
  "fields_ok fs (d @ e) \<longleftrightarrow> fields_ok fs d \<and> fields_ok fs e"
  by (simp_all add: fields_ok_def)

lemma set_update: "set (AList.update k v d) \<subseteq> insert (k, v) (set d)"
  by (induction d) auto

lemma set_dict_update: "set (dict_update d e) \<subseteq> set d \<union> set e"
proof (induction e arbitrary: d)
  case (Cons f e)
  show ?case using Cons[of "AList.update (fst f) (snd f) d"] set_update[of "fst f" "snd f" d]
    by (cases f) (auto simp: dict_update_def)
qed (simp add: dict_update_def)

lemma keys_dict_update: "fst ` set (dict_update d e) = fst ` set d \<union> fst ` set e"
  using arg_cong[OF map_of_dict_update[of d e], of dom] by (auto simp: dom_map_of_conv_image_fst)

lemma fields_ok_dict_update [intro]: "fields_ok fs d \<Longrightarrow> fields_ok fs e \<Longrightarrow> fields_ok fs (dict_update d e)"
  using set_dict_update[of d e] unfolding fields_ok_def list_all_iff by blast

lemma fields_ok_dict_default [intro]:
  "fields_ok fs d \<Longrightarrow> (\<And>s. map_of fs k = Some s \<Longrightarrow> conforms s v) \<Longrightarrow> fields_ok fs (dict_default k v d)"
  by (auto simp: dict_default_def split: option.splits)

lemma keys_dict_default: "fst ` set (dict_default k v d) = insert k (fst ` set d)"
proof -
  have "map_of d k \<noteq> None \<Longrightarrow> k \<in> fst ` set d" by (auto simp: map_of_eq_None_iff)
  then show ?thesis by (auto simp: dict_default_def)
qed

lemma fields_okD: "fields_ok fs d \<Longrightarrow> map_of d k = Some v \<Longrightarrow> map_of fs k = Some s \<Longrightarrow> conforms s v"
  using map_of_SomeD[of d k v] unfolding fields_ok_def list_all_iff by fastforce

lemma conforms_open:
  \<comment> \<open>an object schema that allows other properties\<close>
  assumes "fields_ok fs d" and "distinct (map fst fs)" and "set req \<subseteq> fst ` set d"
  shows "conforms (obj_with fs req (Bool_schema True)) (JObject d)"
proof -
  have "conforms (snd f) x" if "f \<in> set fs" "map_of d (fst f) = Some x" for f x
    using fields_okD[OF assms(1) that(2)] map_of_is_SomeI[OF assms(2), of "fst f" "snd f"] that(1) by simp
  moreover have "map_of d n \<noteq> None" if "n \<in> set req" for n
    using assms(3) that by (auto simp: map_of_eq_None_iff)
  ultimately show ?thesis by (auto simp: conforms_obj_with list_all_iff split: option.splits)
qed

lemma conforms_map_iff: "conforms (map_to s) (JObject (map (\<lambda>x. (f x, g x)) xs)) \<longleftrightarrow> (\<forall>x\<in>set xs. conforms s (g x))"
  by auto

lemma conforms_object_values: "(\<And>f. f \<in> set d \<Longrightarrow> conforms s (snd f)) \<Longrightarrow> conforms (map_to s) (JObject d)"
  by auto

lemma conforms_jstrings [simp]: "conforms (array_of (typed String)) (jstrings ss)"
  by (simp add: jstrings_def)

lemma conforms_names [simp]: "conforms (array_of (choice names)) (jstrings ss) \<longleftrightarrow> set ss \<subseteq> set names"
  by (auto simp: jstrings_def)

section \<open>Flags\<close>

abbreviation flag_fields :: "(string \<times> schema) list" where
  "flag_fields \<equiv> [(''aliases'', array_of (typed String)), (''charset'', typed String),
          (''choices'', Schema [Types [Array, Null], Items (typed String)]), (''default'', anything),
          (''flag'', typed String), (''grammar'', typed String), (''key_maximum'', typed Integer),
          (''malformed_expectations'', map_to EXPECTATION_SCHEMA), (''maximum'', nullable Number),
          (''maximum_items'', typed Integer), (''minimum'', nullable Number), (''name'', typed String),
          (''repeatable'', typed Boolean), (''required'', typed Boolean), (''type'', typed String),
          (''unbounded'', typed Boolean), (''unbounded_reason'', typed String),
          (''value_maximum'', typed Integer), (''value_required'', typed Boolean)]"

abbreviation expectations_ok :: "dict \<Rightarrow> bool" where
  "expectations_ok e \<equiv> conforms (map_to EXPECTATION_SCHEMA) (JObject e)"

lemma expectation_conforms [simp]:
  "conforms EXPECTATION_SCHEMA EXPECT_INVALID" "conforms EXPECTATION_SCHEMA EXPECT_MISSING"
  by (simp_all add: EXPECTATION_SCHEMA_def conforms_dict EXPECT_INVALID_def EXPECT_MISSING_def)

lemma default_expectations_ok: "expectations_ok (default_malformed_expectations b t)"
  by (auto simp: default_malformed_expectations_def)

lemma expectations_empty: "expectations_ok []"
  by simp

lemma expectations_update: "expectations_ok d \<Longrightarrow> expectations_ok e \<Longrightarrow> expectations_ok (dict_update d e)"
  using set_dict_update[of d e] by auto

lemma choices_conform [simp]:
  "conforms (Schema [Types [Array, Null], Items (typed String)]) (sorted_choices a)"
  by (simp add: conforms.simps sorted_choices_def jstrings_def list_all_iff split: option.splits list.splits)

declare conforms.simps(2) [simp del]

lemma flag_entry_ok: "fields_ok flag_fields (flag_entry a flag)"
proof -
  have "expectations_ok (default_malformed_expectations b t)" for b t
    by (rule default_expectations_ok)
  then show ?thesis
    by (auto simp: flag_entry_def Let_def simp del: conforms_map_to intro!: fields_ok_dict_update)
qed

lemma flag_entry_keys:
  "set [''aliases'', ''choices'', ''default'', ''flag'', ''malformed_expectations'', ''name'',
     ''repeatable'', ''required'', ''type'', ''unbounded'', ''value_required''] \<subseteq> fst ` set (flag_entry a flag)"
  by (auto simp: flag_entry_def Let_def keys_dict_update)

lemma override_tables:
  "list_all (\<lambda>f. fields_ok flag_fields (snd f)) FLAG_CONTRACTS"
  "list_all (\<lambda>f. fields_ok flag_fields (snd f)) VERB_FLAG_CONTRACTS"
  by code_simp+

lemma flag_override_ok: "fields_ok flag_fields (flag_override v flag)"
proof -
  have "fields_ok flag_fields d" if "map_of FLAG_CONTRACTS flag = Some d" for d
    using override_tables(1) map_of_SomeD[OF that] by (fastforce simp: list_all_iff)
  moreover have "fields_ok flag_fields d" if "map_of VERB_FLAG_CONTRACTS (v, flag) = Some d" for d
    using override_tables(2) map_of_SomeD[OF that] by (fastforce simp: list_all_iff)
  ultimately show ?thesis
    by (auto simp: flag_override_def Let_def simp del: fields_ok_simps(2) split: option.splits
        intro!: fields_ok_dict_update)
qed

lemma entry_expectations_ok:
  assumes "fields_ok flag_fields d" shows "expectations_ok (entry_dict ''malformed_expectations'' d)"
  using fields_okD[OF assms, of "''malformed_expectations''" _ "map_to EXPECTATION_SCHEMA"] expectations_empty
  by (auto simp: entry_dict_def simp del: conforms_map_to split: option.splits json.splits)

lemma apply_override_ok:
  assumes "fields_ok flag_fields ov" and "fields_ok flag_fields d"
  shows "fields_ok flag_fields (apply_override a ov d)"
proof -
  have "expectations_ok (dict_update (default_malformed_expectations b t) (entry_dict ''malformed_expectations'' ov))"
    for b t
    by (rule expectations_update[OF default_expectations_ok entry_expectations_ok[OF assms(1)]])
  moreover have "has_type (case map_of ov ''repeatable'' of Some r \<Rightarrow> r | None \<Rightarrow> JBool (ac_kind a = Append)) Boolean"
    using fields_okD[OF assms(1), of "''repeatable''" _ "typed Boolean"] by (auto split: option.splits)
  ultimately show ?thesis using assms
    by (auto simp: apply_override_def Let_def simp del: conforms_map_to intro!: fields_ok_dict_update)
qed

lemma type_bounds_ok: "fields_ok flag_fields (type_bounds d)"
  by (simp add: type_bounds_def)

lemma flag_conforms: "conforms CAP_FLAG_SCHEMA (JObject (with_flag_contract v a flag))"
  unfolding CAP_FLAG_SCHEMA_def
proof (rule conforms_open)
  let ?e = "apply_override a (flag_override v flag) (flag_entry a flag)"
  show "fields_ok flag_fields (with_flag_contract v a flag)"
    using apply_override_ok[OF flag_override_ok[of v flag] flag_entry_ok[of a flag], of a] type_bounds_ok
    by (auto simp: with_flag_contract_def Let_def intro!: fields_ok_dict_update)
  have "fst ` set (flag_entry a flag) \<subseteq> fst ` set (with_flag_contract v a flag)"
    by (auto simp: with_flag_contract_def apply_override_def Let_def keys_dict_update simp del: set_map)
  then show "set [''aliases'', ''choices'', ''default'', ''flag'', ''malformed_expectations'', ''name'',
      ''repeatable'', ''required'', ''type'', ''unbounded'', ''value_required'']
      \<subseteq> fst ` set (with_flag_contract v a flag)"
    using flag_entry_keys[of a flag] by blast
qed simp

section \<open>Positional arguments\<close>

abbreviation arg_fields :: "(string \<times> schema) list" where
  "arg_fields \<equiv> [(''choices'', Schema [Types [Array, Null], Items (typed String)]),
          (''malformed_expectations'', map_to EXPECTATION_SCHEMA), (''maximum'', nullable Number),
          (''minimum'', nullable Number), (''name'', typed String),
          (''nargs'', choice [''1'', ''+'', ''*'', ''?'', ''remainder'']),
          (''repeatable'', typed Boolean), (''required'', typed Boolean), (''type'', typed String),
          (''unbounded'', typed Boolean), (''unbounded_reason'', typed String)]"

definition describable :: "action \<Rightarrow> bool" where
  \<comment> \<open>a positional that is no subparsers action, or the one the tables describe\<close>
  "describable a \<longleftrightarrow> ac_nargs a \<noteq> Subcommand \<or> ac_dest a = ''robot_docs_command''"

lemma positional_tables: "list_all (\<lambda>f. fields_ok arg_fields (snd f)) POSITIONAL_CONTRACTS"
  by code_simp

lemma robot_docs_positional: "map_of POSITIONAL_CONTRACTS ''robot_docs_command'' =
  Some [(''type'', JString ''enum''), (''choices'', JList [JString ''guide'']),
         (''required'', JBool True), (''nargs'', JString ''1''), (''unbounded'', JBool False)]"
  by (simp add: POSITIONAL_CONTRACTS_def)

lemma arg_conforms:
  assumes "describable a" shows "conforms CAP_ARG_SCHEMA (JObject (describe_positional a))"
  unfolding CAP_ARG_SCHEMA_def
proof (rule conforms_open)
  have known: "fields_ok arg_fields (case map_of POSITIONAL_CONTRACTS (ac_dest a) of None \<Rightarrow> [] | Some d \<Rightarrow> d)"
    using positional_tables map_of_SomeD[of POSITIONAL_CONTRACTS]
    by (fastforce simp: list_all_iff simp del: fields_ok_simps(2) split: option.splits)
  have name: "nargs_name (ac_nargs a) \<in> set [''1'', ''+'', ''*'', ''?'', ''remainder'']"
    if "ac_nargs a \<noteq> Subcommand" using that by (cases "ac_nargs a") auto
  have expectations: "expectations_ok [(''missing_value'', EXPECT_MISSING), (''bad_type'', EXPECT_INVALID),
      (''out_of_range'', EXPECT_INVALID)]" by auto
  show "fields_ok arg_fields (describe_positional a)"
  proof (cases "ac_nargs a = Subcommand")
    case True
    with assms have "ac_dest a = ''robot_docs_command''" by (simp add: describable_def)
    then show ?thesis
      by (simp add: describe_positional_def Let_def robot_docs_positional dict_update_def entry_text_def conforms.simps)
  next
    case False
    with name known expectations show ?thesis
      by (auto simp: describe_positional_def Let_def simp del: set_simps conforms_map_to
          intro!: fields_ok_dict_update fields_ok_dict_default)
  qed
qed (auto simp: describe_positional_def Let_def keys_dict_update keys_dict_default)


section \<open>Verbs\<close>

abbreviation verb_fields :: "(string \<times> schema) list" where
  "verb_fields \<equiv> [(''args'', array_of CAP_ARG_SCHEMA), (''data_schema'', typed String),
          (''description'', typed String), (''destructive'', anything),
          (''examples'', array_of (array_of (typed String))),
          (''exit_codes'', array_of (typed Integer)), (''flags'', array_of CAP_FLAG_SCHEMA),
          (''frames'', map_to anything), (''frames_mode'', map_to anything), (''idempotent'', anything),
          (''json'', map_to anything), (''mutates'', typed Boolean),
          (''mutually_exclusive'', array_of (array_of (typed String))),
          (''output_modes'', array_of (choice [''envelope'', ''frames'', ''raw'', ''text''])),
          (''output_schema'', anything), (''positionals'', array_of CAP_ARG_SCHEMA),
          (''probe_hints'', map_to anything), (''raw'', map_to anything), (''safety'', map_to anything),
          (''schema_ref'', typed String), (''since_cursor_alias'', typed String),
          (''stdin'', typed String), (''summary'', typed String), (''text'', map_to anything)]"

lemma conforms_any_object [simp]: "conforms (map_to anything) (JObject d)"
  by simp

lemma verb_extras_ok: "fields_ok verb_fields (verb_extras name)"
proof -
  have "list_all (\<lambda>n. fields_ok verb_fields (verb_extras n)) [''events'', ''prune'', ''cancel'', ''retry'', ''output'']"
    by code_simp
  moreover have "verb_extras name = []" if "name \<notin> set [''events'', ''prune'', ''cancel'', ''retry'', ''output'']"
    using that by (simp add: verb_extras_def)
  ultimately show ?thesis unfolding list_all_iff by (metis fields_ok_simps(1))
qed

lemma output_modes_known:
  "map_of VERB_OUTPUT_MODES name = Some m \<Longrightarrow> set m \<subseteq> set [''envelope'', ''frames'', ''raw'', ''text'']"
  by (auto simp: VERB_OUTPUT_MODES_def split: if_splits)

lemma flags_conform: "conforms (array_of CAP_FLAG_SCHEMA) (JList (map JObject (describe_flags name actions)))"
  by (auto simp: describe_flags_def flag_conforms)

lemma args_conform:
  "\<forall>a\<in>set actions. describable a \<Longrightarrow>
     conforms (array_of CAP_ARG_SCHEMA) (JList (map JObject (describe_args actions)))"
  by (auto simp: describe_args_def arg_conforms)

lemma empty_conforms: "conforms (array_of s) (JList [])"
  by simp

lemma schema_ref_type: "has_type (schema_ref name) String"
  by (simp add: schema_ref_def)

lemma strings_conform: "conforms (array_of (array_of (typed String))) (JList (map jstrings xs))"
  by auto

lemma ints_conform: "conforms (array_of (typed Integer)) (JList (map JInt xs))"
  by auto

lemma verb_entry_ok:
  assumes "conforms (array_of CAP_ARG_SCHEMA) args" and "conforms (array_of CAP_FLAG_SCHEMA) flags"
    and "conforms (array_of (array_of (typed String))) examples" and "conforms (array_of (typed Integer)) codes"
    and "conforms (array_of (array_of (typed String))) mutex" and "set modes \<subseteq> set [''envelope'', ''frames'', ''raw'', ''text'']"
    and "has_type ref String"
  shows "fields_ok verb_fields
    [(''args'', args), (''data_schema'', JString ds), (''description'', JString summary),
     (''destructive'', dv), (''examples'', examples), (''exit_codes'', codes), (''flags'', flags),
     (''idempotent'', iv), (''json'', JObject j), (''mutates'', JBool mv), (''mutually_exclusive'', mutex),
     (''output_modes'', jstrings modes), (''output_schema'', os), (''positionals'', args),
     (''probe_hints'', JObject h), (''schema_ref'', ref), (''stdin'', JString st), (''summary'', JString summary'),
     (''text'', JObject t)]"
  using assms by (simp del: conforms_map_to conforms_array set_simps)

lemma verb_conforms:
  assumes "describe_verb name actions = Some d" and "\<forall>a\<in>set actions. describable a"
  shows "conforms CAP_VERB_SCHEMA (JObject d)"
proof -
  let ?required = "[''args'', ''data_schema'', ''description'', ''destructive'', ''examples'', ''exit_codes'',
            ''flags'', ''idempotent'', ''json'', ''mutates'', ''mutually_exclusive'', ''output_modes'',
            ''output_schema'', ''positionals'', ''probe_hints'', ''schema_ref'', ''stdin'', ''summary'',
            ''text'']"
  have modes: "set (case map_of VERB_OUTPUT_MODES name of None \<Rightarrow> [''envelope'', ''text''] | Some m \<Rightarrow> m)
      \<subseteq> set [''envelope'', ''frames'', ''raw'', ''text'']"
    using output_modes_known[of name] by (cases "map_of VERB_OUTPUT_MODES name") auto
  obtain entry where d: "d = dict_update entry (verb_extras name)" "fields_ok verb_fields entry"
      "map fst entry = ?required"
  proof -
    from assms(1) obtain traits summary ds examples where
      "map_of VERB_TRAITS name = Some traits" "map_of VERB_SUMMARIES name = Some (summary, ds)"
      "map_of VERB_EXAMPLES name = Some examples"
      by (auto simp only: describe_verb_def split: option.splits prod.splits)
    note verb = assms(1)[unfolded describe_verb_def Let_def this prod.case option.case option.inject]
    show ?thesis
      by (rule that[OF verb[symmetric]])
        (rule verb_entry_ok args_conform[OF assms(2)] flags_conform strings_conform ints_conform modes
          schema_ref_type | simp only: list.map fst_conv)+
  qed
  have "set (map fst entry) \<subseteq> fst ` set d" unfolding d(1) keys_dict_update by (simp only: set_map Un_upper1)
  then have keys: "set ?required \<subseteq> fst ` set d" by (simp only: d(3))
  have "fields_ok verb_fields d"
    unfolding d(1) by (rule fields_ok_dict_update[OF d(2) verb_extras_ok])
  then show ?thesis unfolding CAP_VERB_SCHEMA_def by (rule conforms_open[OF _ _ keys]) simp
qed

lemma verb_tables:
  "set (map fst VERB_TRAITS) = set VERBS" "set (map fst VERB_SUMMARIES) = set VERBS"
  "set (map fst VERB_EXAMPLES) = set VERBS" "set (map fst VERB_SCHEMAS) = set VERBS"
  by code_simp+

lemma verb_described: "name \<in> set VERBS \<Longrightarrow> \<exists>d. describe_verb name actions = Some d"
  unfolding verb_tables(1)[symmetric]
proof -
  assume n: "name \<in> set (map fst VERB_TRAITS)"
  then have "map_of VERB_TRAITS name \<noteq> None" "map_of VERB_SUMMARIES name \<noteq> None" "map_of VERB_EXAMPLES name \<noteq> None"
    using verb_tables by (simp_all only: map_of_eq_None_iff set_map) auto
  then show ?thesis by (auto simp: describe_verb_def Let_def)
qed

lemma subparsers_describable: "list_all (\<lambda>v. list_all describable (snd v)) SUBPARSERS"
  by code_simp

section \<open>The documents\<close>

lemma limits_conform: "list_all (\<lambda>l. conforms CAP_LIMIT_SCHEMA (JObject (snd l))) LIMITS"
  by code_simp

lemma env_vars_conform: "conforms (map_to ENV_VAR_SCHEMA) ENV_VAR_CONTRACTS"
  by code_simp

lemma global_flags_conform: "list_all (conforms CAP_FLAG_SCHEMA) GLOBAL_FLAGS"
  by code_simp

lemma code_entries_conform:
  "conforms (obj_req (map (\<lambda>c. (code_name c, CODE_REGISTRY_ENTRY_SCHEMA)) CODES) (sort (map code_name CODES)))
     (JObject (map (\<lambda>c. (code_name c, code_entry_json c)) (sort_key code_name CODES)))"
  by code_simp

lemma exit_codes_conform:
  "conforms (map_to (obj_req [(''meaning'', typed String), (''note'', typed String),
                      (''retryable'', nullable Boolean)] [''meaning'', ''retryable'']))
     (JObject (map (\<lambda>(x, r). (str_of_int x, JObject (exit_code_info x r))) (sort_key fst EXIT_CODES)))"
  by code_simp

lemma capabilities_config_conforms:
  "conforms (obj_req [(''supported'', typed Boolean), (''path'', typed String),
                  (''format'', const String (JString ''json'')), (''schema_version'', typed Integer),
                  (''precedence'', array_of (choice [''flag'', ''environment'', ''project_config'',
                    ''default''])),
                  (''keys'', array_of (typed String))]
               [''supported'']) capabilities_config"
  by code_simp

lemma error_codes_conform: "conforms (array_of (choice (map code_name ERROR_CODES))) (jstrings (sort (map code_name ERROR_CODES)))"
  by simp

lemma open_tables:
  "conforms (map_to anything) EXECUTION_CAPABILITIES" "conforms (map_to anything) PROBE_VOCABULARIES"
  "conforms (map_to anything) SCHEDULING_CAPABILITIES" "conforms (map_to anything) TOTALITY_CONTRACT"
  by (simp_all only: EXECUTION_CAPABILITIES_def PROBE_VOCABULARIES_def SCHEDULING_CAPABILITIES_def
      TOTALITY_CONTRACT_def conforms_any_object)

lemma those_Some: "(\<And>x. x \<in> set xs \<Longrightarrow> f x \<noteq> None) \<Longrightarrow> those (map f xs) = Some (map (\<lambda>x. the (f x)) xs)"
proof (induction xs)
  case (Cons x xs)
  from Cons.prems obtain y where "f x = Some y" by fastforce
  with Cons show ?case by simp
qed simp


lemma capabilities_built:
  assumes "set (map fst parser_verbs) \<subseteq> set VERBS"
  shows "\<exists>verbs. those (map (\<lambda>(n, actions). map_option (\<lambda>d. (n, JObject d)) (describe_verb n actions))
           (sort_key fst parser_verbs)) = Some verbs
    \<and> set verbs = (\<lambda>(n, actions). (n, JObject (the (describe_verb n actions)))) ` set parser_verbs"
proof -
  let ?f = "\<lambda>(n, actions). map_option (\<lambda>d. (n, JObject d)) (describe_verb n actions)"
  have some: "\<exists>d. describe_verb n actions = Some d" if "(n, actions) \<in> set parser_verbs" for n actions
    using that assms by (intro verb_described) force
  then have "those (map ?f (sort_key fst parser_verbs)) = Some (map (\<lambda>x. the (?f x)) (sort_key fst parser_verbs))"
    by (intro those_Some) force
  moreover have "(\<lambda>x. the (?f x)) ` set parser_verbs
      = (\<lambda>(n, actions). (n, JObject (the (describe_verb n actions)))) ` set parser_verbs"
    using some by (intro image_cong) force+
  ultimately show ?thesis by simp
qed

lemma capabilities_conform_of:
  assumes "set (map fst parser_verbs) \<subseteq> set VERBS" and "\<forall>v\<in>set parser_verbs. \<forall>a\<in>set (snd v). describable a"
  shows "\<exists>d. build_capabilities parser_verbs = Some d \<and> conforms CAPABILITIES_DATA_SCHEMA (JObject d)"
proof -
  obtain verbs where verbs: "those (map (\<lambda>(n, actions). map_option (\<lambda>d. (n, JObject d)) (describe_verb n actions))
        (sort_key fst parser_verbs)) = Some verbs"
      "set verbs = (\<lambda>(n, actions). (n, JObject (the (describe_verb n actions)))) ` set parser_verbs"
    using capabilities_built[OF assms(1)] by blast
  have "conforms CAP_VERB_SCHEMA (JObject (the (describe_verb n actions)))"
    if "(n, actions) \<in> set parser_verbs" for n actions
  proof -
    have "n \<in> set VERBS" using assms(1) that by force
    then obtain d where "describe_verb n actions = Some d" using verb_described by blast
    with verb_conforms[OF this] assms(2) that show ?thesis by force
  qed
  then have v: "conforms (map_to CAP_VERB_SCHEMA) (JObject verbs)" using verbs(2) by auto
  have l: "conforms (map_to CAP_LIMIT_SCHEMA) (JObject (map (\<lambda>(n, d). (n, JObject d)) LIMITS))"
    using limits_conform by (auto simp: list_all_iff)
  have g: "conforms (array_of CAP_FLAG_SCHEMA) (JList GLOBAL_FLAGS)"
    using global_flags_conform by (auto simp: list_all_iff)
  have e: "conforms (map_to (typed String)) (JObject (map (\<lambda>(n, text). (n, JString text)) ENV_DOCS))" by auto
  have m: "conforms (array_of (choice [''envelope'', ''frames'', ''raw'', ''text''])) (jstrings OUTPUT_MODES)"
    by (simp add: OUTPUT_MODES_def)
  have r: "conforms (array_of (choice (map fst FAILURE_REASONS))) (jstrings (map fst FAILURE_REASONS))" by simp
  show ?thesis unfolding CAPABILITIES_DATA_SCHEMA_def build_capabilities_def verbs(1)
    using v l g e m r
    by (simp add: conforms_obj capabilities_config_conforms code_entries_conform exit_codes_conform env_vars_conform
      error_codes_conform open_tables NULLABLE_STRING_def
      del: conforms_map_to conforms_array conforms_names)
qed


lemma describe_verb_iff: "(\<exists>d. describe_verb name actions = Some d) \<longleftrightarrow> name \<in> set VERBS"
proof
  assume "\<exists>d. describe_verb name actions = Some d"
  then have "map_of VERB_TRAITS name \<noteq> None" by (auto simp: describe_verb_def split: option.splits)
  then show "name \<in> set VERBS" unfolding verb_tables(1)[symmetric] by (simp add: map_of_eq_None_iff)
qed (rule verb_described)

lemma those_eq_Some: "those xs = Some ys \<longleftrightarrow> xs = map Some ys"
  by (induction xs arbitrary: ys) (auto split: option.splits simp: Cons_eq_map_conv map_eq_Cons_conv)

lemma build_capabilities_Some:
  "(\<exists>d. build_capabilities parser_verbs = Some d) \<longleftrightarrow>
     (\<exists>verbs. those (map (\<lambda>(n, actions). map_option (\<lambda>d. (n, JObject d)) (describe_verb n actions))
       (sort_key fst parser_verbs)) = Some verbs)"
  unfolding build_capabilities_def map_option_eq_Some by blast

lemma build_capabilities_iff:
  "(\<exists>d. build_capabilities parser_verbs = Some d) \<longleftrightarrow> set (map fst parser_verbs) \<subseteq> set VERBS"
proof
  let ?f = "\<lambda>(n, actions). map_option (\<lambda>d. (n, JObject d)) (describe_verb n actions)"
  assume "\<exists>d. build_capabilities parser_verbs = Some d"
  then obtain verbs where verbs: "map ?f (sort_key fst parser_verbs) = map Some verbs"
    unfolding build_capabilities_Some those_eq_Some by blast
  have "fst v \<in> set VERBS" if "v \<in> set parser_verbs" for v
  proof -
    from that have "?f v \<in> set (map ?f (sort_key fst parser_verbs))" by simp
    then have "?f v \<noteq> None" unfolding verbs by auto
    then have "\<exists>d. describe_verb (fst v) (snd v) = Some d" by (cases v) auto
    then show ?thesis by (simp only: describe_verb_iff)
  qed
  then show "set (map fst parser_verbs) \<subseteq> set VERBS" by auto
next
  assume "set (map fst parser_verbs) \<subseteq> set VERBS"
  from capabilities_built[OF this] show "\<exists>d. build_capabilities parser_verbs = Some d"
    unfolding build_capabilities_Some by blast
qed

lemma robot_docs_conform: "conforms ROBOT_DOCS_DATA_SCHEMA (JObject build_robot_docs)"
  by (auto simp: ROBOT_DOCS_DATA_SCHEMA_def build_robot_docs_def conforms_obj split: prod.split)

lemma schema_document_conforms:
  "build_schema v = Inr d \<Longrightarrow> conforms SCHEMA_DATA_SCHEMA (JObject d)"
  by (auto simp: SCHEMA_DATA_SCHEMA_def build_schema_def Let_def conforms_obj invalid_hint_def simp del: conforms_map_to
      split: option.splits)

lemma build_schema_known:
  "(\<exists>d. build_schema v = Inr d) \<longleftrightarrow> (case v of None \<Rightarrow> True | Some verb \<Rightarrow> verb \<in> set VERBS)"
proof (cases v)
  case (Some verb)
  have "map_of VERB_SCHEMAS verb = None \<longleftrightarrow> verb \<notin> set VERBS"
    unfolding verb_tables(4)[symmetric] by (simp add: map_of_eq_None_iff)
  with Some show ?thesis by (auto simp: build_schema_def Let_def invalid_hint_def split: option.split)
qed (simp add: build_schema_def Let_def)

lemma build_brief_settles:
  "\<exists>text n. build_brief verbs exits states env = Some (text, n) \<and> approx_tokens text = n"
proof -
  define prefix where "prefix = join_with NEWLINE (brief_lines (join_with '', '' (sort verbs))
    (join_with '', '' (map job_state_name (sort states)))
    (join_with '', '' (map (\<lambda>(c, meaning). str_of_int c @ ''='' @ meaning) (sort_key fst exits))) env)"
  have "approx_tokens prefix \<le> length prefix + 60" by (simp add: approx_tokens_def)
  from brief_loop_result[OF estimate_grows this] obtain n
    where "brief_loop prefix (approx_tokens prefix) = Some (prefix @ token_line n, n)" "estimate prefix n = n" by blast
  then show ?thesis unfolding build_brief_def Let_def prefix_def[symmetric] by (auto simp: estimate_def)
qed

lemma brief_conforms: "\<exists>d. brief_data = Some d \<and> conforms BRIEF_DATA_SCHEMA (JObject d)"
proof -
  from build_brief_settles obtain t n where "contract_brief = Some (t, n)"
    unfolding contract_brief_def by blast
  then have "brief_data = Some [(''approx_tokens'', JInt (int n)), (''budget_tokens'', JInt BRIEF_BUDGET_TOKENS),
      (''text'', JString t)]" by (simp add: brief_data_def)
  then show ?thesis by (intro exI conjI, assumption) (simp add: BRIEF_DATA_SCHEMA_def conforms_obj)
qed

end
