(* ===== verification/Brief.thy ===== *)
theory Brief
  imports ContractProps
begin

text \<open>
  The usage brief of \<open>schemas.py\<close> and \<open>contract.py\<close>: the text states its own length in tokens. The
  iteration that finds the number ends for every text, and the brief of the program keeps its budget.
\<close>

text \<open>The text of the program's brief before its last line; only its length matters for the estimate.\<close>

abbreviation program_prefix :: string where
  "program_prefix \<equiv> join_with NEWLINE (brief_lines (join_with '', '' (sort (map fst VERB_SUMMARIES)))
     (join_with '', '' (map job_state_name (sort JOB_STATES)))
     (join_with '', '' (map (\<lambda>(c, meaning). str_of_int c @ ''='' @ meaning)
       (sort_key fst (map (\<lambda>(c, meaning, _). (c, meaning)) EXIT_TEXTS)))) (env_doc ''SPOOLCTL_DB''))"

lemma prefix_length: "length program_prefix = 2754"
  by code_simp

lemma contract_brief_loop: "contract_brief = brief_loop program_prefix (approx_tokens program_prefix)"
  by (simp add: contract_brief_def build_brief_def Let_def)

lemma program_brief_small: "\<exists>t n. contract_brief = Some (t, n) \<and> approx_tokens t = n \<and> n \<le> 695"
proof -
  have line: "length (token_line 695) = 26" by code_simp
  have "approx_tokens program_prefix \<le> 695" "estimate program_prefix 695 = 695"
    unfolding estimate_def approx_tokens_def length_append prefix_length line by simp_all
  moreover have "approx_tokens program_prefix \<le> length program_prefix + 60" by (simp add: approx_tokens_def)
  ultimately show ?thesis
    using brief_loop_result[OF estimate_grows, of program_prefix] unfolding contract_brief_loop estimate_def
    by metis
qed

text \<open>C17. The brief always settles, whatever verbs, states and texts it is made from: the loop that writes
  the token estimate into the text ends, the number written is the estimate of the text that contains it,
  and it is the least such number from the estimate of the text without it. The brief of the program
  stays within its budget of 700 tokens.\<close>

theorem brief_settles:
  "(\<exists>n. brief_loop prefix (approx_tokens prefix) = Some (prefix @ token_line n, n)
      \<and> approx_tokens (prefix @ token_line n) = n
      \<and> \<not> (\<exists>m. approx_tokens prefix \<le> m \<and> m < n \<and> approx_tokens (prefix @ token_line m) = m))
   \<and> (case contract_brief of Some (text, n) \<Rightarrow> approx_tokens text = n \<and> int n \<le> BRIEF_BUDGET_TOKENS
      | None \<Rightarrow> False)"
proof (rule conjI)
  have "approx_tokens prefix \<le> length prefix + 60" by (simp add: approx_tokens_def)
  from brief_loop_result[OF estimate_grows this]
  show "\<exists>n. brief_loop prefix (approx_tokens prefix) = Some (prefix @ token_line n, n)
      \<and> approx_tokens (prefix @ token_line n) = n
      \<and> \<not> (\<exists>m. approx_tokens prefix \<le> m \<and> m < n \<and> approx_tokens (prefix @ token_line m) = m)"
    unfolding estimate_def by (metis leD)
next
  obtain t n where brief: "contract_brief = Some (t, n)" "approx_tokens t = n" "n \<le> 695"
    using program_brief_small by blast
  then show "case contract_brief of Some (text, n) \<Rightarrow> approx_tokens text = n \<and> int n \<le> BRIEF_BUDGET_TOKENS
      | None \<Rightarrow> False"
    unfolding brief(1) using brief(2,3) by (simp add: BRIEF_BUDGET_TOKENS_def)
qed

end
