(* ===== verification/Config.thy ===== *)
theory Config
  imports Json
begin

text \<open>
  \<open>spoolctl/config.py\<close> and \<open>store.resolve_db_path\<close>: which database a command uses. JSON values as
  Python's \<open>json\<close> module gives them; the file system is a value (what opening and parsing the file
  does) and \<open>os.path.realpath\<close> and the current directory are parameters. The two result classes keep
  their fields, the constant ones (format, schema version, precedence) aside.
\<close>

datatype config_file =
  File_absent             \<comment> \<open>\<open>FileNotFoundError\<close>\<close>
| File_malformed          \<comment> \<open>\<open>json.JSONDecodeError\<close>\<close>
| File_unreadable         \<comment> \<open>any other \<open>OSError\<close>\<close>
| File_undecodable        \<comment> \<open>\<open>UnicodeDecodeError\<close>: not UTF-8; or an integer past the digit limit\<close>
| File_json json

definition CONFIG_RELPATH :: string where "CONFIG_RELPATH = ''.spoolctl/config.json''"
definition CONFIG_SCHEMA_VERSION :: int where "CONFIG_SCHEMA_VERSION = 1"
definition CONFIG_DB_PATH_KEY :: string where "CONFIG_DB_PATH_KEY = ''db_path''"
definition CONFIG_VERSION_KEY :: string where "CONFIG_VERSION_KEY = ''version''"

definition SUPPORTED_KEYS :: "string list" where
  "SUPPORTED_KEYS = [CONFIG_VERSION_KEY, CONFIG_DB_PATH_KEY]"

datatype source = Flag | Environment | Project_config | Default

record effective_config =
  ec_config_path :: "string option"
  ec_config_exists :: bool
  ec_config_valid :: bool
  ec_db_path :: string
  ec_db_source :: source
  ec_ignored_keys :: "string list"

record config_validation =
  cv_config_path :: string
  cv_exists :: bool
  cv_valid :: bool
  cv_unknown_keys :: "string list"

definition rejected :: "py_exn + 'a" where
  "rejected = Inl (CliError (cli_error INVALID_INPUT))"

definition default_config_path :: "(string \<Rightarrow> string) \<Rightarrow> string \<Rightarrow> string" where
  "default_config_path realpath base_dir = realpath (path_join base_dir CONFIG_RELPATH)"

definition validate_db_path_value :: "json \<Rightarrow> py_exn + string" where
  "validate_db_path_value raw = (case raw of
       JString s \<Rightarrow>
         if s = [] then rejected
         else if NUL \<in> set s then rejected
         else if length s > MAX_PATH_CHARS then rejected
         else Inr s
     | _ \<Rightarrow> rejected)"

definition version_ok :: "json \<Rightarrow> bool" where
  \<comment> \<open>an \<open>int\<close> that is no \<open>bool\<close> and equals the schema version\<close>
  "version_ok v = (case v of JInt n \<Rightarrow> n = CONFIG_SCHEMA_VERSION | _ \<Rightarrow> False)"

definition load_config_object :: "config_file \<Rightarrow> py_exn + (string \<times> json) list option \<times> bool" where
  "load_config_object file = (case file of
       File_absent \<Rightarrow> Inr (None, False)
     | File_malformed \<Rightarrow> rejected
     | File_unreadable \<Rightarrow> rejected
     | File_undecodable \<Rightarrow> Inl ValueError
     | File_json (JObject raw) \<Rightarrow>
         if \<not> version_ok (case map_of raw CONFIG_VERSION_KEY of None \<Rightarrow> JInt CONFIG_SCHEMA_VERSION
              | Some v \<Rightarrow> v) then rejected
         else (case map_of raw CONFIG_DB_PATH_KEY of None \<Rightarrow> Inr (Some raw, True)
           | Some p \<Rightarrow> and_then (validate_db_path_value p) (\<lambda>_. Inr (Some raw, True)))
     | File_json _ \<Rightarrow> rejected)"

definition unknown_keys :: "(string \<times> json) list option \<Rightarrow> string list" where
  "unknown_keys data = sort (filter (\<lambda>k. k \<notin> set SUPPORTED_KEYS)
     (remdups (map fst (case data of None \<Rightarrow> [] | Some raw \<Rightarrow> raw))))"

definition validate_config_file :: "(string \<Rightarrow> string) \<Rightarrow> (string \<Rightarrow> config_file) \<Rightarrow> string
    \<Rightarrow> py_exn + config_validation" where
  "validate_config_file realpath fs path =
     (let config_path = realpath path
      in and_then (load_config_object (fs config_path)) (\<lambda>(data, exists).
         if unknown_keys data \<noteq> [] then rejected
         else Inr \<lparr>cv_config_path = config_path, cv_exists = exists, cv_valid = True,
                cv_unknown_keys = []\<rparr>))"

definition effective :: "string option \<Rightarrow> bool \<Rightarrow> string list \<Rightarrow> string \<Rightarrow> source \<Rightarrow> effective_config" where
  "effective config_path exists unknown db_path source =
     \<lparr>ec_config_path = config_path, ec_config_exists = exists, ec_config_valid = True,
      ec_db_path = db_path, ec_db_source = source, ec_ignored_keys = unknown\<rparr>"

definition dirname :: "string \<Rightarrow> string" where
  \<comment> \<open>\<open>os.path.dirname\<close>: the head up to the last slash, trailing slashes removed unless it is all slashes\<close>
  "dirname p = (let head = rev (dropWhile (\<lambda>c. c \<noteq> CHR ''/'') (rev p));
       short = rev (dropWhile (\<lambda>c. c = CHR ''/'') (rev head))
     in if short = [] then head else short)"

definition resolve_effective_config :: "(string \<Rightarrow> string) \<Rightarrow> (string \<Rightarrow> config_file) \<Rightarrow> string
    \<Rightarrow> string option \<Rightarrow> string option \<Rightarrow> string option \<Rightarrow> bool \<Rightarrow> py_exn + effective_config" where
  \<comment> \<open>file system, current directory, \<open>SPOOLCTL_DB\<close>; then the parameters of the function\<close>
  "resolve_effective_config realpath fs getcwd environ db_path_flag base_dir strict_unknown_keys =
     (let config_path = map_option (default_config_path realpath) base_dir
      in and_then (case config_path of None \<Rightarrow> Inr (None, False) | Some p \<Rightarrow> load_config_object (fs p))
         (\<lambda>(config_obj, config_exists).
      let unknown = (case config_path of None \<Rightarrow> [] | Some p \<Rightarrow> unknown_keys config_obj)
      in if unknown \<noteq> [] \<and> strict_unknown_keys then rejected
      else case db_path_flag of
        Some flag \<Rightarrow> and_then (validate_db_path_value (JString flag)) (\<lambda>raw.
          Inr (effective config_path config_exists unknown (realpath raw) Flag))
      | None \<Rightarrow> (case environ of
        Some env_path \<Rightarrow> and_then (validate_db_path_value (JString env_path)) (\<lambda>raw.
          Inr (effective config_path config_exists unknown (realpath raw) Environment))
      | None \<Rightarrow> (case (config_path, Option.bind config_obj (\<lambda>raw. map_of raw CONFIG_DB_PATH_KEY)) of
        (Some cp, Some value) \<Rightarrow> and_then (validate_db_path_value value) (\<lambda>raw.
          Inr (effective config_path config_exists unknown
            (realpath (if isabs raw then raw else path_join (dirname cp) raw)) Project_config))
      | _ \<Rightarrow> Inr (effective config_path config_exists unknown
          (realpath (path_join (case base_dir of None \<Rightarrow> getcwd | Some b \<Rightarrow> b) DEFAULT_DB_RELPATH))
          Default)))))"

definition resolve_db_path :: "(string \<Rightarrow> string) \<Rightarrow> (string \<Rightarrow> config_file) \<Rightarrow> string
    \<Rightarrow> string option \<Rightarrow> string option \<Rightarrow> string option \<Rightarrow> py_exn + string" where
  "resolve_db_path realpath fs getcwd environ flag_value base_dir =
     and_then (resolve_effective_config realpath fs getcwd environ flag_value base_dir False)
       (\<lambda>e. Inr (ec_db_path e))"

definition output_root :: "string \<Rightarrow> string" where
  "output_root db_path = path_join (dirname db_path) ''output''"

section \<open>Properties\<close>

lemma validate_db_path_value_Inr:
  "validate_db_path_value v = Inr s \<longleftrightarrow>
     v = JString s \<and> s \<noteq> [] \<and> NUL \<notin> set s \<and> length s \<le> MAX_PATH_CHARS"
  by (auto simp: validate_db_path_value_def rejected_def split: json.splits)

lemma validate_db_path_value_Inl:
  "validate_db_path_value v = Inl e \<Longrightarrow> e = CliError (cli_error INVALID_INPUT)"
  by (auto simp: validate_db_path_value_def rejected_def split: json.splits if_splits)

lemma load_config_valid:
  assumes "load_config_object file = Inr (Some raw, b)" and "map_of raw CONFIG_DB_PATH_KEY = Some v"
  shows "\<exists>s. v = JString s \<and> validate_db_path_value v = Inr s"
  using assms
  by (auto simp: load_config_object_def rejected_def and_then_eq_Inr validate_db_path_value_Inr
      split: config_file.splits json.splits if_splits option.splits)

definition valid_path :: "string \<Rightarrow> bool" where
  "valid_path p \<longleftrightarrow> p \<noteq> [] \<and> NUL \<notin> set p \<and> length p \<le> MAX_PATH_CHARS"

definition candidates :: "string option \<Rightarrow> string option \<Rightarrow> (string \<times> json) list option \<Rightarrow> string \<Rightarrow> string
    \<Rightarrow> (source \<times> string \<times> string) list" where
  \<comment> \<open>the places that name a database, best first, each with the text given and the path it stands for\<close>
  "candidates flag environ raw_obj config_dir base =
     (case flag of None \<Rightarrow> [] | Some p \<Rightarrow> [(Flag, p, p)])
     @ (case environ of None \<Rightarrow> [] | Some p \<Rightarrow> [(Environment, p, p)])
     @ (case Option.bind raw_obj (\<lambda>raw. map_of raw ''db_path'') of
          Some (JString p) \<Rightarrow> [(Project_config, p, path_join config_dir p)] | _ \<Rightarrow> [])
     @ [(Default, DEFAULT_DB_RELPATH, path_join base DEFAULT_DB_RELPATH)]"

lemma validate_db_path_value_iff:
  "validate_db_path_value (JString p) = (if valid_path p then Inr p else rejected)"
  by (auto simp: validate_db_path_value_def valid_path_def)

lemma default_path_valid: "valid_path DEFAULT_DB_RELPATH"
  by code_simp

lemma resolve_loaded:
  assumes "load_config_object (fs (default_config_path realpath base)) = Inr (raw_obj, exists)"
  shows "resolve_effective_config realpath fs cwd environ flag (Some base) False =
    (case hd (candidates flag environ raw_obj (dirname (default_config_path realpath base)) base) of
       (source, value, path) \<Rightarrow>
         if valid_path value then Inr (effective (Some (default_config_path realpath base)) exists
           (unknown_keys raw_obj) (realpath path) source) else rejected)"
proof -
  let ?cp = "default_config_path realpath base"
  let ?v = "Option.bind raw_obj (\<lambda>raw. map_of raw ''db_path'')"
  have given: "\<exists>p. v = JString p \<and> valid_path p" if "?v = Some v" for v
    using load_config_valid[of "fs ?cp" _ exists v] assms that
    by (auto simp: validate_db_path_value_Inr valid_path_def CONFIG_DB_PATH_KEY_def
        split: bind_split_asm)
  have join: "(if isabs p then p else path_join d p) = path_join d p" for p d
    by (simp add: path_join_def)
  note defs = resolve_effective_config_def Let_def assms candidates_def validate_db_path_value_iff
    CONFIG_DB_PATH_KEY_def rejected_def join
  show ?thesis
  proof (cases "flag = None \<and> environ = None")
    case True
    show ?thesis
    proof (cases ?v)
      case None
      with True default_path_valid show ?thesis by (simp add: defs)
    next
      case (Some v)
      with given obtain p where "v = JString p" "valid_path p" by blast
      with True Some show ?thesis by (simp add: defs)
    qed
  qed (auto simp: defs split: option.splits)
qed


end
