(* ===== verification/OperationsRead.thy ===== *)
theory OperationsRead
  imports StoreQueries Config "HOL-Library.Word"
begin

unbundle bit_operations_syntax

text \<open>
  The reading operations of \<open>spoolctl/operations.py\<close>: opening the database, status, output, events,
  list, show and feedback. Every store call is a statement of its own, so an operation that makes
  several takes one database value per call: what other processes committed in between is part of the
  input. Captured output is a sequence of bytes; decoding it as UTF-8 with replacement characters is a
  parameter. Human-readable messages are left out.
\<close>

section \<open>Opening the database\<close>

definition connect_db :: "py_exn + string \<Rightarrow> (string \<Rightarrow> py_exn + 'c) \<Rightarrow> py_exn + 'c" where
  \<comment> \<open>the resolved path; what \<open>store.connect\<close> does on a path\<close>
  "connect_db resolved opener = and_then resolved (\<lambda>path. case opener path of
       Inl (OSError e) \<Rightarrow>
         if e \<in> {EACCES, EEXIST, ENOENT, ENOTDIR, EROFS} then rejected else Inl (OSError e)
     | Inl (OperationalError text) \<Rightarrow>
         if substring ''unable to open database file'' text \<or> substring ''readonly'' text
         then rejected else Inl (OperationalError text)
     | r \<Rightarrow> r)"

definition not_found :: "py_exn + 'a" where
  "not_found = Inl (CliError (cli_error NOT_FOUND))"

section \<open>Status\<close>

record status_data =
  sd_counts :: counts
  sd_scheduled :: int
  sd_queues :: "(string \<times> queue_status) list"
  sd_recent_dead :: "dead_letter list"

definition status_operation :: "int \<Rightarrow> pyfloat \<Rightarrow> db \<Rightarrow> db \<Rightarrow> status_data" where
  "status_operation limit now d1 d2 = (case status_counts now d1 of (counts, scheduled, queues) \<Rightarrow>
     \<lparr>sd_counts = counts, sd_scheduled = scheduled, sd_queues = queues,
      sd_recent_dead = recent_dead limit d2\<rparr>)"

section \<open>Captured output\<close>

type_synonym bytes = "8 word list"

datatype file_read = File_bytes bytes | File_missing | File_error errno

definition PREVIEW_BYTES :: nat where "PREVIEW_BYTES = 4096"

datatype stream = Stdout | Stderr

definition read_stream :: "(string \<Rightarrow> file_read) \<Rightarrow> string \<Rightarrow> py_exn + bytes" where
  "read_stream fs path = (case fs path of File_bytes b \<Rightarrow> Inr b | File_missing \<Rightarrow> Inr []
     | File_error e \<Rightarrow> Inl (OSError e))"

record stream_data =
  st_path :: string
  st_preview :: string
  st_preview_truncated :: bool
  st_size_bytes :: nat

record output_data =
  od_attempt_no :: int
  od_attempt_state :: attempt_state
  od_attempts_total :: nat
  od_job_id :: int
  od_streams :: "(stream \<times> stream_data) list"
  od_bytes :: "(stream \<times> bytes) list"

datatype output_result = No_attempts | Output output_data

definition stream_path :: "attempt \<Rightarrow> stream \<Rightarrow> string" where
  "stream_path a s = (case s of Stdout \<Rightarrow> a_stdout_path a | Stderr \<Rightarrow> a_stderr_path a)"

fun read_streams :: "(string \<Rightarrow> file_read) \<Rightarrow> attempt \<Rightarrow> stream list \<Rightarrow> py_exn + (stream \<times> bytes) list" where
  "read_streams fs a [] = Inr []"
| "read_streams fs a (s # ss) = and_then (read_stream fs (stream_path a s)) (\<lambda>b.
     and_then (read_streams fs a ss) (\<lambda>rest. Inr ((s, b) # rest)))"

definition stream_entry :: "(bytes \<Rightarrow> string) \<Rightarrow> attempt \<Rightarrow> stream \<times> bytes \<Rightarrow> stream \<times> stream_data" where
  "stream_entry decode a = (\<lambda>(s, blob). (s, \<lparr>st_path = stream_path a s,
     st_preview = decode (take PREVIEW_BYTES blob),
     st_preview_truncated = (length blob > PREVIEW_BYTES), st_size_bytes = length blob\<rparr>))"

definition output_operation :: "(bytes \<Rightarrow> string) \<Rightarrow> (string \<Rightarrow> file_read) \<Rightarrow> int \<Rightarrow> int option
    \<Rightarrow> stream list \<Rightarrow> db \<Rightarrow> db \<Rightarrow> py_exn + output_result" where
  "output_operation decode fs job_id attempt_no streams d1 d2 =
     (case get_job d1 job_id of None \<Rightarrow> not_found | Some j \<Rightarrow>
      let attempts = get_attempts job_id d2
      in if attempts = [] then Inr No_attempts
      else and_then (case attempt_no of
             Some n \<Rightarrow> (case filter (\<lambda>a. a_attempt_no a = n) attempts of
                 [] \<Rightarrow> not_found | a # _ \<Rightarrow> Inr a)
           | None \<Rightarrow> Inr (last attempts)) (\<lambda>attempt.
         and_then (read_streams fs attempt streams) (\<lambda>blobs.
         Inr (Output \<lparr>od_attempt_no = a_attempt_no attempt, od_attempt_state = a_state attempt,
           od_attempts_total = length attempts, od_job_id = job_id,
           od_streams = map (stream_entry decode attempt) blobs,
           od_bytes = blobs\<rparr>))))"

section \<open>Events\<close>

record pagination =
  pg_cursor :: int
  pg_first_id :: "int option"

definition event_page :: "int \<Rightarrow> int option \<Rightarrow> int \<Rightarrow> db \<Rightarrow> db \<Rightarrow> db \<Rightarrow> event list \<times> pagination" where
  \<comment> \<open>the three databases are what \<open>list_events\<close>, \<open>event_high_water\<close> and \<open>first_event_id\<close> see\<close>
  "event_page since_id job_id limit d1 d2 d3 =
     (let fetch_limit = (if limit = 0 then 0 else limit + 1);
          rows = list_events since_id job_id fetch_limit d1;
          truncated = (limit > 0 \<and> int (length rows) > limit);
          events = (if truncated then take (nat limit) rows else rows);
          high_water = event_high_water d2;
          cursor = (if truncated then e_id (last events) else max since_id high_water)
      in (events, \<lparr>pg_cursor = cursor, pg_first_id = first_event_id job_id d3\<rparr>))"

datatype wait_reason = Records_available | Wait_timeout

fun events_wait :: "int \<Rightarrow> int option \<Rightarrow> pyfloat \<Rightarrow> (db \<times> pyfloat) list \<Rightarrow> wait_reason option" where
  \<comment> \<open>each turn: the database the probe sees and the clock read after it; \<open>None\<close> while still waiting\<close>
  "events_wait since_id job_id deadline [] = None"
| "events_wait since_id job_id deadline ((d, clock) # turns) =
     (if list_events since_id job_id 1 d \<noteq> [] then Some Records_available
      else if clock \<ge> deadline then Some Wait_timeout
      else events_wait since_id job_id deadline turns)"

definition events_operation :: "int \<Rightarrow> int option \<Rightarrow> int \<Rightarrow> (pyfloat \<times> pyfloat) option
    \<Rightarrow> (db \<times> pyfloat) list \<Rightarrow> db \<Rightarrow> db \<Rightarrow> db
    \<Rightarrow> ((event list \<times> pagination) \<times> wait_reason option) option" where
  \<comment> \<open>the waiting start and budget, when waiting\<close>
  "events_operation since_id job_id limit wait turns d1 d2 d3 = (case wait of
       None \<Rightarrow> Some (event_page since_id job_id limit d1 d2 d3, None)
     | Some (start, timeout) \<Rightarrow>
         map_option (\<lambda>reason. (event_page since_id job_id limit d1 d2 d3, Some reason))
           (events_wait since_id job_id (fadd start timeout) turns))"

section \<open>List\<close>

fun tags_match :: "pydict \<Rightarrow> (string \<times> string option) list \<Rightarrow> bool" where
  "tags_match tags [] = True"
| "tags_match tags ((key, val) # preds) =
     (if map_of tags key = None then False
      else if val \<noteq> None \<and> map_of tags key \<noteq> val then False
      else tags_match tags preds)"

record list_result =
  lr_jobs :: "job list"
  lr_cursor :: int
  lr_limit :: int
  lr_first_id :: "int option"
  lr_truncated :: bool
  lr_scanned :: "int option"
  lr_scan_capped :: bool

definition list_operation :: "job_state list option \<Rightarrow> (string \<times> string option) list \<Rightarrow> string option
    \<Rightarrow> int option \<Rightarrow> int \<Rightarrow> db \<Rightarrow> db \<Rightarrow> list_result" where
  "list_operation states tag_predicates queue priority_min effective_limit d1 d2 =
     (let fetch_limit = (if tag_predicates \<noteq> [] then TAG_FILTER_SCAN_LIMIT + 1 else effective_limit + 1);
          jobs0 = list_jobs states fetch_limit queue priority_min d1;
          first_id = fst (job_id_bounds d2);
          scanned = int (length jobs0);
          scan_truncated = (tag_predicates \<noteq> [] \<and> scanned > TAG_FILTER_SCAN_LIMIT);
          filtered = filter (\<lambda>j. tags_match (j_tags j) tag_predicates)
            (take (nat TAG_FILTER_SCAN_LIMIT) jobs0);
          truncated = (if tag_predicates \<noteq> []
            then scan_truncated \<or> int (length filtered) > effective_limit
            else scanned > effective_limit);
          jobs1 = take (nat effective_limit) (if tag_predicates \<noteq> [] then filtered else jobs0)
      in \<lparr>lr_jobs = jobs1, lr_cursor = (if jobs1 \<noteq> [] then j_id (last jobs1) else 0),
          lr_limit = effective_limit,
          lr_first_id = first_id, lr_truncated = truncated,
          lr_scanned = (if tag_predicates \<noteq> [] then Some (min scanned TAG_FILTER_SCAN_LIMIT) else None),
          lr_scan_capped = scan_truncated\<rparr>)"

section \<open>Failure reasons, show\<close>

definition latest_failure_reason :: "attempt list \<Rightarrow> failure_reason option" where
  "latest_failure_reason attempts = (case find (\<lambda>a. a_state a \<noteq> ATT_SUCCEEDED \<and> a_failure_reason a \<noteq> None)
       (rev (sort_key a_attempt_no attempts)) of None \<Rightarrow> None | Some a \<Rightarrow> a_failure_reason a)"

definition current_job_failure_reason :: "job \<Rightarrow> attempt list \<Rightarrow> failure_reason option" where
  "current_job_failure_reason j attempts =
     (if j_state j \<in> {DONE, QUEUED, RUNNING} then None else latest_failure_reason attempts)"

record show_result =
  sh_job :: job
  sh_last_failure_reason :: "failure_reason option"
  sh_attempts :: "attempt list"
  sh_events :: "event list"

definition show_operation :: "int \<Rightarrow> db \<Rightarrow> db \<Rightarrow> db \<Rightarrow> py_exn + show_result" where
  "show_operation job_id d1 d2 d3 = (case get_job d1 job_id of None \<Rightarrow> not_found | Some j \<Rightarrow>
     let attempts = get_attempts job_id d2
     in Inr \<lparr>sh_job = j, sh_last_failure_reason = current_job_failure_reason j attempts,
          sh_attempts = attempts, sh_events = get_events job_id d3\<rparr>)"

section \<open>Feedback\<close>

definition is_continuation :: "8 word \<Rightarrow> bool" where
  "is_continuation b \<longleftrightarrow> b AND 192 = 128"

fun orphaned :: "nat \<Rightarrow> bytes \<Rightarrow> nat" where
  \<comment> \<open>continuation bytes at the start, at most so many\<close>
  "orphaned 0 chunk = 0"
| "orphaned (Suc n) [] = 0"
| "orphaned (Suc n) (b # bs) = (if is_continuation b then Suc (orphaned n bs) else 0)"

definition tail_chunk :: "bytes \<Rightarrow> nat \<Rightarrow> bytes \<times> bool" where
  "tail_chunk blob tail_bytes =
     (let truncated = (length blob > tail_bytes);
          chunk = (if tail_bytes \<noteq> 0 then drop (length blob - tail_bytes) blob else []);
          chunk' = (if truncated then drop (orphaned 3 chunk) chunk else chunk)
      in (chunk', truncated))"

definition decode_tail :: "(bytes \<Rightarrow> string) \<Rightarrow> bytes \<Rightarrow> nat \<Rightarrow> string \<times> bool" where
  "decode_tail decode blob tail_bytes = (case tail_chunk blob tail_bytes of (c, t) \<Rightarrow> (decode c, t))"

record feedback_entry =
  fe_tail :: string
  fe_size_bytes :: nat
  fe_truncated :: bool
  fe_missing :: bool
  fe_path :: "string option"

definition feedback_stream :: "(bytes \<Rightarrow> string) \<Rightarrow> (string \<Rightarrow> file_read) \<Rightarrow> string option \<Rightarrow> nat
    \<Rightarrow> feedback_entry" where
  "feedback_stream decode fs path tail_bytes =
     (let missing = \<lparr>fe_tail = [], fe_size_bytes = 0, fe_truncated = False, fe_missing = True, fe_path = path\<rparr>
      in case path of None \<Rightarrow> missing
       | Some p \<Rightarrow> (case fs p of
           File_bytes blob \<Rightarrow> (case decode_tail decode blob tail_bytes of (tail, truncated) \<Rightarrow>
             \<lparr>fe_tail = tail, fe_size_bytes = length blob, fe_truncated = truncated,
              fe_missing = False, fe_path = Some p\<rparr>)
         | _ \<Rightarrow> missing))"

datatype remedy = Remedy_output | Remedy_wait | Remedy_show | Remedy_work
  \<comment> \<open>the command proposed: \<open>output\<close>, \<open>wait\<close>, \<open>show\<close> with the job id, \<open>work --drain\<close>\<close>

record feedback_data =
  fd_attempts :: int
  fd_attempts_total :: nat
  fd_duration :: "pyfloat option"
  fd_exit_code :: "int option"
  fd_failure_reason :: "failure_reason option"
  fd_job_id :: int
  fd_last_error :: "string option"
  fd_latest_attempt_no :: "int option"
  fd_remediation :: "remedy option"
  fd_state :: job_state
  fd_stdout :: feedback_entry
  fd_stderr :: feedback_entry
  fd_succeeded :: "bool option"
  fd_terminal :: bool
  fd_no_attempts_yet :: bool  \<comment> \<open>the warning\<close>

definition feedback_outcome :: "job \<Rightarrow> attempt list \<Rightarrow> int option \<times> failure_reason option" where
  "feedback_outcome j attempts =
     (let latest = (if attempts = [] then None else Some (last attempts))
      in if j_state j = DONE then (Some 0, None)
      else if j_state j = DEAD then (Option.bind latest a_exit_code, latest_failure_reason attempts)
      else if j_state j = CANCELED then (None, if attempts = [] then None else Some REASON_CANCELED)
      else if j_state j = RUNNING then (None, None)
      else if j_attempts j > 0 then (j_last_exit_code j, latest_failure_reason attempts)
      else (None, None))"

definition feedback_remedy :: "job \<Rightarrow> remedy option" where
  "feedback_remedy j = (if j_state j \<in> {DONE, CANCELED} then None
     else if j_state j = DEAD then Some Remedy_output
     else if j_state j = RUNNING then Some Remedy_wait
     else if j_attempts j > 0 then Some Remedy_show else Some Remedy_work)"

definition feedback_operation :: "(bytes \<Rightarrow> string) \<Rightarrow> (string \<Rightarrow> file_read) \<Rightarrow> int \<Rightarrow> int \<Rightarrow> db \<Rightarrow> db
    \<Rightarrow> py_exn + feedback_data" where
  "feedback_operation decode fs job_id tail_bytes d1 d2 =
     (if tail_bytes < 1 \<or> tail_bytes > FEEDBACK_TAIL_MAX then rejected
      else case get_job d1 job_id of None \<Rightarrow> not_found | Some j \<Rightarrow>
        let attempts = get_attempts job_id d2;
            latest = (if attempts = [] then None else Some (last attempts));
            entry = (\<lambda>path. feedback_stream decode fs (map_option path latest) (nat tail_bytes))
        in Inr \<lparr>fd_attempts = j_attempts j, fd_attempts_total = length attempts,
             fd_duration = (case (j_started_at j, j_finished_at j) of
               (Some s, Some f) \<Rightarrow> Some (fsub f s) | _ \<Rightarrow> None),
             fd_exit_code = fst (feedback_outcome j attempts),
             fd_failure_reason = snd (feedback_outcome j attempts),
             fd_job_id = j_id j, fd_last_error = j_last_error j,
             fd_latest_attempt_no = map_option a_attempt_no latest,
             fd_remediation = feedback_remedy j, fd_state = j_state j,
             fd_stdout = entry a_stdout_path, fd_stderr = entry a_stderr_path,
             fd_succeeded = map_of [(DONE, True), (DEAD, False), (CANCELED, False)] (j_state j),
             fd_terminal = (j_state j \<in> set WAIT_TERMINAL), fd_no_attempts_yet = (attempts = [])\<rparr>)"

section \<open>The tail of captured output\<close>

definition utf8_char :: "bytes \<Rightarrow> bool" where
  \<comment> \<open>the shape of an encoded character: a lead byte, then at most three continuation bytes\<close>
  "utf8_char c \<longleftrightarrow> c \<noteq> [] \<and> \<not> is_continuation (hd c) \<and> list_all is_continuation (tl c) \<and> length c \<le> 4"

lemma orphaned_le: "orphaned n chunk \<le> n"
  by (induction n chunk rule: orphaned.induct) auto

lemma orphaned_le_length: "orphaned n chunk \<le> length chunk"
  by (induction n chunk rule: orphaned.induct) auto

lemma orphaned_append:
  assumes "list_all is_continuation xs" and "length xs \<le> n"
    and "ys = [] \<or> \<not> is_continuation (hd ys)"
  shows "orphaned n (xs @ ys) = length xs"
  using assms
proof (induction xs arbitrary: n)
  case Nil
  then show ?case by (cases n; cases ys) auto
next
  case (Cons x xs)
  then show ?case by (cases n) auto
qed

lemma utf8_lead: "list_all utf8_char cs \<Longrightarrow> concat cs = [] \<or> \<not> is_continuation (hd (concat cs))"
  by (cases cs) (auto simp: utf8_char_def hd_append)

lemma suffix_boundary:
  assumes "list_all utf8_char cs"
  shows "\<exists>k. drop (orphaned 3 (drop m (concat cs))) (drop m (concat cs)) = concat (drop k cs)"
  using assms
proof (induction cs arbitrary: m)
  case (Cons c cs)
  then have c: "utf8_char c" and cs: "list_all utf8_char cs" by simp_all
  show ?case
  proof (cases "length c \<le> m")
    case True
    from Cons.IH[OF cs, of "m - length c"] obtain k where
      "drop (orphaned 3 (drop (m - length c) (concat cs))) (drop (m - length c) (concat cs))
        = concat (drop k cs)" by blast
    with True show ?thesis by (intro exI[of _ "Suc k"]) simp
  next
    case False
    show ?thesis
    proof (cases m)
      case 0
      have "orphaned 3 (concat (c # cs)) = 0"
        using orphaned_append[of "[]" 3 "concat (c # cs)"] utf8_lead[OF Cons.prems] by simp
      with 0 show ?thesis by (intro exI[of _ 0]) simp
    next
      case (Suc i)
      have "drop m c = drop i (tl c)" by (simp add: Suc drop_Suc)
      moreover have "set (drop i (tl c)) \<subseteq> set (tl c)" by (rule set_drop_subset)
      ultimately have "list_all is_continuation (drop m c)" "length (drop m c) \<le> 3"
        using c Suc by (auto simp: utf8_char_def list_all_iff)
      from orphaned_append[OF this utf8_lead[OF cs]] False
      show ?thesis by (intro exI[of _ 1]) simp
    qed
  qed
qed simp

text \<open>C38. The output tail of \<open>feedback\<close> never splits a character: of any output made of encoded
  characters it keeps whole characters only, a suffix of them, at most the bytes asked for and at most
  three fewer when it had to cut.\<close>

theorem tail_on_character_boundary:
  assumes "list_all utf8_char cs" and "tail_chunk (concat cs) n = (chunk, truncated)"
  shows "\<exists>k. chunk = concat (drop k cs) \<and> length chunk \<le> n
    \<and> (if truncated then n \<le> length chunk + 3 else chunk = concat cs)"
proof (cases "length (concat cs) \<le> n")
  case True
  with assms(2) have "chunk = concat cs" "\<not> truncated"
    by (auto simp: tail_chunk_def Let_def split: if_splits)
  with True show ?thesis by (intro exI[of _ 0]) simp
next
  case False
  show ?thesis
  proof (cases "n = 0")
    case True
    with assms(2) have "chunk = []" "truncated" using False
      by (auto simp: tail_chunk_def Let_def)
    with True show ?thesis by (intro exI[of _ "length cs"]) simp
  next
    case nz: False
    let ?s = "drop (length (concat cs) - n) (concat cs)"
    from assms(2) False nz have c: "chunk = drop (orphaned 3 ?s) ?s" "truncated"
      by (auto simp: tail_chunk_def Let_def)
    have "length ?s = n" using False by simp
    then have "length chunk \<le> n \<and> n \<le> length chunk + 3"
      using orphaned_le[of 3 ?s] by (simp add: c(1))
    with suffix_boundary[OF assms(1), of "length (concat cs) - n"] c show ?thesis by auto
  qed
qed

theorem tail_on_character_boundary_witness:
  "tail_chunk [0xE2, 0x82, 0xAC, 0x41, 0xC3, 0xA9] 4 = ([0x41, 0xC3, 0xA9], True)
   \<and> (\<exists>k. fst (tail_chunk [0xE2, 0x82, 0xAC, 0x41, 0xC3, 0xA9] 4) =
       concat (drop k [[0xE2, 0x82, 0xAC], [0x41], [0xC3, 0xA9]]))"
proof -
  have t: "tail_chunk [0xE2, 0x82, 0xAC, 0x41, 0xC3, 0xA9] 4 = ([0x41, 0xC3, 0xA9], True)"
    by code_simp
  have "list_all utf8_char [[0xE2, 0x82, 0xAC], [0x41], [0xC3, 0xA9]]"
    by code_simp
  from tail_on_character_boundary[OF this, of 4 "[0x41, 0xC3, 0xA9]" True] t show ?thesis by auto
qed

section \<open>Feedback\<close>

lemma newest_reason:
  assumes "latest_failure_reason as = Some r"
  shows "\<exists>a\<in>set as. a_failure_reason a = Some r \<and> a_state a \<noteq> ATT_SUCCEEDED
    \<and> (\<forall>b\<in>set as. a_attempt_no a < a_attempt_no b \<longrightarrow> a_state b = ATT_SUCCEEDED \<or> a_failure_reason b = None)"
proof -
  let ?P = "\<lambda>a. a_state a \<noteq> ATT_SUCCEEDED \<and> a_failure_reason a \<noteq> None"
  let ?xs = "sort_key a_attempt_no as"
  from assms obtain a where f: "find ?P (rev ?xs) = Some a" "a_failure_reason a = Some r"
    by (auto simp: latest_failure_reason_def split: option.splits)
  from f(1) obtain i where i: "i < length ?xs" "?P (rev ?xs ! i)" "a = rev ?xs ! i"
    "\<forall>j<i. \<not> ?P (rev ?xs ! j)" by (auto simp: find_Some_iff)
  have "a \<in> set (rev ?xs)" using i(1,3) by (metis length_rev nth_mem)
  moreover have "\<not> ?P b" if b: "b \<in> set as" "a_attempt_no a < a_attempt_no b" for b
  proof -
    from b(1) have "b \<in> set (rev ?xs)" by simp
    then obtain j where j: "j < length ?xs" "b = rev ?xs ! j" by (metis in_set_conv_nth length_rev)
    have "sorted (map a_attempt_no ?xs)" by simp
    then have "a_attempt_no (rev ?xs ! j) \<le> a_attempt_no (rev ?xs ! i)" if "i \<le> j"
      using that i(1) j(1) by (auto simp: rev_nth sorted_iff_nth_mono)
    with b(2) i(3) j(2) have "j < i" by (cases "i \<le> j") auto
    with i(4) j(2) show ?thesis by blast
  qed
  ultimately show ?thesis using f(2) i(2,3) by (intro bexI[of _ a]) auto
qed

text \<open>C39. The feedback verdict is consistent: a job is terminal exactly when success is decided, it
  succeeded exactly when it is done, a done job has exit code 0 and no failure reason, a running job
  has neither, and any reason reported is that of the newest attempt that failed with one, or the
  cancellation.\<close>

theorem feedback_verdict:
  assumes "feedback_operation decode fs k n d1 d2 = Inr f"
  shows "\<exists>j. get_job d1 k = Some j \<and> fd_state f = j_state j
    \<and> (fd_terminal f \<longleftrightarrow> fd_succeeded f \<noteq> None) \<and> (fd_succeeded f = Some True \<longleftrightarrow> j_state j = DONE)
    \<and> (j_state j = DONE \<longrightarrow> fd_exit_code f = Some 0 \<and> fd_failure_reason f = None)
    \<and> (j_state j = RUNNING \<longrightarrow> fd_exit_code f = None \<and> fd_failure_reason f = None)
    \<and> (\<forall>r. fd_failure_reason f = Some r \<longrightarrow> j_state j = CANCELED \<and> r = REASON_CANCELED
        \<or> (\<exists>a\<in>set (get_attempts k d2). a_failure_reason a = Some r \<and> a_state a \<noteq> ATT_SUCCEEDED
            \<and> (\<forall>b\<in>set (get_attempts k d2). a_attempt_no a < a_attempt_no b \<longrightarrow>
                a_state b = ATT_SUCCEEDED \<or> a_failure_reason b = None)))"
proof -
  from assms obtain j where j: "get_job d1 k = Some j"
    by (auto simp: feedback_operation_def not_found_def rejected_def split: if_splits option.splits)
  with assms have f: "fd_state f = j_state j" "fd_terminal f \<longleftrightarrow> j_state j \<in> set WAIT_TERMINAL"
    "fd_succeeded f = map_of [(DONE, True), (DEAD, False), (CANCELED, False)] (j_state j)"
    "fd_exit_code f = fst (feedback_outcome j (get_attempts k d2))"
    "fd_failure_reason f = snd (feedback_outcome j (get_attempts k d2))"
    by (auto simp: feedback_operation_def not_found_def rejected_def Let_def split: if_splits)
  have reason: "j_state j = CANCELED \<and> r = REASON_CANCELED \<or>
      latest_failure_reason (get_attempts k d2) = Some r" if "fd_failure_reason f = Some r" for r
    using that by (auto simp: f(5) feedback_outcome_def Let_def split: if_splits)
  show ?thesis
    using j f newest_reason reason
    by (intro exI[of _ j]) (cases "j_state j"; auto simp: WAIT_TERMINAL_def feedback_outcome_def)
qed

theorem feedback_verdict_witness:
  "\<exists>f. feedback_operation (\<lambda>_. []) (\<lambda>_. File_missing) 2 2048 db_dead db_dead = Inr f
     \<and> fd_succeeded f = Some False \<and> fd_failure_reason f = Some REASON_TIMEOUT"
proof -
  have "case feedback_operation (\<lambda>_. []) (\<lambda>_. File_missing) 2 2048 db_dead db_dead of
      Inr f \<Rightarrow> fd_succeeded f = Some False \<and> fd_failure_reason f = Some REASON_TIMEOUT | Inl _ \<Rightarrow> False"
    by code_simp
  then obtain f where f: "feedback_operation (\<lambda>_. []) (\<lambda>_. File_missing) 2 2048 db_dead db_dead = Inr f"
    "fd_succeeded f = Some False" "fd_failure_reason f = Some REASON_TIMEOUT"
    by (auto split: sum.splits)
  from feedback_verdict[OF f(1)] f show ?thesis by auto
qed


section \<open>Event pages\<close>

definition after_cursor :: "int \<Rightarrow> int option \<Rightarrow> event \<Rightarrow> bool" where
  "after_cursor since_id job_id e \<longleftrightarrow> since_id < e_id e \<and> in_stream job_id e"

lemma list_events_after:
  "tables_ok d \<Longrightarrow> list_events since_id job_id n d =
     (let found = filter (after_cursor since_id job_id) (evs d) in if n > 0 then take (nat n) found else found)"
  by (simp add: list_events_eq after_cursor_def[abs_def])

lemma take_until_last:
  assumes "ascending e_id xs" and "0 < k" and "k \<le> length xs"
  shows "filter (\<lambda>e. e_id e \<le> e_id (last (take k xs))) xs = take k xs"
proof -
  have asc: "ascending e_id (take k xs @ drop k xs)" using assms(1) by simp
  let ?l = "last (take k xs)"
  have ne: "take k xs \<noteq> []" using assms(2,3) by auto
  then obtain ys where ys: "take k xs = ys @ [?l]" by (metis append_butlast_last_id)
  have "e_id e \<le> e_id ?l" if "e \<in> set (take k xs)" for e
  proof -
    have "ascending e_id (ys @ [?l])" using asc ys by (metis ascending_def map_append sorted_wrt_append)
    with that show ?thesis by (subst (asm) ys) (auto simp: ascending_def sorted_wrt_append)
  qed
  moreover have "e_id ?l < e_id e" if "e \<in> set (drop k xs)" for e
    using asc last_in_set[OF ne] that unfolding ascending_def map_append sorted_wrt_append by fastforce
  ultimately have "filter (\<lambda>e. e_id e \<le> e_id ?l) (take k xs) = take k xs"
    and "filter (\<lambda>e. e_id e \<le> e_id ?l) (drop k xs) = []"
    by (auto simp: filter_id_conv filter_empty_conv not_le)
  then have "filter (\<lambda>e. e_id e \<le> e_id ?l) (take k xs @ drop k xs) = take k xs"
    by (simp only: filter_append append_Nil2)
  then show ?thesis by (simp only: append_take_drop_id)
qed




section \<open>Listing\<close>

definition wanted :: "job_state list option \<Rightarrow> (string \<times> string option) list \<Rightarrow> string option \<Rightarrow> int option
    \<Rightarrow> job \<Rightarrow> bool" where
  "wanted states preds queue prio j \<longleftrightarrow> (\<forall>ss. states = Some ss \<longrightarrow> ss = [] \<or> j_state j \<in> set ss) \<and>
     (\<forall>q. queue = Some q \<longrightarrow> j_queue j = q) \<and> (\<forall>p. prio = Some p \<longrightarrow> p \<le> j_priority j) \<and>
     (\<forall>(k, v)\<in>set preds. case map_of (j_tags j) k of None \<Rightarrow> False | Some x \<Rightarrow> v = None \<or> v = Some x)"

lemma tags_match_iff: "tags_match tags preds \<longleftrightarrow>
    (\<forall>(k, v)\<in>set preds. case map_of tags k of None \<Rightarrow> False | Some x \<Rightarrow> v = None \<or> v = Some x)"
  by (induction tags preds rule: tags_match.induct) (auto split: option.splits)

definition listing :: "job_state list option \<Rightarrow> string option \<Rightarrow> int option \<Rightarrow> db \<Rightarrow> job list" where
  "listing states queue prio d = list_jobs states 0 queue prio d"

lemma listing_set: "set (filter (\<lambda>j. tags_match (j_tags j) preds) (listing states queue prio d)) =
    {j \<in> set (jobs d). wanted states preds queue prio j}"
  by (cases states; cases queue; cases prio)
    (auto simp: listing_def list_jobs_def Let_def wanted_def tags_match_iff)

lemma listing_descending:
  assumes "tables_ok d"
  shows "sorted_wrt (\<lambda>a b. j_id b < j_id a) (listing states queue prio d)"
proof -
  let ?xs = "listing states queue prio d"
  have dist: "distinct (map j_id (jobs d))"
    using assms by (simp add: tables_ok_def ids_ok_def ascending_def strict_sorted_iff)
  have "inj_on j_id (set (jobs d))" using dist by (simp add: distinct_map)
  moreover have "set ?xs \<subseteq> set (jobs d)" by (auto simp: listing_def list_jobs_def Let_def)
  moreover have "distinct ?xs"
    using dist by (simp add: listing_def list_jobs_def Let_def distinct_map)
  ultimately have "distinct (map j_id ?xs)" by (simp add: distinct_map inj_on_subset)
  then have d: "distinct (map (\<lambda>j. - j_id j) ?xs)" by (simp add: distinct_map inj_on_def)
  have "sorted (map (\<lambda>j. - j_id j) ?xs)" by (simp add: listing_def list_jobs_def Let_def)
  with d have "sorted_wrt (<) (map (\<lambda>j. - j_id j) ?xs)" by (simp add: strict_sorted_iff)
  then show ?thesis by (simp add: sorted_wrt_map)
qed

lemma list_jobs_limited: "0 < n \<Longrightarrow> list_jobs states n queue prio d = take (nat n) (listing states queue prio d)"
  by (simp add: list_jobs_def listing_def sql_limit_def Let_def)

lemma list_operation_jobs:
  fixes preds :: "(string \<times> string option) list"
  assumes "0 \<le> n" and "res = list_operation states preds queue prio n d1 d2"
  defines "M \<equiv> filter (\<lambda>j. tags_match (j_tags j) preds) (listing states queue prio d1)"
  shows "\<exists>i. lr_jobs res = take (nat n) (filter (\<lambda>j. tags_match (j_tags j) preds)
      (take i (listing states queue prio d1)))"
    and "\<not> lr_scan_capped res \<Longrightarrow> lr_jobs res = take (nat n) M \<and> (lr_truncated res \<longleftrightarrow> nat n < length M)"
    and "\<not> lr_truncated res \<Longrightarrow> \<not> lr_scan_capped res"
proof -
  let ?L = "listing states queue prio d1"
  have all: "filter (\<lambda>j. tags_match (j_tags j) []) xs = xs" for xs by simp
  have lj: "list_jobs states (n + 1) queue prio d1 = take (Suc (nat n)) ?L"
    "list_jobs states (TAG_FILTER_SCAN_LIMIT + 1) queue prio d1 = take 1001 ?L"
    using assms(1) by (simp_all add: list_jobs_limited nat_add_distrib TAG_FILTER_SCAN_LIMIT_def)
  have cap: "lr_scan_capped res \<longleftrightarrow> preds \<noteq> [] \<and> 1000 < length ?L"
    using lj by (auto simp: assms(2) list_operation_def Let_def TAG_FILTER_SCAN_LIMIT_def)
  show "\<exists>i. lr_jobs res = take (nat n) (filter (\<lambda>j. tags_match (j_tags j) preds) (take i ?L))"
  proof (cases "preds = []")
    case True
    then show ?thesis using lj by (intro exI[of _ "Suc (nat n)"])
        (simp add: assms(2) list_operation_def Let_def)
  next
    case False
    then show ?thesis using lj by (intro exI[of _ 1000])
        (simp add: assms(2) list_operation_def Let_def TAG_FILTER_SCAN_LIMIT_def)
  qed
  show "\<not> lr_truncated res \<Longrightarrow> \<not> lr_scan_capped res"
    by (auto simp: assms(2) list_operation_def Let_def)
  assume nc: "\<not> lr_scan_capped res"
  show "lr_jobs res = take (nat n) M \<and> (lr_truncated res \<longleftrightarrow> nat n < length M)"
  proof (cases "preds = []")
    case True
    then show ?thesis using lj assms(1)
      by (auto simp: assms(2) M_def list_operation_def Let_def min_def)
  next
    case False
    with nc cap have short: "length ?L \<le> 1000" by simp
    then show ?thesis using False lj assms(1)
      by (auto simp: assms(2) M_def list_operation_def Let_def TAG_FILTER_SCAN_LIMIT_def)
  qed
qed

text \<open>C40. A listing is right: every row it returns matches the filters, newest first; unless the tag
  scan hit its cap the rows are the newest of the matching ones; and when it does not report
  truncation it returned every matching job.\<close>

theorem list_operation_exact:
  assumes "tables_ok d1" and "0 \<le> n" and "res = list_operation states preds queue prio n d1 d2"
  shows "sorted_wrt (\<lambda>a b. j_id b < j_id a) (lr_jobs res) \<and> int (length (lr_jobs res)) \<le> n
    \<and> set (lr_jobs res) \<subseteq> {j \<in> set (jobs d1). wanted states preds queue prio j}
    \<and> (\<not> lr_scan_capped res \<longrightarrow> (\<forall>l\<in>set (lr_jobs res). \<forall>j\<in>set (jobs d1).
        wanted states preds queue prio j \<and> j \<notin> set (lr_jobs res) \<longrightarrow> j_id j < j_id l))
    \<and> (\<not> lr_truncated res \<longrightarrow> {j \<in> set (jobs d1). wanted states preds queue prio j} \<subseteq> set (lr_jobs res))"
proof -
  let ?L = "listing states queue prio d1" and ?P = "\<lambda>j. tags_match (j_tags j) preds"
  let ?M = "filter ?P ?L"
  note facts = list_operation_jobs[OF assms(2,3)]
  note desc = listing_descending[OF assms(1), of states queue prio]
  obtain i where i: "lr_jobs res = take (nat n) (filter ?P (take i ?L))" using facts(1) by blast
  have 1: "sorted_wrt (\<lambda>a b. j_id b < j_id a) (lr_jobs res)"
    unfolding i by (intro sorted_wrt_take sorted_wrt_filter desc)
  have 2: "int (length (lr_jobs res)) \<le> n" using assms(2) by (simp add: i)
  have "set (lr_jobs res) \<subseteq> set ?M"
    using set_take_subset[of "nat n" "filter ?P (take i ?L)"] set_take_subset[of i ?L] by (auto simp: i)
  then have 3: "set (lr_jobs res) \<subseteq> {j \<in> set (jobs d1). wanted states preds queue prio j}"
    unfolding listing_set .
  have 4: "j_id j < j_id l" if "\<not> lr_scan_capped res" "l \<in> set (lr_jobs res)" "j \<in> set ?M"
    "j \<notin> set (lr_jobs res)" for j l
  proof -
    have r: "lr_jobs res = take (nat n) ?M" using facts(2)[OF that(1)] by blast
    have "sorted_wrt (\<lambda>a b. j_id b < j_id a) (take (nat n) ?M @ drop (nat n) ?M)"
      unfolding append_take_drop_id by (intro sorted_wrt_filter desc)
    moreover have "set (take (nat n) ?M) \<union> set (drop (nat n) ?M) = set ?M"
      unfolding set_append[symmetric] append_take_drop_id ..
    then have "j \<in> set (drop (nat n) ?M)" using that(3,4) unfolding r by blast
    ultimately show ?thesis using that(2) unfolding sorted_wrt_append r by blast
  qed
  have 5: "set ?M \<subseteq> set (lr_jobs res)" if "\<not> lr_truncated res"
    using facts(2)[OF facts(3)[OF that]] that by simp
  from 1 2 3 4 5 show ?thesis unfolding listing_set by blast
qed

theorem list_operation_exact_witness:
  "set (lr_jobs (list_operation (Some [DEAD]) [(''team'', None)] None None 50 db_dead db_dead)) =
     {j \<in> set (jobs db_dead). wanted (Some [DEAD]) [(''team'', None)] None None j}"
proof -
  let ?r = "list_operation (Some [DEAD]) [(''team'', None)] None None 50 db_dead db_dead"
  have "\<not> lr_truncated ?r" by code_simp
  with list_operation_exact[where ?d1.0 = db_dead and n = 50 and res = ?r and states = "Some [DEAD]" and
      preds = "[(''team'', None)]" and queue = None and prio = None and ?d2.0 = db_dead]
  show ?thesis using reachable_tables[of db_dead] by auto
qed

text \<open>The duration is that of the last attempt that finished, taken from the start of the one running: a
  job that runs again after a failure reports a negative duration.\<close>

lemma running_again_duration:
  "case feedback_operation (\<lambda>_. []) (\<lambda>_. File_missing) 2 2048
      (snd (claim_next ''w1'' 7 120 ''out'' ''default'' None db_failed))
      (snd (claim_next ''w1'' 7 120 ''out'' ''default'' None db_failed)) of
     Inr f \<Rightarrow> fd_state f = RUNNING \<and> fd_duration f = Some (- 10) | Inl e \<Rightarrow> False"
  by code_simp

end
