(* ===== verification/Follow.thy ===== *)
theory Follow
  imports OperationsRead
begin

text \<open>
  The live tail of the event ledger, \<open>events --follow\<close> (\<open>_run_events_follow\<close> in \<open>cli.py\<close>): poll the
  ledger behind a cursor, write each event as a frame, stop on a signal, an idle timeout, a number of
  frames, a closed pipe or a database error. What the loop observes in each round is a record; the
  frames written and the reason of the end are its result.
\<close>

section \<open>The loop\<close>

datatype row_signal = Go | Stop_set | Pipe_broken
  \<comment> \<open>when a frame is due: nothing, a signal has arrived, or writing it finds the pipe closed\<close>

datatype follow_end = Signalled | Idle | Max_events | Broken_pipe | Sqlite_error

fun write_rows :: "int option \<Rightarrow> row_signal list \<Rightarrow> int \<Rightarrow> event list \<Rightarrow> event list \<times> follow_end option" where
  \<comment> \<open>the frames written of a page, \<open>None\<close> when all were and the loop goes on\<close>
  "write_rows max_events sigs emitted [] = ([], None)"
| "write_rows max_events sigs emitted (e # es) =
     (case (case sigs of [] \<Rightarrow> Go | s # _ \<Rightarrow> s) of
        Stop_set \<Rightarrow> ([], Some Signalled)
      | Pipe_broken \<Rightarrow> ([], Some Broken_pipe)
      | Go \<Rightarrow>
          if (case max_events of None \<Rightarrow> False | Some m \<Rightarrow> emitted + 1 \<ge> m)
          then ([e], Some Max_events)
          else (case write_rows max_events (tl sigs) (emitted + 1) es of (w, r) \<Rightarrow> (e # w, r)))"

record round =
  ro_stopped :: bool          \<comment> \<open>a signal has arrived when the loop tests its condition\<close>
  ro_read :: "db option"      \<comment> \<open>what \<open>list_events\<close> sees, \<open>None\<close> when it raises \<open>sqlite3.Error\<close>\<close>
  ro_clock :: pyfloat         \<comment> \<open>the monotonic clock after the read\<close>
  ro_signals :: "row_signal list"
  ro_written_at :: pyfloat    \<comment> \<open>the clock after the last frame of the page\<close>

fun follow_loop :: "int option \<Rightarrow> pyfloat option \<Rightarrow> int option \<Rightarrow> round list \<Rightarrow> int \<Rightarrow> int \<Rightarrow> pyfloat
    \<Rightarrow> (event list \<times> follow_end) option" where
  \<comment> \<open>job, \<open>--idle-timeout\<close>, \<open>--max-events\<close>; then cursor, frames written so far, \<open>idle_started\<close>\<close>
  "follow_loop job idle_timeout max_events [] cursor emitted idle_started = None"
| "follow_loop job idle_timeout max_events (r # rounds) cursor emitted idle_started =
     (if ro_stopped r then Some ([], Signalled)
      else case ro_read r of
        None \<Rightarrow> Some ([], Sqlite_error)
      | Some d \<Rightarrow>
          let rows = list_events cursor job 0 d
          in if rows = [] then
               (if (case idle_timeout of None \<Rightarrow> False | Some t \<Rightarrow> fsub (ro_clock r) idle_started \<ge> t)
                then Some ([], Idle)
                else follow_loop job idle_timeout max_events rounds cursor emitted idle_started)
             else (case write_rows max_events (ro_signals r) emitted rows of
               (w, Some reason) \<Rightarrow> Some (w, reason)
             | (w, None) \<Rightarrow> map_option (\<lambda>(w', reason). (w @ w', reason))
                 (follow_loop job idle_timeout max_events rounds (e_id (last w))
                   (emitted + int (length w)) (ro_written_at r))))"

definition run_events_follow :: "int option \<Rightarrow> int option \<Rightarrow> pyfloat option \<Rightarrow> int option \<Rightarrow> db
    \<Rightarrow> pyfloat \<Rightarrow> round list \<Rightarrow> (event list \<times> follow_end) option" where
  \<comment> \<open>without \<open>--since-id\<close> the tail starts at the high-water mark\<close>
  "run_events_follow since_id job idle_timeout max_events d0 start rounds =
     follow_loop job idle_timeout max_events rounds
       (case since_id of Some s \<Rightarrow> s | None \<Rightarrow> event_high_water d0) 0 start"

section \<open>What it writes\<close>

definition seen :: "round list \<Rightarrow> db list" where
  "seen rounds = concat (map (\<lambda>r. case ro_read r of None \<Rightarrow> [] | Some d \<Rightarrow> [d]) rounds)"

lemma write_rows_prefix: "write_rows m sigs n es = (w, r) \<Longrightarrow>
    (\<exists>rest. es = w @ rest) \<and> (r = None \<longrightarrow> w = es)
    \<and> (\<forall>k. m = Some k \<and> n < k \<longrightarrow> n + int (length w) \<le> k \<and> (r = None \<longrightarrow> n + int (length w) < k \<or> w = []))"
proof (induction m sigs n es arbitrary: w r rule: write_rows.induct)
  case (2 m sigs n e es)
  show ?case
  proof (cases "case sigs of [] \<Rightarrow> Go | s # _ \<Rightarrow> s")
    case Go
    show ?thesis
    proof (cases "case m of None \<Rightarrow> False | Some k \<Rightarrow> n + 1 \<ge> k")
      case True
      with Go 2(2) show ?thesis by (auto split: option.splits)
    next
      case False
      obtain w' r' where w': "write_rows m (tl sigs) (n + 1) es = (w', r')" by fastforce
      with False Go 2(2) have "w = e # w'" "r = r'" by simp_all
      with 2(1)[OF Go False w'] False show ?thesis by (auto split: option.splits)
    qed
  qed (use 2(2) in auto)
qed simp

lemma poll_Cons: "fst (poll page rid (d # ds) s) = page s d @
    fst (poll page rid ds (if page s d = [] then s else rid (last (page s d))))"
  by (simp add: Let_def split: prod.split)

lemma follow_is_poll:
  assumes "follow_loop job idle m rounds s n t = Some (out, reason)"
  shows "\<exists>k rest. fst (poll (\<lambda>s d. list_events s job (int 0) d) e_id (take k (seen rounds)) s) = out @ rest
    \<and> k \<le> length (seen rounds)"
  using assms
proof (induction job idle m rounds s n t arbitrary: out rule: follow_loop.induct)
  case (2 job idle m r rounds s n t)
  let ?page = "\<lambda>s d. list_events s job (int 0) d"
  have stop: ?case if "out = []" using that by (intro exI[of _ 0]) simp
  show ?case
  proof (cases "ro_stopped r \<or> ro_read r = None")
    case True
    with 2(3) have "out = []" by (auto split: if_splits)
    then show ?thesis by (rule stop)
  next
    case False
    then obtain d where d: "\<not> ro_stopped r" "ro_read r = Some d" by auto
    have seen: "seen (r # rounds) = d # seen rounds" by (simp add: seen_def d)
    have cons: "\<exists>k rest. fst (poll ?page e_id (take k (seen (r # rounds))) s) = (p @ out') @ rest \<and>
        k \<le> length (seen (r # rounds))"
      if p: "p = ?page s d" and IH: "\<exists>k rest. fst (poll ?page e_id (take k (seen rounds))
          (if p = [] then s else e_id (last p))) = out' @ rest \<and> k \<le> length (seen rounds)" for p out'
    proof -
      from IH obtain k rest where k: "fst (poll ?page e_id (take k (seen rounds))
          (if p = [] then s else e_id (last p))) = out' @ rest" "k \<le> length (seen rounds)" by blast
      have "fst (poll ?page e_id (take (Suc k) (d # seen rounds)) s) = (p @ out') @ rest"
        unfolding take_Suc_Cons poll_Cons p[symmetric] k(1) by simp
      with k(2) show ?thesis unfolding seen by (intro exI[of _ "Suc k"]) auto
    qed
    show ?thesis
    proof (cases "list_events s job 0 d = []")
      case True
      note empty = this
      show ?thesis
      proof (cases "case idle of None \<Rightarrow> False | Some x \<Rightarrow> fsub (ro_clock r) t \<ge> x")
        case True
        with 2(3) d empty have "out = []" by simp
        then show ?thesis by (rule stop)
      next
        case False
        with 2(3) d empty have "follow_loop job idle m rounds s n t = Some (out, reason)" by simp
        from cons[of "[]" out] 2(1)[OF d refl empty False this] empty show ?thesis by simp
      qed
    next
      case False
      obtain w e where w: "write_rows m (ro_signals r) n (list_events s job 0 d) = (w, e)" by fastforce
      note pre = write_rows_prefix[OF w]
      show ?thesis
      proof (cases e)
        case (Some reason')
        with 2(3) d False w have "out = w" by simp
        moreover obtain rest where "list_events s job 0 d = w @ rest" using pre by (elim conjE exE)
        ultimately show ?thesis unfolding seen by (intro exI[of _ 1]) (simp add: Let_def)
      next
        case None
        with pre have page: "list_events s job 0 d = w" by simp
        with 2(3) d False w None obtain out' where o: "follow_loop job idle m rounds (e_id (last w))
            (n + int (length w)) (ro_written_at r) = Some (out', reason)" "out = w @ out'"
          by (auto simp: Let_def)
        from False page have "w \<noteq> []" by simp
        with cons[of w out'] 2(2)[OF d refl False w[symmetric] None o(1)] page o(2) show ?thesis by simp
      qed
    qed
  qed
qed simp


lemma ascending_prefix:
  assumes "ascending e_id (p @ rest)" and "c = e_id (last p)" and "p \<noteq> []"
  shows "filter (\<lambda>e. e_id e \<le> c) (p @ rest) = p"
proof -
  have "filter (\<lambda>e. e_id e \<le> e_id (last (take (length p) (p @ rest)))) (p @ rest) = take (length p) (p @ rest)"
    using assms(1,3) by (intro take_until_last) auto
  moreover have "take (length p) (p @ rest) = p" by simp
  ultimately show ?thesis unfolding assms(2) by (simp only:)
qed

lemma follow_length:
  assumes "follow_loop job idle m rounds s n t = Some (out, reason)" and "m = Some k" and "n < k"
  shows "n + int (length out) \<le> k"
  using assms
proof (induction job idle m rounds s n t arbitrary: out rule: follow_loop.induct)
  case (2 job idle m r rounds s n t)
  show ?case
  proof (cases "ro_stopped r \<or> ro_read r = None")
    case True
    with 2(3,5) show ?thesis by (auto split: if_splits)
  next
    case False
    then obtain d where d: "\<not> ro_stopped r" "ro_read r = Some d" by auto
    show ?thesis
    proof (cases "list_events s job 0 d = []")
      case True
      note empty = this
      show ?thesis
      proof (cases "case idle of None \<Rightarrow> False | Some x \<Rightarrow> fsub (ro_clock r) t \<ge> x")
        case True
        with 2(3,5) d empty show ?thesis by simp
      next
        case False
        with 2(3) d empty have "follow_loop job idle m rounds s n t = Some (out, reason)" by simp
        with 2(1)[OF d refl empty False] 2(4,5) show ?thesis by simp
      qed
    next
      case False
      obtain w e where w: "write_rows m (ro_signals r) n (list_events s job 0 d) = (w, e)" by fastforce
      have len: "n + int (length w) \<le> k" "e = None \<longrightarrow> n + int (length w) < k \<or> w = []"
        using write_rows_prefix[OF w] 2(4,5) by auto
      show ?thesis
      proof (cases e)
        case (Some reason')
        with 2(3) d False w len show ?thesis by simp
      next
        case None
        with 2(3) d False w obtain out' where o: "follow_loop job idle m rounds (e_id (last w))
            (n + int (length w)) (ro_written_at r) = Some (out', reason)" "out = w @ out'"
          by (auto simp: Let_def)
        have "n + int (length w) < k" using len(2) None 2(5) by auto
        with 2(2)[OF d refl False w[symmetric] None o(1) 2(4)] o(2) show ?thesis by simp
      qed
    qed
  qed
qed simp


definition quiet :: "db \<Rightarrow> pyfloat \<Rightarrow> round" where
  "quiet d clock = \<lparr>ro_stopped = False, ro_read = Some d, ro_clock = clock, ro_signals = [],
     ro_written_at = clock\<rparr>"


end
