(* ===== verification/OperationsWrite.thy ===== *)
theory OperationsWrite
  imports OperationsRead
begin

text \<open>
  The changing operations of \<open>spoolctl/operations.py\<close> and the long-poll of \<open>wait\<close>: prune, cancel, retry,
  add and wait. As in the reading operations every statement has its own database, so what other
  processes commit between two statements of one operation is part of the input. The captured output
  files are a small disk: regular files with their sizes, directories, and a set of paths the system
  refuses to remove. Messages are left out; error codes, exit codes and warnings are kept.
\<close>

section \<open>Prune\<close>

record disk =
  dk_files :: "(string \<times> nat) list"  \<comment> \<open>regular files with their sizes, distinct paths\<close>
  dk_dirs :: "string list"

definition remove_file :: "(string \<Rightarrow> bool) \<Rightarrow> string \<Rightarrow> nat \<times> disk \<Rightarrow> nat \<times> disk" where
  \<comment> \<open>\<open>freed += os.stat(path).st_size; os.unlink(path)\<close>, any \<open>OSError\<close> swallowed\<close>
  "remove_file refused path = (\<lambda>(freed, k). case map_of (dk_files k) path of None \<Rightarrow> (freed, k)
     | Some n \<Rightarrow> (freed + n, if refused path then k
         else k\<lparr>dk_files := filter (\<lambda>(p, _). p \<noteq> path) (dk_files k)\<rparr>))"

definition remove_dir :: "(string \<Rightarrow> bool) \<Rightarrow> string \<Rightarrow> disk \<Rightarrow> disk" where
  \<comment> \<open>\<open>os.rmdir\<close>: only a directory without entries\<close>
  "remove_dir refused path k =
     (if refused path \<or> (\<exists>(f, _)\<in>set (dk_files k). dirname f = path)
         \<or> (\<exists>g\<in>set (dk_dirs k). g \<noteq> path \<and> dirname g = path) then k
      else k\<lparr>dk_dirs := removeAll path (dk_dirs k)\<rparr>)"

definition remove_attempt :: "(string \<Rightarrow> bool) \<Rightarrow> string \<times> string \<Rightarrow> nat \<times> disk \<Rightarrow> nat \<times> disk" where
  "remove_attempt refused = (\<lambda>(out, err) s.
     map_prod id (remove_dir refused (dirname out)) (remove_file refused err (remove_file refused out s)))"

definition remove_match :: "(string \<Rightarrow> bool) \<Rightarrow> prune_match \<Rightarrow> nat \<times> disk \<Rightarrow> nat \<times> disk" where
  "remove_match refused m s =
     (let s' = fold (remove_attempt refused) (pm_paths m) s
      in case pm_paths m of [] \<Rightarrow> s'
       | (out, _) # _ \<Rightarrow> map_prod id (remove_dir refused (dirname (dirname out))) s')"

definition stat_sizes :: "disk \<Rightarrow> prune_match \<Rightarrow> nat" where
  "stat_sizes k m = sum_list (map (\<lambda>(out, err). (case map_of (dk_files k) out of None \<Rightarrow> 0 | Some n \<Rightarrow> n)
     + (case map_of (dk_files k) err of None \<Rightarrow> 0 | Some n \<Rightarrow> n)) (pm_paths m))"

record prune_report =
  pr_deleted_attempts :: int
  pr_deleted_events :: int
  pr_deleted_jobs :: int
  pr_actual :: bool
  pr_freed_bytes :: nat
  pr_matched :: nat

definition prune_operation :: "(string \<Rightarrow> bool) \<Rightarrow> job_state list \<Rightarrow> pyfloat \<Rightarrow> bool \<Rightarrow> db \<Rightarrow> db \<Rightarrow> disk
    \<Rightarrow> prune_report \<times> disk \<times> db" where
  \<comment> \<open>\<open>prune_matches\<close> reads the first database, \<open>prune_delete\<close> writes the second\<close>
  "prune_operation refused states cutoff dry_run d1 d2 k =
     (let matches = prune_matches states cutoff d1
      in if dry_run then
        (\<lparr>pr_deleted_attempts = sum_list (map pm_n_attempts matches),
          pr_deleted_events = sum_list (map pm_n_events matches),
          pr_deleted_jobs = int (length matches), pr_actual = False,
          pr_freed_bytes = sum_list (map (stat_sizes k) matches), pr_matched = length matches\<rparr>, k, d2)
      else
        let (freed, k') = fold (remove_match refused) matches (0, k);
            ((n_jobs, n_attempts, n_events), d') =
              prune_delete (map pm_job_id matches) states cutoff d2
        in (\<lparr>pr_deleted_attempts = n_attempts, pr_deleted_events = n_events,
              pr_deleted_jobs = n_jobs, pr_actual = True, pr_freed_bytes = freed,
              pr_matched = length matches\<rparr>, k', d'))"

section \<open>Cancel, retry, add\<close>

definition fails :: "code \<Rightarrow> int \<Rightarrow> py_exn + 'a" where
  "fails c x = Inl (CliError (cli_error_with c x None))"

record cancel_data =
  cd_job_id :: int
  cd_was_running :: bool
  cd_warnings :: "code list"

definition cancel_operation :: "int \<Rightarrow> bool \<Rightarrow> pyfloat \<Rightarrow> db \<Rightarrow> (py_exn + cancel_data) \<times> db" where
  "cancel_operation job_id running now d = (case cancel_job job_id running now d of
     ((outcome, state), d') \<Rightarrow>
       ((case outcome of
           Cancel_ok \<Rightarrow> Inr \<lparr>cd_job_id = job_id, cd_was_running = False, cd_warnings = []\<rparr>
         | Cancel_ok_running \<Rightarrow>
             Inr \<lparr>cd_job_id = job_id, cd_was_running = True, cd_warnings = [KILL_ASYNC]\<rparr>
         | Cancel_not_found \<Rightarrow> not_found
         | Cancel_running_unforced \<Rightarrow> fails SAFETY_BLOCK EXIT_SAFETY
         | Cancel_raced \<Rightarrow> fails CONFLICT EXIT_CONFLICT
         | Cancel_terminal \<Rightarrow> fails CONFLICT EXIT_CONFLICT), d'))"

definition retry_operation :: "int \<Rightarrow> bool \<Rightarrow> pyfloat \<Rightarrow> db \<Rightarrow> (py_exn + int) \<times> db" where
  \<comment> \<open>the result is the job id, its state \<open>queued\<close>\<close>
  "retry_operation job_id force now d = (case retry_job job_id force now d of
     ((outcome, _), d') \<Rightarrow>
       ((case outcome of
           Retry_ok \<Rightarrow> Inr job_id
         | Retry_not_found \<Rightarrow> not_found
         | Retry_already_queued \<Rightarrow> fails CONFLICT EXIT_CONFLICT
         | Retry_done \<Rightarrow> fails CONFLICT EXIT_CONFLICT
         | Retry_running_unforced \<Rightarrow> fails SAFETY_BLOCK EXIT_SAFETY
         | Retry_raced \<Rightarrow> fails CONFLICT EXIT_CONFLICT), d'))"

record add_data =
  ad_deduplicated :: bool
  ad_key :: "string option"
  ad_cwd :: "string option"
  ad_env_keys :: "string list"
  ad_job_id :: int
  ad_next_run_at :: pyfloat
  ad_priority :: int
  ad_queue :: string
  ad_state :: job_state
  ad_metadata_differences :: "(string \<times> pval \<times> pval) list"
  ad_warnings :: "code list"

definition add_operation :: "submission \<Rightarrow> pyfloat \<Rightarrow> db \<Rightarrow> (db \<Rightarrow> db) \<Rightarrow> (py_exn + add_data) \<times> db" where
  \<comment> \<open>\<open>others\<close>: what other processes commit before the row is read back\<close>
  "add_operation s now d others = (case add_job_checked s now d of
       Inl err \<Rightarrow> (Inl err, d)
     | Inr ((job_id, state, deduplicated, idempotency), d') \<Rightarrow>
        (case idempotency of
           ExecutionDifferences columns \<Rightarrow> (fails IDEMPOTENCY_CONFLICT EXIT_CONFLICT, d')
         | _ \<Rightarrow>
           let metadata_differences = (case idempotency of MetadataDifferences diff \<Rightarrow> diff | _ \<Rightarrow> []);
               warnings = (if metadata_differences \<noteq> [] then [IDEMPOTENCY_METADATA_DIFFERS] else [])
           in ((case get_job (others d') job_id of
                  None \<Rightarrow> Inl AttributeError
                | Some j \<Rightarrow> Inr \<lparr>ad_deduplicated = deduplicated, ad_key = s_idempotency_key s,
                    ad_cwd = j_cwd j,
                    ad_env_keys = sort (map fst (j_env j)), ad_job_id = job_id,
                    ad_next_run_at = j_next_run_at j, ad_priority = j_priority j,
                    ad_queue = j_queue j, ad_state = state,
                    ad_metadata_differences = metadata_differences, ad_warnings = warnings\<rparr>),
               others d')))"

section \<open>Wait\<close>

type_synonym snapshot = "int \<Rightarrow> db"  \<comment> \<open>the database when each id's row is read\<close>

definition keys_in_order :: "int list \<Rightarrow> int list" where
  \<comment> \<open>of a dictionary built from the list\<close>
  "keys_in_order ids = rev (remdups (rev ids))"

definition read_jobs :: "int list \<Rightarrow> snapshot \<Rightarrow> (int \<times> job option) list" where
  "read_jobs ids snap = map (\<lambda>i. (i, get_job (snap i) i)) (keys_in_order ids)"

fun all_terminal :: "(int \<times> job option) list \<Rightarrow> py_exn + bool" where
  \<comment> \<open>\<open>all(j.state in _WAIT_TERMINAL ...)\<close>, which stops at the first other state\<close>
  "all_terminal [] = Inr True"
| "all_terminal ((_, None) # _) = Inl AttributeError"
| "all_terminal ((_, Some j) # rest) =
     (if j_state j \<in> set WAIT_TERMINAL then all_terminal rest else Inr False)"

record wait_data =
  wd_jobs :: "(int \<times> job) list"
  wd_all_succeeded :: bool

definition wait_summary :: "(int \<times> job option) list \<Rightarrow> wait_data" where
  "wait_summary rows = (let js = map (\<lambda>(i, j). (i, the j)) rows
     in \<lparr>wd_jobs = js, wd_all_succeeded = (\<forall>(_, j)\<in>set js. j_state j = DONE)\<rparr>)"

fun wait_loop :: "int list \<Rightarrow> pyfloat option \<Rightarrow> (snapshot \<times> pyfloat) list \<Rightarrow> (py_exn + wait_data) option" where
  \<comment> \<open>each turn: what the reads see and the clock after them; \<open>None\<close> while still waiting\<close>
  "wait_loop ids deadline [] = None"
| "wait_loop ids deadline ((snap, clock) # turns) =
     (case all_terminal (read_jobs ids snap) of
        Inl err \<Rightarrow> Some (Inl err)
      | Inr True \<Rightarrow> Some (Inr (wait_summary (read_jobs ids snap)))
      | Inr False \<Rightarrow>
          if (case deadline of None \<Rightarrow> False | Some t \<Rightarrow> clock \<ge> t)
          then Some (fails TIMEOUT EXIT_TRANSIENT)
          else wait_loop ids deadline turns)"

definition wait_operation :: "int list \<Rightarrow> pyfloat option \<Rightarrow> snapshot \<Rightarrow> pyfloat
    \<Rightarrow> (snapshot \<times> pyfloat) list \<Rightarrow> (py_exn + wait_data) option" where
  "wait_operation ids timeout snap start turns =
     (if \<exists>i\<in>set ids. get_job (snap i) i = None then Some not_found
      else wait_loop ids (map_option (fadd start) timeout) turns)"


section \<open>Removing files\<close>

lemma files_remove_file: "dk_files (snd (remove_file r p s)) =
    filter (\<lambda>(q, _). q \<noteq> p \<or> r q) (dk_files (snd s))"
proof -
  have "filter (\<lambda>(q, _). q \<noteq> p \<or> r q) xs = xs" if "map_of xs p = None \<or> r p" for xs :: "(string \<times> nat) list"
    using that by (force simp: filter_id_conv map_of_eq_None_iff)
  moreover have "filter (\<lambda>(q, _). q \<noteq> p \<or> r q) xs = filter (\<lambda>(q, _). q \<noteq> p) xs" if "\<not> r p"
    for xs :: "(string \<times> nat) list"
    using that by (intro filter_cong) auto
  ultimately show ?thesis
    by (cases s) (auto simp: remove_file_def split: option.splits)
qed

lemma files_remove_dir [simp]: "dk_files (remove_dir r p k) = dk_files k"
  by (simp add: remove_dir_def)

lemma files_remove_attempt: "dk_files (snd (remove_attempt r pq s)) =
    filter (\<lambda>(q, _). q \<notin> {fst pq, snd pq} \<or> r q) (dk_files (snd s))"
  by (cases pq) (auto simp: remove_attempt_def files_remove_file intro!: filter_cong)

lemma files_remove_attempts: "dk_files (snd (fold (remove_attempt r) pqs s)) =
    filter (\<lambda>(q, _). q \<notin> fst ` set pqs \<union> snd ` set pqs \<or> r q) (dk_files (snd s))"
  by (induction pqs arbitrary: s) (auto simp: files_remove_attempt intro!: filter_cong)

lemma remove_match_sel:
  "fst (remove_match r m s) = fst (fold (remove_attempt r) (pm_paths m) s)"
  "dk_files (snd (remove_match r m s)) = dk_files (snd (fold (remove_attempt r) (pm_paths m) s))"
  by (simp_all add: remove_match_def Let_def split: list.split prod.split)

lemma files_remove_match: "dk_files (snd (remove_match r m s)) =
    filter (\<lambda>(q, _). q \<notin> fst ` set (pm_paths m) \<union> snd ` set (pm_paths m) \<or> r q) (dk_files (snd s))"
  by (simp only: remove_match_sel files_remove_attempts)

lemma files_remove_matches: "dk_files (snd (fold (remove_match r) ms s)) =
    filter (\<lambda>(q, _). q \<notin> (\<Union>m\<in>set ms. fst ` set (pm_paths m) \<union> snd ` set (pm_paths m)) \<or> r q)
      (dk_files (snd s))"
  by (induction ms arbitrary: s) (auto simp: files_remove_match intro!: filter_cong)

definition total_size :: "disk \<Rightarrow> nat" where
  "total_size k = sum_list (map snd (dk_files k))"

text \<open>While nothing is refused, what has been counted as freed and what is left add up.\<close>

abbreviation accounted :: "nat \<Rightarrow> nat \<times> disk \<Rightarrow> bool" where
  "accounted n s \<equiv> distinct (map fst (dk_files (snd s))) \<and> fst s + total_size (snd s) = n"

lemma sum_without:
  assumes "distinct (map fst xs)" and "map_of xs p = Some n"
  shows "n + sum_list (map snd (filter (\<lambda>(q, _). q \<noteq> p) xs)) = sum_list (map snd (xs :: (string \<times> nat) list))"
  using assms
proof (induction xs)
  case (Cons x xs)
  obtain q m where x: "x = (q, m)" by force
  show ?case
  proof (cases "q = p")
    case True
    then have "filter (\<lambda>(q, _). q \<noteq> p) xs = xs"
      using Cons.prems(1) x by (force simp: filter_id_conv)
    with True Cons.prems(2) x show ?thesis by simp
  next
    case False
    with Cons x show ?thesis by simp
  qed
qed simp

lemma accounted_remove_file: "\<forall>q. \<not> r q \<Longrightarrow> accounted n s \<Longrightarrow> accounted n (remove_file r p s)"
  using sum_without[of "dk_files (snd s)" p]
  by (cases s) (auto simp: remove_file_def total_size_def distinct_map_filter split: option.splits)

lemma accounted_remove_dir: "accounted n (x, k) \<Longrightarrow> accounted n (x, remove_dir r p k)"
  by (simp add: total_size_def)

lemma accounted_remove_attempt: "\<forall>q. \<not> r q \<Longrightarrow> accounted n s \<Longrightarrow> accounted n (remove_attempt r pq s)"
  using accounted_remove_file[OF _ accounted_remove_file[where n = n and p = "fst pq"], where p = "snd pq"]
  by (cases pq) (simp add: remove_attempt_def total_size_def)

lemma accounted_remove_attempts:
  "\<forall>q. \<not> r q \<Longrightarrow> accounted n s \<Longrightarrow> accounted n (fold (remove_attempt r) pqs s)"
proof (induction pqs arbitrary: s)
  case (Cons pq pqs)
  from Cons.IH[OF Cons.prems(1) accounted_remove_attempt[OF Cons.prems]] show ?case by simp
qed simp

lemma accounted_remove_matches:
  "\<forall>q. \<not> r q \<Longrightarrow> accounted n s \<Longrightarrow> accounted n (fold (remove_match r) ms s)"
proof (induction ms arbitrary: s)
  case (Cons m ms)
  have "accounted n (remove_match r m s)"
    using accounted_remove_attempts[OF Cons.prems, of "pm_paths m"]
    by (simp only: total_size_def remove_match_sel)
  from Cons.IH[OF Cons.prems(1) this] show ?case by simp
qed simp

section \<open>What a prune does\<close>

definition matched :: "job_state list \<Rightarrow> pyfloat \<Rightarrow> db \<Rightarrow> int \<Rightarrow> bool" where
  "matched states cutoff d i \<longleftrightarrow> (\<exists>j\<in>set (jobs d). j_id j = i \<and> prunable states cutoff j)"

lemma prune_match_ids: "i \<in> set (map pm_job_id (prune_matches states cutoff d)) \<longleftrightarrow> matched states cutoff d i"
  by (auto simp: prune_matches_def Let_def matched_def)

lemma prune_match_paths:
  "q \<in> (\<Union>m\<in>set (prune_matches states cutoff d). fst ` set (pm_paths m) \<union> snd ` set (pm_paths m)) \<longleftrightarrow>
     (\<exists>a\<in>set (atts d). matched states cutoff d (a_job_id a) \<and> (q = a_stdout_path a \<or> q = a_stderr_path a))"
  (is "q \<in> ?U \<longleftrightarrow> _")
proof -
  have "?U = (\<Union>j\<in>{j \<in> set (jobs d). prunable states cutoff j}.
      a_stdout_path ` set (atts_of d (j_id j)) \<union> a_stderr_path ` set (atts_of d (j_id j)))"
    by (simp add: prune_matches_def Let_def image_image)
  then have "q \<in> ?U \<longleftrightarrow> (\<exists>j\<in>set (jobs d). prunable states cutoff j \<and>
      (\<exists>a\<in>set (atts d). a_job_id a = j_id j \<and> (q = a_stdout_path a \<or> q = a_stderr_path a)))"
    by (simp add: atts_of_def image_iff) blast
  also have "\<dots> \<longleftrightarrow> (\<exists>a\<in>set (atts d). matched states cutoff d (a_job_id a)
      \<and> (q = a_stdout_path a \<or> q = a_stderr_path a))"
    unfolding matched_def by metis
  finally show ?thesis .
qed



section \<open>Cancel and retry\<close>

lemma published_fails [simp]: "published (CliError (cli_error_with c x None)) \<longleftrightarrow>
    reg_in_errors (CODE_REGISTRY c) \<and> reg_exit (CODE_REGISTRY c) = Some x"
  by simp

lemma fails_simps [simp]: "fails c x \<noteq> Inr v"
  "fails c x = Inl e \<longleftrightarrow> e = CliError (cli_error_with c x None)"
  by (auto simp: fails_def)

lemma not_found_simps [simp]: "not_found \<noteq> Inr v" "not_found = Inl e \<longleftrightarrow> e = CliError (cli_error NOT_FOUND)"
  by (auto simp: not_found_def)

text \<open>C35. Cancel does what it reports: it succeeds exactly on a queued job, or a running one with
  consent, whose row is then canceled and unlocked while nothing else in the queue changes; every
  refusal is a published error and writes nothing.\<close>

theorem cancel_operation_exact:
  assumes "tables_ok d"
  shows "case cancel_operation k running now d of
     (Inr data, d') \<Rightarrow> (\<exists>j j'. get_job d k = Some j \<and> get_job d' k = Some j'
       \<and> (j_state j = QUEUED \<or> j_state j = RUNNING \<and> running)
       \<and> cd_was_running data = (j_state j = RUNNING) \<and> j_state j' = CANCELED
       \<and> j_finished_at j' = Some now \<and> (j_state j = RUNNING \<longrightarrow> j_locked_by j' = None) \<and> only_job k d d')
   | (Inl e, d') \<Rightarrow> published e \<and> d' = d
       \<and> (\<forall>j. get_job d k = Some j \<longrightarrow> j_state j \<noteq> QUEUED \<and> \<not> (j_state j = RUNNING \<and> running))"
proof (cases "get_job d k")
  case None
  then show ?thesis by (simp add: cancel_operation_def cancel_job_def exit_defs not_found_def)
next
  case (Some j)
  have k: "j_id j = k" "j \<in> set (jobs d)" using Some get_job_iff[OF assms] by auto
  have held: "count_where (\<lambda>j. j_id j = k \<and> j_state j = RUNNING) (jobs d) \<noteq> 0" if "j_state j = RUNNING"
    using k that by (auto simp: count_where_eq_0)
  show ?thesis
  proof (cases "j_state j")
    case QUEUED
    then show ?thesis using Some k
      by (auto simp: cancel_operation_def cancel_job_def tab_simps intro!: only_job_intros)
  next
    case RUNNING
    then show ?thesis using Some k held
      by (auto simp: cancel_operation_def cancel_job_def tab_simps unlock_row_def fails_def exit_defs
          intro!: only_job_intros)
  qed (use Some in \<open>simp_all add: cancel_operation_def cancel_job_def fails_def exit_defs\<close>)
qed

text \<open>C36. Retry does what it reports: without \<open>--force\<close> it succeeds exactly on a finished job that is not
  done, with it exactly on a running one; the row is then queued, unlocked, with a fresh retry and crash
  budget, due now, and nothing else changes; every refusal is a published error and writes nothing.\<close>

theorem retry_operation_exact:
  assumes "tables_ok d"
  shows "case retry_operation k force now d of
     (Inr i, d') \<Rightarrow> i = k \<and> (\<exists>j j'. get_job d k = Some j \<and> get_job d' k = Some j'
       \<and> j_state j \<in> (if force then {RUNNING} else {FAILED, DEAD, CANCELED})
       \<and> j_state j' = QUEUED \<and> j_attempts j' = 0 \<and> j_crashes j' = 0 \<and> j_next_run_at j' = now
       \<and> j_locked_by j' = None \<and> j_argv j' = j_argv j \<and> only_job k d d')
   | (Inl e, d') \<Rightarrow> published e \<and> d' = d
       \<and> (\<forall>j. get_job d k = Some j \<longrightarrow> j_state j \<notin> (if force then {RUNNING} else {FAILED, DEAD, CANCELED}))"
proof (cases "get_job d k")
  case None
  then show ?thesis by (simp add: retry_operation_def retry_job_def exit_defs not_found_def)
next
  case (Some j)
  have k: "j_id j = k" using Some get_job_iff[OF assms] by auto
  show ?thesis
  proof (cases "j_state j \<in> (if force then {RUNNING} else {FAILED, DEAD, CANCELED})")
    case True
    have "only_job k d (requeue k force now (if force then update_attempts (running_attempt_of k)
        (abandon now ''force-retried'' REASON_CANCELED ATT_ABANDONED) d else d))"
      unfolding requeue_def by (auto intro!: only_job_intros)
    with True Some k show ?thesis
      by (auto simp: retry_operation_def retry_job_def requeue_def requeue_row_def unlock_row_def tab_simps
          split: if_splits)
  next
    case False
    then show ?thesis using Some
      by (cases "j_state j")
        (auto simp: retry_operation_def retry_job_def fails_def exit_defs split: if_splits)
  qed
qed

theorem cancel_operation_exact_witness:
  "case cancel_operation 2 True 140 db_running of
     (Inr data, d') \<Rightarrow> cd_was_running data \<and> cd_warnings data = [KILL_ASYNC] \<and> only_job 2 db_running d'
   | (Inl e, d') \<Rightarrow> False"
proof -
  have "case cancel_operation 2 True 140 db_running of
      (Inr data, d') \<Rightarrow> cd_was_running data \<and> cd_warnings data = [KILL_ASYNC] | (Inl e, d') \<Rightarrow> False"
    by code_simp
  with cancel_operation_exact[OF reachable_tables, of db_running 2 True 140] show ?thesis
    by (auto split: prod.splits sum.splits)
qed

theorem retry_operation_exact_witness:
  "case retry_operation 2 False 140 db_dead of
     (Inr i, d') \<Rightarrow> i = 2 \<and> only_job 2 db_dead d' | (Inl e, d') \<Rightarrow> False"
proof -
  have "case retry_operation 2 False 140 db_dead of (Inr i, d') \<Rightarrow> True | (Inl e, d') \<Rightarrow> False"
    by code_simp
  with retry_operation_exact[OF reachable_tables, of db_dead 2 False 140] show ?thesis
    by (auto split: prod.splits sum.splits)
qed

section \<open>Waiting\<close>

definition settled :: "int list \<Rightarrow> snapshot \<Rightarrow> bool" where
  "settled ids snap \<longleftrightarrow>
     (\<forall>i\<in>set ids. case get_job (snap i) i of None \<Rightarrow> False | Some j \<Rightarrow> j_state j \<in> set WAIT_TERMINAL)"

lemma set_keys_in_order [simp]: "set (keys_in_order ids) = set ids"
  by (simp add: keys_in_order_def)

lemma all_terminal_exact: "case all_terminal rows of
    Inr True \<Rightarrow> \<forall>r\<in>set rows. \<exists>j. snd r = Some j \<and> j_state j \<in> set WAIT_TERMINAL
  | Inr False \<Rightarrow> \<exists>r\<in>set rows. \<exists>j. snd r = Some j \<and> j_state j \<notin> set WAIT_TERMINAL
  | Inl e \<Rightarrow> e = AttributeError \<and> (\<exists>r\<in>set rows. snd r = None)"
  by (induction rows rule: all_terminal.induct) (fastforce split: sum.splits bool.splits)+

lemma read_jobs_terminal: "case all_terminal (read_jobs ids snap) of
    Inr True \<Rightarrow> settled ids snap
  | Inr False \<Rightarrow> \<exists>i\<in>set ids. \<exists>j. get_job (snap i) i = Some j \<and> j_state j \<notin> set WAIT_TERMINAL
  | Inl e \<Rightarrow> e = AttributeError \<and> (\<exists>i\<in>set ids. get_job (snap i) i = None)"
  using all_terminal_exact[of "read_jobs ids snap"]
  by (fastforce simp: read_jobs_def settled_def split: sum.splits bool.splits option.splits)

lemma wait_loop_returns:
  assumes "(s, c) \<in> set turns" and "t \<le> c"
  shows "wait_loop ids (Some t) turns \<noteq> None"
  using assms
  by (induction ids "Some t" turns rule: wait_loop.induct) (auto split: sum.split bool.split)

lemma wait_loop_settled:
  assumes "(s, c) \<in> set turns" and "settled ids s"
  shows "wait_loop ids deadline turns \<noteq> None"
  using assms(1)
proof (induction turns)
  case (Cons turn turns)
  obtain snap clock where turn: "turn = (snap, clock)" by force
  show ?case
  proof (cases "all_terminal (read_jobs ids snap) = Inr False")
    case True
    then have "snap \<noteq> s"
      using read_jobs_terminal[of ids snap] assms(2) by (auto simp: settled_def split: option.splits)
    with True Cons turn show ?thesis by auto
  qed (auto simp: turn split: sum.split bool.split)
qed simp

text \<open>A wait with a timeout comes back: as soon as one of its turns reads a clock at or past the
  deadline it has returned, whatever the jobs do; and without one, as soon as all jobs are settled.\<close>

theorem wait_returns:
  assumes "(s, c) \<in> set turns" and "settled ids s \<or> timeout \<noteq> None \<and> fadd start (the timeout) \<le> c"
  shows "\<exists>r. wait_operation ids timeout snap start turns = Some r"
proof -
  have "wait_loop ids (map_option (fadd start) timeout) turns \<noteq> None"
    using assms(2) wait_loop_settled[OF assms(1)] wait_loop_returns[OF assms(1), of "fadd start (the timeout)" ids] by (cases timeout) auto
  then show ?thesis by (auto simp: wait_operation_def)
qed

theorem wait_returns_witness:
  "\<exists>r. wait_operation [2] (Some 5) (\<lambda>_. db_running) 100
     [(\<lambda>_. db_running, 102), (\<lambda>_. db_running, 105)] = Some r"
proof (rule wait_returns[where s = "\<lambda>_. db_running" and c = 105])
  show "settled [2] (\<lambda>_. db_running) \<or>
      Some 5 \<noteq> None \<and> fadd 100 (the (Some 5)) \<le> (105 :: pyfloat)" by code_simp
qed simp

lemma wait_loop_result:
  assumes "wait_loop ids deadline turns = Some r"
  shows "case r of
     Inr data \<Rightarrow> \<exists>(s, c)\<in>set turns. settled ids s \<and> data = wait_summary (read_jobs ids s)
   | Inl e \<Rightarrow> e = AttributeError \<and> (\<exists>(s, c)\<in>set turns. \<exists>i\<in>set ids. get_job (s i) i = None)
       \<or> e = CliError (cli_error_with TIMEOUT EXIT_TRANSIENT None) \<and> (\<exists>(s, c)\<in>set turns.
           \<not> settled ids s \<and> (\<exists>t. deadline = Some t \<and> t \<le> c))"
  using assms
proof (induction turns)
  case (Cons turn turns)
  obtain snap clock where turn: "turn = (snap, clock)" by force
  note rt = read_jobs_terminal[of ids snap]
  consider (err) e where "all_terminal (read_jobs ids snap) = Inl e"
    | (yes) "all_terminal (read_jobs ids snap) = Inr True"
    | (no) "all_terminal (read_jobs ids snap) = Inr False" by (metis sum.exhaust)
  then show ?case
  proof cases
    case err
    with rt Cons.prems show ?thesis by (auto simp: turn)
  next
    case yes
    with rt Cons.prems show ?thesis by (auto simp: turn)
  next
    case no
    show ?thesis
    proof (cases "case deadline of None \<Rightarrow> False | Some t \<Rightarrow> clock \<ge> t")
      case True
      have "\<not> settled ids snap" using no rt by (force simp: settled_def split: option.splits)
      with True no Cons.prems show ?thesis by (auto simp: turn fails_def split: option.splits)
    next
      case False
      with no Cons show ?thesis by (fastforce simp: turn split: sum.splits)
    qed
  qed
qed simp

text \<open>C23. What a wait answers is right: its result describes one reading in which every awaited job is
  there and settled, and reports success exactly when all of them are done; it times out only with the
  clock past the deadline and a job unsettled; an id unknown at the start is the published error. The
  only other outcome is the exception raised when an awaited job's row is deleted while waiting.\<close>

theorem wait_answer_exact:
  assumes "wait_operation ids timeout snap start turns = Some r"
  shows "case r of
     Inr data \<Rightarrow> \<exists>(s, c)\<in>set turns. settled ids s \<and> map fst (wd_jobs data) = keys_in_order ids
       \<and> (\<forall>(i, j)\<in>set (wd_jobs data). get_job (s i) i = Some j)
       \<and> (wd_all_succeeded data \<longleftrightarrow> (\<forall>i\<in>set ids. state_of i (s i) = Some DONE))
   | Inl e \<Rightarrow> e = CliError (cli_error NOT_FOUND) \<and> (\<exists>i\<in>set ids. get_job (snap i) i = None)
       \<or> e = CliError (cli_error_with TIMEOUT EXIT_TRANSIENT None) \<and> (\<exists>(s, c)\<in>set turns.
           \<not> settled ids s \<and> (\<exists>t. timeout = Some t \<and> fadd start t \<le> c))
       \<or> e = AttributeError \<and> (\<exists>(s, c)\<in>set turns. \<exists>i\<in>set ids. get_job (s i) i = None)"
proof (cases "\<exists>i\<in>set ids. get_job (snap i) i = None")
  case True
  then have "r = not_found" using assms by (simp add: wait_operation_def)
  with True show ?thesis by (simp add: not_found_def)
next
  case False
  then have l: "wait_loop ids (map_option (fadd start) timeout) turns = Some r"
    using assms unfolding wait_operation_def by (simp only: if_False)
  have sum: "map fst (wd_jobs (wait_summary (read_jobs ids s))) = keys_in_order ids
      \<and> (\<forall>(i, j)\<in>set (wd_jobs (wait_summary (read_jobs ids s))). get_job (s i) i = Some j)
      \<and> (wd_all_succeeded (wait_summary (read_jobs ids s)) \<longleftrightarrow> (\<forall>i\<in>set ids. state_of i (s i) = Some DONE))"
    if "settled ids s" for s
    using that unfolding settled_def
    by (force simp: wait_summary_def read_jobs_def Let_def state_of_def comp_def split: option.splits)
  show ?thesis
  proof (cases r)
    case (Inl e)
    with wait_loop_result[OF l] show ?thesis by auto
  next
    case (Inr data)
    with wait_loop_result[OF l] obtain s c where "(s, c) \<in> set turns" "settled ids s"
      "data = wait_summary (read_jobs ids s)" by auto
    with sum[of s] Inr show ?thesis by (simp only: sum.case) (rule bexI[of _ "(s, c)"], simp_all)
  qed
qed

theorem wait_answer_exact_witness:
  "case wait_operation [2, 2] None (\<lambda>_. db_running) 100 [(\<lambda>_. db_failed, 102), (\<lambda>_. db_dead, 120)] of
     Some (Inr data) \<Rightarrow> map fst (wd_jobs data) = [2] \<and> \<not> wd_all_succeeded data | _ \<Rightarrow> False"
proof -
  let ?w = "wait_operation [2, 2] None (\<lambda>_. db_running) 100 [(\<lambda>_. db_failed, 102), (\<lambda>_. db_dead, 120)]"
  have "case ?w of Some (Inr data) \<Rightarrow> \<not> wd_all_succeeded data | _ \<Rightarrow> False" by code_simp
  then obtain data where w: "?w = Some (Inr data)" "\<not> wd_all_succeeded data"
    by (auto split: option.splits sum.splits)
  have "keys_in_order [2, 2] = [2]" by code_simp
  with wait_answer_exact[OF w(1)] w show ?thesis by auto
qed

end
