(* ===== verification/Migrate.thy ===== *)
theory Migrate
  imports Models
begin

text \<open>
  Opening the queue database (\<open>store.py\<close>: \<open>connect\<close>, \<open>_ensure_schema\<close>, the migrations from schema
  version 1 to 6 and \<open>_rebuild_table\<close>). The physical layer is modelled as SQLite shows it: a table is
  a list of columns, rows of named values and an AUTOINCREMENT sequence; indexes belong to a table. A
  migration is one \<open>BEGIN IMMEDIATE\<close> transaction that either commits or leaves the file as it was, and
  other processes may migrate between two transactions. Of the table constraints the model keeps the
  \<open>CHECK\<close> on the state column and the declared columns; the pragmas other than the foreign keys check
  are left out.
\<close>

section \<open>The physical file\<close>

datatype sqlval = NULL | INTEGER int | REAL pyfloat | TEXT string

type_synonym sqlrow = "(string \<times> sqlval) list"

record table_body =
  b_columns :: "(string \<times> sqlval option) list"  \<comment> \<open>with the default, \<open>None\<close> for a required value\<close>
  b_states :: "string list"      \<comment> \<open>allowed by the \<open>CHECK\<close> on \<open>state\<close>\<close>

record sqltable =
  t_columns :: "string list"
  t_states :: "string list"
  t_rows :: "sqlrow list"
  t_seq :: "int option"          \<comment> \<open>its row of \<open>sqlite_sequence\<close>\<close>

record dbfile =
  f_version :: "string option option"  \<comment> \<open>no \<open>meta\<close> table; no version in it; its text\<close>
  f_jobs :: "sqltable option"
  f_attempts :: "sqltable option"
  f_events :: "sqltable option"
  f_indexes :: "(string \<times> string) list"  \<comment> \<open>index and the table it is on\<close>

definition col :: "string \<Rightarrow> sqlrow \<Rightarrow> sqlval" where
  "col c row = (case map_of row c of None \<Rightarrow> NULL | Some v \<Rightarrow> v)"

definition set_col :: "string \<Rightarrow> sqlval \<Rightarrow> sqlrow \<Rightarrow> sqlrow" where
  "set_col c v row = map (\<lambda>(k, x). if k = c then (k, v) else (k, x)) row"

definition py_int :: "string \<Rightarrow> int option" where
  \<comment> \<open>\<open>int(text)\<close>: blanks around, a sign, digits grouped by single underscores\<close>
  "py_int s = (let t = strip s; groups = split_on (CHR ''_'') (unsign t)
     in if list_all (\<lambda>g. g \<noteq> [] \<and> all_digits g) groups
           \<and> length (concat groups) \<le> INT_MAX_STR_DIGITS
        then Some (sign_of t * int (digits_val (concat groups))) else None)"

definition read_version :: "dbfile \<Rightarrow> py_exn + int" where
  \<comment> \<open>\<open>int(conn.execute(...).fetchone()["value"])\<close>\<close>
  "read_version f = (case f_version f of
       Some (Some text) \<Rightarrow> (case py_int text of None \<Rightarrow> Inl ValueError | Some n \<Rightarrow> Inr n)
     | Some None \<Rightarrow> Inl TypeError
     | None \<Rightarrow> Inl (OperationalError ''no such table: meta''))"

section \<open>Table bodies\<close>

definition JOB_STATES_CHECK :: "string list" where
  "JOB_STATES_CHECK = [''queued'', ''running'', ''done'', ''failed'', ''dead'', ''canceled'']"

definition ATTEMPT_STATES_CHECK :: "string list" where
  "ATTEMPT_STATES_CHECK =
     [''running'', ''succeeded'', ''failed'', ''timed_out'', ''abandoned'', ''canceled'']"

abbreviation req :: "string \<Rightarrow> string \<times> sqlval option" where
  "req c \<equiv> (c, None)"

abbreviation dflt :: "string \<Rightarrow> sqlval \<Rightarrow> string \<times> sqlval option" where
  "dflt c v \<equiv> (c, Some v)"

abbreviation opt :: "string \<Rightarrow> string \<times> sqlval option" where
  "opt c \<equiv> (c, Some NULL)"

definition JOBS_BODY :: table_body where
  "JOBS_BODY = \<lparr>b_columns = [req ''id'', req ''argv_json'', req ''state'',
     dflt ''attempts'' (INTEGER 0), dflt ''max_retries'' (INTEGER 3),
     dflt ''timeout_seconds'' (INTEGER 300), req ''created_at'', req ''next_run_at'',
     dflt ''priority'' (INTEGER 0), dflt ''queue'' (TEXT ''default''), opt ''locked_by'',
     opt ''locked_pid'', opt ''locked_at'', opt ''heartbeat_at'', opt ''started_at'',
     opt ''finished_at'', opt ''last_exit_code'', opt ''last_error'', opt ''idempotency_key'',
     dflt ''tags_json'' (TEXT ''{}''), opt ''note'', opt ''cwd'',
     dflt ''env_json'' (TEXT ''{}''), dflt ''crashes'' (INTEGER 0), opt ''max_crashes''],
     b_states = JOB_STATES_CHECK\<rparr>"

definition JOBS_BODY_V2 :: table_body where
  "JOBS_BODY_V2 = \<lparr>b_columns = [req ''id'', req ''argv_json'', req ''state'',
     dflt ''attempts'' (INTEGER 0), dflt ''max_retries'' (INTEGER 3),
     dflt ''timeout_seconds'' (INTEGER 300), req ''created_at'', req ''next_run_at'',
     opt ''locked_by'', opt ''locked_pid'', opt ''locked_at'', opt ''heartbeat_at'',
     opt ''started_at'', opt ''finished_at'', opt ''last_exit_code'', opt ''last_error''],
     b_states = JOB_STATES_CHECK\<rparr>"

definition ATTEMPTS_BODY_V2 :: table_body where
  "ATTEMPTS_BODY_V2 = \<lparr>b_columns = [req ''id'', req ''job_id'', req ''attempt_no'',
     req ''worker_id'', req ''worker_pid'', req ''state'', req ''started_at'',
     opt ''finished_at'', opt ''exit_code'', req ''stdout_path'', req ''stderr_path'',
     opt ''error''],
     b_states = ATTEMPT_STATES_CHECK\<rparr>"

definition ATTEMPTS_BODY :: table_body where
  "ATTEMPTS_BODY = \<lparr>b_columns = [req ''id'', req ''job_id'', req ''attempt_no'',
     req ''worker_id'', req ''worker_pid'', req ''state'', req ''started_at'',
     opt ''finished_at'', opt ''exit_code'', req ''stdout_path'', req ''stderr_path'',
     opt ''error'', opt ''failure_reason''],
     b_states = ATTEMPT_STATES_CHECK\<rparr>"

definition EVENTS_BODY :: table_body where
  "EVENTS_BODY = \<lparr>b_columns = [req ''id'', req ''job_id'', req ''at'', req ''event'',
     opt ''worker_id'', opt ''detail''],
     b_states = []\<rparr>"

definition create_table :: "table_body \<Rightarrow> sqltable" where
  "create_table b = \<lparr>t_columns = map fst (b_columns b), t_states = b_states b, t_rows = [], t_seq = None\<rparr>"

section \<open>Statements\<close>

definition create_index :: "string \<Rightarrow> string \<Rightarrow> dbfile \<Rightarrow> py_exn + dbfile" where
  "create_index name on f = (if name \<in> fst ` set (f_indexes f)
     then Inl (OperationalError (''index '' @ name @ '' already exists''))
     else Inr (f\<lparr>f_indexes := f_indexes f @ [(name, on)]\<rparr>))"

definition drop_index :: "string \<Rightarrow> dbfile \<Rightarrow> py_exn + dbfile" where
  "drop_index name f = (if name \<notin> fst ` set (f_indexes f)
     then Inl (OperationalError (''no such index: '' @ name))
     else Inr (f\<lparr>f_indexes := filter (\<lambda>(n, _). n \<noteq> name) (f_indexes f)\<rparr>))"

definition add_column :: "string \<Rightarrow> sqlval \<Rightarrow> sqltable \<Rightarrow> py_exn + sqltable" where
  \<comment> \<open>\<open>ALTER TABLE ... ADD COLUMN c ... DEFAULT v\<close>\<close>
  "add_column c v t = (if c \<in> set (t_columns t)
     then Inl (OperationalError (''duplicate column name: '' @ c))
     else Inr (t\<lparr>t_columns := t_columns t @ [c], t_rows := map (\<lambda>r. r @ [(c, v)]) (t_rows t)\<rparr>))"

definition the_table :: "sqltable option \<Rightarrow> py_exn + sqltable" where
  "the_table t = (case t of None \<Rightarrow> Inl (OperationalError ''no such table'') | Some t \<Rightarrow> Inr t)"

definition max_id :: "sqlrow list \<Rightarrow> int" where
  "max_id rows = fold (\<lambda>r m. case col ''id'' r of INTEGER i \<Rightarrow> max i m | _ \<Rightarrow> m) rows 0"

definition copied_row :: "table_body \<Rightarrow> sqltable \<Rightarrow> sqlrow \<Rightarrow> sqlrow" where
  "copied_row body t r = map (\<lambda>(c, d). (c, if c \<in> set (t_columns t) then col c r
     else case d of None \<Rightarrow> NULL | Some v \<Rightarrow> v)) (b_columns body)"

definition state_ok :: "string list \<Rightarrow> sqlrow \<Rightarrow> bool" where
  "state_ok states r = (case col ''state'' r of TEXT s \<Rightarrow> s \<in> set states | _ \<Rightarrow> False)"

definition bad_row :: "table_body \<Rightarrow> sqltable \<Rightarrow> sqlrow \<Rightarrow> bool" where
  \<comment> \<open>a required column is not among those copied, or the state fails the \<open>CHECK\<close>\<close>
  "bad_row body t r \<longleftrightarrow> (\<exists>(c, d)\<in>set (b_columns body). c \<notin> set (t_columns t) \<and> d = None) \<or>
     \<not> state_ok (b_states body) r"

definition rebuild_table :: "table_body \<Rightarrow> sqltable \<Rightarrow> py_exn + sqltable" where
  \<comment> \<open>create new, copy the old columns, drop, rename; then \<open>seq = max(seq, old)\<close>, inserted when the copy
     left no sequence row\<close>
  "rebuild_table body t =
     (if \<not> set (t_columns t) \<subseteq> fst ` set (b_columns body)
      then Inl (OperationalError ''table has no such column'')
      else if \<exists>r\<in>set (t_rows t). bad_row body t r then Inl IntegrityError
      else let copied = map (copied_row body t) (t_rows t);
               copied_seq = (if copied = [] then None else Some (max_id copied))
           in Inr \<lparr>t_columns = map fst (b_columns body), t_states = b_states body, t_rows = copied,
                t_seq = (case (t_seq t, copied_seq) of
                    (None, s) \<Rightarrow> s | (Some m, None) \<Rightarrow> Some m | (Some m, Some n) \<Rightarrow> Some (max n m))\<rparr>)"

definition dangling :: "sqltable option \<Rightarrow> sqltable option \<Rightarrow> bool" where
  \<comment> \<open>rows of the first table whose \<open>job_id\<close> names no row of the second\<close>
  "dangling t js = (case t of None \<Rightarrow> False | Some t \<Rightarrow>
     \<exists>r\<in>set (t_rows t). col ''job_id'' r \<noteq> NULL \<and>
       (case js of None \<Rightarrow> True | Some j \<Rightarrow> \<forall>q\<in>set (t_rows j). col ''id'' q \<noteq> col ''job_id'' r))"

section \<open>The migrations\<close>

definition migrate_v1_to_v2 :: "dbfile \<Rightarrow> py_exn + dbfile" where
  "migrate_v1_to_v2 f = and_then (read_version f) (\<lambda>found.
     if found \<ge> 2 then Inr f
     else and_then (the_table (f_jobs f)) (\<lambda>js. and_then (rebuild_table JOBS_BODY_V2 js) (\<lambda>js'.
       and_then (the_table (f_attempts f)) (\<lambda>as. and_then (rebuild_table ATTEMPTS_BODY_V2 as) (\<lambda>as'.
       and_then (create_index ''idx_jobs_claimable'' ''jobs'' (f\<lparr>f_jobs := Some js',
           f_attempts := Some as', f_indexes := filter (\<lambda>(_, on). on \<notin> {''jobs'', ''attempts''})
             (f_indexes f)\<rparr>)) (\<lambda>f1.
       and_then (create_index ''idx_jobs_finished'' ''jobs'' f1) (\<lambda>f2.
       Inr (f2\<lparr>f_version := Some (Some ''2'')\<rparr>))))))))"

definition after_v1 :: "dbfile \<Rightarrow> py_exn + unit" where
  \<comment> \<open>\<open>foreign_key_check\<close> after the commit, when this connection did the rebuild\<close>
  "after_v1 f = (if dangling (f_attempts f) (f_jobs f) \<or> dangling (f_events f) (f_jobs f)
     then Inl IntegrityError else Inr ())"

definition migrate_v2_to_v3 :: "dbfile \<Rightarrow> py_exn + dbfile" where
  "migrate_v2_to_v3 f = and_then (read_version f) (\<lambda>found.
     if found \<ge> 3 then Inr f
     else and_then (the_table (f_jobs f)) (\<lambda>j0.
       and_then (add_column ''idempotency_key'' NULL j0) (\<lambda>j1.
       and_then (add_column ''tags_json'' (TEXT ''{}'') j1) (\<lambda>j2.
       and_then (add_column ''note'' NULL j2) (\<lambda>j3.
       and_then (create_index ''idx_jobs_key'' ''jobs'' (f\<lparr>f_jobs := Some j3\<rparr>)) (\<lambda>f1.
       Inr (f1\<lparr>f_version := Some (Some ''3'')\<rparr>)))))))"

definition migrate_v3_to_v4 :: "dbfile \<Rightarrow> py_exn + dbfile" where
  "migrate_v3_to_v4 f = and_then (read_version f) (\<lambda>found.
     if found \<ge> 4 then Inr f
     else and_then (the_table (f_jobs f)) (\<lambda>j0.
       and_then (add_column ''priority'' (INTEGER 0) j0) (\<lambda>j1.
       and_then (add_column ''queue'' (TEXT ''default'') j1) (\<lambda>j2.
       and_then (drop_index ''idx_jobs_claimable'' (f\<lparr>f_jobs := Some j2\<rparr>)) (\<lambda>f1.
       and_then (create_index ''idx_jobs_claimable'' ''jobs'' f1) (\<lambda>f2.
       Inr (f2\<lparr>f_version := Some (Some ''4'')\<rparr>)))))))"

definition worker_died :: "sqlrow list \<Rightarrow> sqlrow \<Rightarrow> int" where
  "worker_died attempts job = count_where (\<lambda>a. col ''job_id'' a = col ''id'' job \<and>
     col ''state'' a = TEXT ''abandoned'' \<and> col ''error'' a = TEXT ''worker died'') attempts"

definition migrate_v4_to_v5 :: "dbfile \<Rightarrow> py_exn + dbfile" where
  "migrate_v4_to_v5 f = and_then (read_version f) (\<lambda>found.
     if found \<ge> 5 then Inr f
     else and_then (the_table (f_jobs f)) (\<lambda>j0.
       and_then (add_column ''cwd'' NULL j0) (\<lambda>j1.
       and_then (add_column ''env_json'' (TEXT ''{}'') j1) (\<lambda>j2.
       and_then (add_column ''crashes'' (INTEGER 0) j2) (\<lambda>j3.
       and_then (add_column ''max_crashes'' NULL j3) (\<lambda>j4.
       and_then (the_table (f_attempts f)) (\<lambda>as.
       Inr (f\<lparr>f_jobs := Some (j4\<lparr>t_rows := map (\<lambda>r. set_col ''crashes''
             (INTEGER (worker_died (t_rows as) r)) r) (t_rows j4)\<rparr>),
           f_version := Some (Some ''5'')\<rparr>))))))))"

definition backfilled_reason :: "sqlrow \<Rightarrow> sqlval" where
  "backfilled_reason a = (let state = col ''state'' a; err = col ''error'' a
     in if state = TEXT ''timed_out'' then TEXT ''timeout''
        else if state = TEXT ''abandoned'' \<and> err = TEXT ''worker died'' then TEXT ''worker_crash''
        else if state = TEXT ''abandoned'' \<and> err = TEXT ''force-retried'' then TEXT ''canceled''
        else if state = TEXT ''canceled'' then TEXT ''canceled''
        else if state = TEXT ''failed'' then TEXT ''unknown''
        else NULL)"

definition migrate_v5_to_v6 :: "dbfile \<Rightarrow> py_exn + dbfile" where
  "migrate_v5_to_v6 f = and_then (read_version f) (\<lambda>found.
     if found \<ge> 6 then Inr f
     else and_then (the_table (f_attempts f)) (\<lambda>a0.
       and_then (add_column ''failure_reason'' NULL a0) (\<lambda>a1.
       Inr (f\<lparr>f_attempts := Some (a1\<lparr>t_rows := map (\<lambda>r. set_col ''failure_reason''
             (backfilled_reason r) r) (t_rows a1)\<rparr>),
           f_version := Some (Some ''6'')\<rparr>))))"

section \<open>\<open>_ensure_schema\<close>\<close>

definition create_missing :: "table_body \<Rightarrow> sqltable option \<Rightarrow> sqltable option" where
  \<comment> \<open>\<open>CREATE TABLE IF NOT EXISTS\<close>\<close>
  "create_missing b t = (case t of None \<Rightarrow> Some (create_table b) | Some t \<Rightarrow> Some t)"

definition index_missing :: "string \<Rightarrow> (string \<times> string) list \<Rightarrow> (string \<times> string) list" where
  "index_missing name ixs = (if name \<in> fst ` set ixs then ixs else ixs @ [(name, ''jobs'')])"

definition create_schema :: "dbfile \<Rightarrow> dbfile" where
  \<comment> \<open>\<open>executescript(SCHEMA_SQL)\<close> and the version row\<close>
  "create_schema f = f\<lparr>f_jobs := create_missing JOBS_BODY (f_jobs f),
     f_indexes := index_missing ''idx_jobs_key'' (index_missing ''idx_jobs_finished''
       (index_missing ''idx_jobs_claimable'' (f_indexes f))),
     f_attempts := create_missing ATTEMPTS_BODY (f_attempts f),
     f_events := create_missing EVENTS_BODY (f_events f),
     f_version := Some (Some (str_of_int SCHEMA_VERSION))\<rparr>"

definition migration :: "int \<Rightarrow> dbfile \<Rightarrow> py_exn + dbfile" where
  "migration found f =
     (if found = 1 then migrate_v1_to_v2 f else if found = 2 then migrate_v2_to_v3 f
      else if found = 3 then migrate_v3_to_v4 f else if found = 4 then migrate_v4_to_v5 f
      else if found = 5 then migrate_v5_to_v6 f else Inl DatabaseError)"

fun schema_loop :: "(dbfile \<Rightarrow> dbfile) list \<Rightarrow> dbfile \<Rightarrow> ((py_exn + unit) \<times> dbfile) option" where
  \<comment> \<open>one element per round: what others commit between reading the version and the transaction; \<open>None\<close>
     when the loop has not ended within the rounds given\<close>
  "schema_loop [] f = (case read_version f of Inl e \<Rightarrow> Some (Inl e, f)
     | Inr found \<Rightarrow> if found > SCHEMA_VERSION then Some (Inl (SchemaTooNewError found), f)
         else if found = SCHEMA_VERSION then Some (Inr (), f) else None)"
| "schema_loop (others # rounds) f = (case read_version f of Inl e \<Rightarrow> Some (Inl e, f)
     | Inr found \<Rightarrow> if found > SCHEMA_VERSION then Some (Inl (SchemaTooNewError found), f)
         else if found = SCHEMA_VERSION then Some (Inr (), f)
         else let f1 = others f
           in case migration found f1 of
                Inl e \<Rightarrow> Some (Inl e, f1)
              | Inr f2 \<Rightarrow>
                  if found = 1 \<and> (case read_version f1 of Inr n \<Rightarrow> n < 2 | Inl e \<Rightarrow> False)
                  then (case after_v1 f2 of Inl e \<Rightarrow> Some (Inl e, f2) | Inr u \<Rightarrow> schema_loop rounds f2)
                  else schema_loop rounds f2)"

definition ensure_schema :: "(dbfile \<Rightarrow> dbfile) list \<Rightarrow> dbfile \<Rightarrow> ((py_exn + unit) \<times> dbfile) option" where
  "ensure_schema rounds f = (case f_version f of
       Some (Some v) \<Rightarrow> schema_loop rounds f
     | _ \<Rightarrow> Some (Inr (), create_schema f))"


section \<open>Well-formed files\<close>

definition jobs_columns :: "int \<Rightarrow> string list" where
  "jobs_columns v = map fst (b_columns JOBS_BODY_V2)
     @ (if v < 3 then [] else [''idempotency_key'', ''tags_json'', ''note''])
     @ (if v < 4 then [] else [''priority'', ''queue''])
     @ (if v < 5 then [] else [''cwd'', ''env_json'', ''crashes'', ''max_crashes''])"

definition attempts_columns :: "int \<Rightarrow> string list" where
  "attempts_columns v = map fst (b_columns ATTEMPTS_BODY_V2) @ (if v < 6 then [] else [''failure_reason''])"

definition table_ok :: "string list \<Rightarrow> string list \<Rightarrow> sqltable option \<Rightarrow> bool" where
  \<comment> \<open>the columns in any order, a value for each in every row, and the \<open>CHECK\<close> on the state\<close>
  "table_ok cols states t \<longleftrightarrow> (case t of None \<Rightarrow> False | Some u \<Rightarrow>
     set (t_columns u) = set cols \<and> (\<forall>r\<in>set (t_rows u). map fst r = t_columns u \<and>
       state_ok states r))"

definition indexes_ok :: "int \<Rightarrow> (string \<times> string) list \<Rightarrow> bool" where
  "indexes_ok v ixs \<longleftrightarrow> (v < 3 \<longrightarrow> ''idx_jobs_key'' \<notin> fst ` set ixs) \<and>
     (1 < v \<longrightarrow> ''idx_jobs_claimable'' \<in> fst ` set ixs) \<and>
     (\<forall>(n, on)\<in>set ixs. n \<in> {''idx_jobs_claimable'', ''idx_jobs_finished''} \<longrightarrow> on = ''jobs'')"

definition schema_ok :: "int \<Rightarrow> dbfile \<Rightarrow> bool" where
  "schema_ok v f \<longleftrightarrow> f_version f = Some (Some (str_of_int v)) \<and>
     table_ok (jobs_columns v) JOB_STATES_CHECK (f_jobs f) \<and>
     table_ok (attempts_columns v) ATTEMPT_STATES_CHECK (f_attempts f) \<and>
     \<not> dangling (f_attempts f) (f_jobs f) \<and> \<not> dangling (f_events f) (f_jobs f) \<and>
     indexes_ok v (f_indexes f)"

definition rows_of :: "sqltable option \<Rightarrow> sqlrow list" where
  "rows_of t = (case t of None \<Rightarrow> [] | Some u \<Rightarrow> t_rows u)"

definition seq_of :: "sqltable option \<Rightarrow> int" where
  "seq_of t = (case t of None \<Rightarrow> 0 | Some u \<Rightarrow> (case t_seq u of None \<Rightarrow> 0 | Some s \<Rightarrow> s))"

section \<open>Each migration on a well-formed file\<close>

lemma version_texts [simp]:
  "str_of_int 1 = ''1''" "str_of_int 2 = ''2''" "str_of_int 3 = ''3''" "str_of_int 4 = ''4''"
  "str_of_int 5 = ''5''" "str_of_int 6 = ''6''"
  by code_simp+

lemma py_int_versions [simp]:
  "py_int ''1'' = Some 1" "py_int ''2'' = Some 2" "py_int ''3'' = Some 3" "py_int ''4'' = Some 4"
  "py_int ''5'' = Some 5" "py_int ''6'' = Some 6"
  by code_simp+

lemma version_cases: "1 \<le> v \<Longrightarrow> v \<le> 6 \<Longrightarrow> v = 1 \<or> v = 2 \<or> v = 3 \<or> v = 4 \<or> v = 5 \<or> v = (6::int)"
  by arith

lemma read_version_ok: "schema_ok v f \<Longrightarrow> 1 \<le> v \<Longrightarrow> v \<le> 6 \<Longrightarrow> read_version f = Inr v"
  using version_cases[of v] by (auto simp: schema_ok_def read_version_def)

lemma add_column_new: "c \<notin> set (t_columns t) \<Longrightarrow> add_column c v t =
    Inr (t\<lparr>t_columns := t_columns t @ [c], t_rows := map (\<lambda>r. r @ [(c, v)]) (t_rows t)\<rparr>)"
  by (simp add: add_column_def)

lemma col_append: "c \<in> fst ` set r \<Longrightarrow> col c (r @ s) = col c r"
  by (auto simp: col_def map_add_def map_of_eq_None_iff split: option.splits)

lemma col_append_new: "c \<notin> fst ` set r \<Longrightarrow> col c (r @ s) = col c s"
  by (simp add: col_def map_add_def map_of_eq_None_iff[symmetric] split: option.splits)

lemma col_set_other: "c \<noteq> k \<Longrightarrow> col c (set_col k v r) = col c r"
  by (induction r) (auto simp: col_def set_col_def)

lemma col_set_same: "k \<in> fst ` set r \<Longrightarrow> col k (set_col k v r) = v"
  by (induction r) (auto simp: col_def set_col_def)

lemma set_col_names [simp]: "map fst (set_col k v r) = map fst r"
  by (induction r) (auto simp: set_col_def)

lemma table_okD:
  assumes "table_ok cols states t"
  obtains u where "t = Some u" "set (t_columns u) = set cols"
    "\<And>r. r \<in> set (t_rows u) \<Longrightarrow> map fst r = t_columns u \<and> fst ` set r = set cols \<and> state_ok states r"
proof -
  from assms obtain u where u: "t = Some u" "set (t_columns u) = set cols"
    "\<forall>r\<in>set (t_rows u). map fst r = t_columns u \<and> state_ok states r"
    by (auto simp: table_ok_def split: option.splits)
  show ?thesis
  proof (rule that[OF u(1,2)])
    fix r assume r: "r \<in> set (t_rows u)"
    have "fst ` set r = set (map fst r)" by simp
    with u(2,3) r show "map fst r = t_columns u \<and> fst ` set r = set cols \<and> state_ok states r" by simp
  qed
qed

text \<open>Changing the rows by a function that keeps their old columns.\<close>

lemma table_ok_map:
  assumes "table_ok cols states (Some u)" and "set cs = set (cols @ new)"
    and "\<And>r. map fst r = t_columns u \<Longrightarrow> map fst (g r) = cs"
    and "\<And>r c. map fst r = t_columns u \<Longrightarrow> c \<in> set cols \<Longrightarrow> col c (g r) = col c r"
    and "''state'' \<in> set cols"
  shows "table_ok (cols @ new) states (Some (u\<lparr>t_columns := cs, t_rows := map g (t_rows u)\<rparr>))"
  using assms by (simp add: table_ok_def state_ok_def)

lemma dangling_map:
  assumes "\<And>r. r \<in> set (t_rows a) \<Longrightarrow> col ''job_id'' (g r) = col ''job_id'' r"
    and "\<And>r. r \<in> set (t_rows j) \<Longrightarrow> col ''id'' (h r) = col ''id'' r"
  shows "dangling (Some (a\<lparr>t_columns := cs, t_rows := map g (t_rows a)\<rparr>))
      (Some (j\<lparr>t_columns := ds, t_rows := map h (t_rows j)\<rparr>)) = dangling (Some a) (Some j)"
  using assms by (auto simp: dangling_def)


definition grow :: "(string \<times> sqlval) list \<Rightarrow> (sqlrow \<Rightarrow> sqlrow) \<Rightarrow> sqltable \<Rightarrow> sqltable" where
  \<comment> \<open>new columns with their defaults, then an \<open>UPDATE\<close> of every row\<close>
  "grow new upd t = t\<lparr>t_columns := t_columns t @ map fst new,
     t_rows := map (\<lambda>r. upd (r @ new)) (t_rows t)\<rparr>"

abbreviation v3_columns :: "(string \<times> sqlval) list" where
  "v3_columns \<equiv> [(''idempotency_key'', NULL), (''tags_json'', TEXT ''{}''), (''note'', NULL)]"

abbreviation v4_columns :: "(string \<times> sqlval) list" where
  "v4_columns \<equiv> [(''priority'', INTEGER 0), (''queue'', TEXT ''default'')]"

abbreviation v5_columns :: "(string \<times> sqlval) list" where
  "v5_columns \<equiv> [(''cwd'', NULL), (''env_json'', TEXT ''{}''), (''crashes'', INTEGER 0),
     (''max_crashes'', NULL)]"

abbreviation crashes_update :: "sqlrow list \<Rightarrow> sqlrow \<Rightarrow> sqlrow" where
  "crashes_update as r \<equiv> set_col ''crashes'' (INTEGER (worker_died as r)) r"

abbreviation reason_update :: "sqlrow \<Rightarrow> sqlrow" where
  "reason_update r \<equiv> set_col ''failure_reason'' (backfilled_reason r) r"

lemmas column_defs = jobs_columns_def attempts_columns_def JOBS_BODY_V2_def ATTEMPTS_BODY_V2_def

lemma schema_okD:
  assumes "schema_ok v f"
  obtains j a where "f_jobs f = Some j" "set (t_columns j) = set (jobs_columns v)"
    "f_attempts f = Some a" "set (t_columns a) = set (attempts_columns v)"
  using assms table_okD[of "jobs_columns v" JOB_STATES_CHECK "f_jobs f" thesis]
    table_okD[of "attempts_columns v" ATTEMPT_STATES_CHECK "f_attempts f"]
  unfolding schema_ok_def by metis

lemma v2_to_v3:
  assumes "schema_ok 2 f" and "f_jobs f = Some j"
  shows "migrate_v2_to_v3 f = Inr (f\<lparr>f_jobs := Some (grow v3_columns id j),
    f_indexes := f_indexes f @ [(''idx_jobs_key'', ''jobs'')], f_version := Some (Some ''3'')\<rparr>)"
proof -
  have "set (t_columns j) = set (jobs_columns 2)" using schema_okD[OF assms(1)] assms(2) by auto
  moreover have "''idx_jobs_key'' \<notin> fst ` set (f_indexes f)"
    using assms(1) by (simp add: schema_ok_def indexes_ok_def)
  ultimately show ?thesis
    using read_version_ok[OF assms(1)] assms(2)
    by (simp add: migrate_v2_to_v3_def the_table_def add_column_new create_index_def column_defs
        grow_def comp_def)
qed

lemma v3_to_v4:
  assumes "schema_ok 3 f" and "f_jobs f = Some j"
  shows "migrate_v3_to_v4 f = Inr (f\<lparr>f_jobs := Some (grow v4_columns id j),
    f_indexes := filter (\<lambda>(n, _). n \<noteq> ''idx_jobs_claimable'') (f_indexes f)
      @ [(''idx_jobs_claimable'', ''jobs'')], f_version := Some (Some ''4'')\<rparr>)"
proof -
  have "set (t_columns j) = set (jobs_columns 3)" using schema_okD[OF assms(1)] assms(2) by auto
  moreover have "''idx_jobs_claimable'' \<in> fst ` set (f_indexes f)"
    using assms(1) by (simp add: schema_ok_def indexes_ok_def)
  moreover have "''idx_jobs_claimable'' \<notin>
      fst ` set (filter (\<lambda>(n, _). n \<noteq> ''idx_jobs_claimable'') (f_indexes f))" by auto
  ultimately show ?thesis
    using read_version_ok[OF assms(1)] assms(2)
    by (simp add: migrate_v3_to_v4_def the_table_def add_column_new drop_index_def create_index_def
        column_defs grow_def comp_def)
qed

lemma v4_to_v5:
  assumes "schema_ok 4 f" and "f_jobs f = Some j" and "f_attempts f = Some a"
  shows "migrate_v4_to_v5 f = Inr (f\<lparr>f_jobs := Some (grow v5_columns (crashes_update (t_rows a)) j),
    f_version := Some (Some ''5'')\<rparr>)"
proof -
  have "set (t_columns j) = set (jobs_columns 4)" using schema_okD[OF assms(1)] assms(2) by auto
  then show ?thesis
    using read_version_ok[OF assms(1)] assms(2,3)
    by (simp add: migrate_v4_to_v5_def the_table_def add_column_new column_defs grow_def comp_def)
qed

lemma v5_to_v6:
  assumes "schema_ok 5 f" and "f_attempts f = Some a"
  shows "migrate_v5_to_v6 f = Inr (f\<lparr>f_attempts :=
      Some (grow [(''failure_reason'', NULL)] reason_update a), f_version := Some (Some ''6'')\<rparr>)"
proof -
  have "set (t_columns a) = set (attempts_columns 5)" using schema_okD[OF assms(1)] assms(2) by auto
  then show ?thesis
    using read_version_ok[OF assms(1)] assms(2)
    by (simp add: migrate_v5_to_v6_def the_table_def add_column_new column_defs grow_def comp_def)
qed


definition reorder :: "string list \<Rightarrow> sqlrow \<Rightarrow> sqlrow" where
  "reorder cs r = map (\<lambda>c. (c, col c r)) cs"

definition rebuilt :: "table_body \<Rightarrow> sqltable \<Rightarrow> sqltable" where
  "rebuilt body t = (let rows = map (reorder (map fst (b_columns body))) (t_rows t)
     in \<lparr>t_columns = map fst (b_columns body), t_states = b_states body, t_rows = rows,
       t_seq = (case t_seq t of None \<Rightarrow> if rows = [] then None else Some (max_id rows)
         | Some m \<Rightarrow> Some (if rows = [] then m else max (max_id rows) m))\<rparr>)"

lemma col_reorder: "col c (reorder cs r) = (if c \<in> set cs then col c r else NULL)"
proof -
  have "map_of (map (\<lambda>c. (c, g c)) cs) c = (if c \<in> set cs then Some (g c) else None)" for g
    by (induction cs) auto
  from this[of "\<lambda>c. col c r"] show ?thesis by (simp add: reorder_def col_def[of c "map _ cs"])
qed

lemma rebuild_table_ok:
  assumes "set (t_columns t) = set (map fst (b_columns body))"
    and "\<And>r. r \<in> set (t_rows t) \<Longrightarrow> state_ok (b_states body) r"
  shows "rebuild_table body t = Inr (rebuilt body t)"
proof -
  have in_cols: "c \<in> set (t_columns t)" if "(c, d) \<in> set (b_columns body)" for c d
    using that unfolding assms(1) by force
  have "copied_row body t r = reorder (map fst (b_columns body)) r" for r
    unfolding copied_row_def reorder_def map_map
    by (rule map_cong[OF refl]) (use in_cols in \<open>auto split: prod.splits\<close>)
  then have "copied_row body t = reorder (map fst (b_columns body))" ..
  moreover have "\<not> bad_row body t r" if "r \<in> set (t_rows t)" for r
    using in_cols assms(2)[OF that] by (auto simp: bad_row_def)
  moreover have "set (t_columns t) \<subseteq> fst ` set (b_columns body)" using assms(1) by simp
  ultimately show ?thesis
    by (auto simp: rebuild_table_def rebuilt_def Let_def split: option.splits)
qed

lemma v1_to_v2:
  assumes "schema_ok 1 f" and "f_jobs f = Some j" and "f_attempts f = Some a"
  shows "migrate_v1_to_v2 f = Inr (f\<lparr>f_jobs := Some (rebuilt JOBS_BODY_V2 j),
    f_attempts := Some (rebuilt ATTEMPTS_BODY_V2 a),
    f_indexes := filter (\<lambda>(_, on). on \<notin> {''jobs'', ''attempts''}) (f_indexes f)
      @ [(''idx_jobs_claimable'', ''jobs''), (''idx_jobs_finished'', ''jobs'')],
    f_version := Some (Some ''2'')\<rparr>)"
proof -
  let ?ixs = "filter (\<lambda>(_, on). on \<notin> {''jobs'', ''attempts''}) (f_indexes f)"
  have ixs: "\<forall>(n, on)\<in>set (f_indexes f). n \<in> {''idx_jobs_claimable'', ''idx_jobs_finished''}
      \<longrightarrow> on = ''jobs''" using assms(1) by (simp add: schema_ok_def indexes_ok_def)
  have "n \<notin> fst ` set ?ixs" if "n \<in> {''idx_jobs_claimable'', ''idx_jobs_finished''}" for n
    using ixs that by fastforce
  then have new: "''idx_jobs_claimable'' \<notin> fst ` set ?ixs" "''idx_jobs_finished'' \<notin> fst ` set ?ixs"
    by blast+
  have jt: "table_ok (jobs_columns 1) JOB_STATES_CHECK (Some j)"
    and at: "table_ok (attempts_columns 1) ATTEMPT_STATES_CHECK (Some a)"
    using assms by (simp_all add: schema_ok_def)
  have "rebuild_table JOBS_BODY_V2 j = Inr (rebuilt JOBS_BODY_V2 j)"
    using jt by (intro rebuild_table_ok) (auto simp: table_ok_def column_defs)
  moreover have "rebuild_table ATTEMPTS_BODY_V2 a = Inr (rebuilt ATTEMPTS_BODY_V2 a)"
    using at by (intro rebuild_table_ok) (auto simp: table_ok_def column_defs)
  ultimately show ?thesis
    using read_version_ok[OF assms(1)] assms(2,3) new
    by (simp add: migrate_v1_to_v2_def the_table_def create_index_def)
qed

section \<open>A migration takes a well-formed file to the next version\<close>

lemma grow_table_ok:
  assumes "table_ok cols states (Some u)" and "''state'' \<in> set cols"
    and "set cols \<inter> set (map fst new) = {}"
    and "\<And>r. map fst (upd r) = map fst r" and "\<And>c r. c \<in> set cols \<Longrightarrow> col c (upd r) = col c r"
  shows "table_ok (cols @ map fst new) states (Some (grow new upd u))"
proof -
  have "col ''state'' (upd (r @ new)) = col ''state'' r" if "map fst r = t_columns u" for r
  proof -
    have "fst ` set r = set cols" using arg_cong[OF that, of set] assms(1) by (simp add: table_ok_def)
    then show ?thesis using assms(2,5) col_append[of "''state''" r new] by simp
  qed
  with assms(1,4) show ?thesis by (auto simp: table_ok_def grow_def state_ok_def)
qed

lemma row_names:
  assumes "table_ok cols states (Some u)" and "r \<in> set (t_rows u)"
  shows "fst ` set r = set cols"
proof -
  from assms have "map fst r = t_columns u" "set (t_columns u) = set cols"
    by (simp_all add: table_ok_def)
  then have "set (map fst r) = set cols" by simp
  then show ?thesis by simp
qed

lemma grow_rows_col:
  assumes "table_ok cols states (Some u)" and "c \<in> set cols" and "r \<in> set (t_rows u)"
    and "\<And>r. col c (upd r) = col c r"
  shows "col c (upd (r @ new)) = col c r"
  using assms(2,4) row_names[OF assms(1,3)] by (simp add: col_append)

lemma dangling_jobs:
  assumes "\<And>r. r \<in> set (t_rows j) \<Longrightarrow> col ''id'' (h r) = col ''id'' r"
    and "t_rows j' = map h (t_rows j)"
  shows "dangling t (Some j') = dangling t (Some j)"
  using assms by (auto simp: dangling_def split: option.split)

lemma dangling_refs:
  assumes "\<And>r. r \<in> set (t_rows t) \<Longrightarrow> col ''job_id'' (h r) = col ''job_id'' r"
    and "t_rows t' = map h (t_rows t)"
  shows "dangling (Some t') j = dangling (Some t) j"
  using assms by (auto simp: dangling_def split: option.split)


lemma rebuilt_table_ok:
  assumes "table_ok (map fst (b_columns body)) (b_states body) (Some u)"
    and "''state'' \<in> set (map fst (b_columns body))"
  shows "table_ok (map fst (b_columns body)) (b_states body) (Some (rebuilt body u))"
  using assms by (auto simp: table_ok_def rebuilt_def Let_def state_ok_def col_reorder)
    (auto simp: reorder_def)

lemma id_columns: "''id'' \<in> set (jobs_columns v)" "''state'' \<in> set (jobs_columns v)"
  "''job_id'' \<in> set (attempts_columns v)" "''state'' \<in> set (attempts_columns v)"
  by (simp_all add: column_defs)

lemma schema_v2:
  assumes "schema_ok 1 f" and "f_jobs f = Some j" and "f_attempts f = Some a"
  shows "\<exists>f'. migrate_v1_to_v2 f = Inr f' \<and> schema_ok 2 f'"
proof -
  have jt: "table_ok (jobs_columns 1) JOB_STATES_CHECK (Some j)"
    and at: "table_ok (attempts_columns 1) ATTEMPT_STATES_CHECK (Some a)"
    and ref: "\<not> dangling (Some a) (Some j)" "\<not> dangling (f_events f) (Some j)"
    using assms by (simp_all add: schema_ok_def)
  have cols: "jobs_columns 1 = map fst (b_columns JOBS_BODY_V2)" "jobs_columns 2 = jobs_columns 1"
    "attempts_columns 1 = map fst (b_columns ATTEMPTS_BODY_V2)"
    "attempts_columns 2 = attempts_columns 1"
    "b_states JOBS_BODY_V2 = JOB_STATES_CHECK" "b_states ATTEMPTS_BODY_V2 = ATTEMPT_STATES_CHECK"
    by (simp_all add: column_defs)
  have "table_ok (jobs_columns 2) JOB_STATES_CHECK (Some (rebuilt JOBS_BODY_V2 j))"
    using rebuilt_table_ok[of JOBS_BODY_V2 j] jt id_columns(2)[of 1] cols by simp
  moreover have "table_ok (attempts_columns 2) ATTEMPT_STATES_CHECK (Some (rebuilt ATTEMPTS_BODY_V2 a))"
    using rebuilt_table_ok[of ATTEMPTS_BODY_V2 a] at id_columns(4)[of 1] cols by simp
  moreover have jobs: "dangling t (Some (rebuilt JOBS_BODY_V2 j)) = dangling t (Some j)" for t
    by (rule dangling_jobs[where h = "reorder (map fst (b_columns JOBS_BODY_V2))"])
      (simp_all add: rebuilt_def Let_def col_reorder JOBS_BODY_V2_def)
  moreover have "dangling (Some (rebuilt ATTEMPTS_BODY_V2 a)) t = dangling (Some a) t" for t
    by (rule dangling_refs[where h = "reorder (map fst (b_columns ATTEMPTS_BODY_V2))"])
      (simp_all add: rebuilt_def Let_def col_reorder ATTEMPTS_BODY_V2_def)
  ultimately show ?thesis
    using v1_to_v2[OF assms] assms(1) ref
    by (force simp: schema_ok_def indexes_ok_def)
qed

lemma grow_jobs_ok:
  assumes "table_ok (jobs_columns v) JOB_STATES_CHECK (Some j)"
    and "jobs_columns (v + 1) = jobs_columns v @ map fst new"
    and "set (jobs_columns v) \<inter> set (map fst new) = {}"
    and "\<And>r. map fst (upd r) = map fst r"
    and "\<And>c r. c \<in> set (jobs_columns v) \<Longrightarrow> col c (upd r) = col c r"
  shows "table_ok (jobs_columns (v + 1)) JOB_STATES_CHECK (Some (grow new upd j))"
    and "dangling t (Some (grow new upd j)) = dangling t (Some j)"
proof -
  show "table_ok (jobs_columns (v + 1)) JOB_STATES_CHECK (Some (grow new upd j))"
    unfolding assms(2) by (rule grow_table_ok[OF assms(1) id_columns(2) assms(3-5)])
  show "dangling t (Some (grow new upd j)) = dangling t (Some j)"
  proof (rule dangling_jobs)
    show "col ''id'' (upd (r @ new)) = col ''id'' r" if "r \<in> set (t_rows j)" for r
      by (rule grow_rows_col[OF assms(1) id_columns(1) that assms(5)[OF id_columns(1)]])
  qed (simp add: grow_def)
qed

lemma grow_attempts_ok:
  assumes "table_ok (attempts_columns v) ATTEMPT_STATES_CHECK (Some a)"
    and "attempts_columns (v + 1) = attempts_columns v @ map fst new"
    and "set (attempts_columns v) \<inter> set (map fst new) = {}"
    and "\<And>r. map fst (upd r) = map fst r"
    and "\<And>c r. c \<in> set (attempts_columns v) \<Longrightarrow> col c (upd r) = col c r"
  shows "table_ok (attempts_columns (v + 1)) ATTEMPT_STATES_CHECK (Some (grow new upd a))"
    and "dangling (Some (grow new upd a)) j = dangling (Some a) j"
proof -
  show "table_ok (attempts_columns (v + 1)) ATTEMPT_STATES_CHECK (Some (grow new upd a))"
    unfolding assms(2) by (rule grow_table_ok[OF assms(1) id_columns(4) assms(3-5)])
  show "dangling (Some (grow new upd a)) j = dangling (Some a) j"
  proof (rule dangling_refs)
    show "col ''job_id'' (upd (r @ new)) = col ''job_id'' r" if "r \<in> set (t_rows a)" for r
      by (rule grow_rows_col[OF assms(1) id_columns(3) that assms(5)[OF id_columns(3)]])
  qed (simp add: grow_def)
qed


lemma schema_v3:
  assumes "schema_ok 2 f" and "f_jobs f = Some j"
  shows "\<exists>f'. migrate_v2_to_v3 f = Inr f' \<and> schema_ok 3 f'"
proof -
  have tok: "table_ok (jobs_columns 2) JOB_STATES_CHECK (Some j)"
    using assms by (simp add: schema_ok_def)
  have p1: "jobs_columns (2 + 1) = jobs_columns 2 @ map fst v3_columns"
    and p2: "set (jobs_columns 2) \<inter> set (map fst v3_columns) = {}"
    by (simp_all add: column_defs)
  have p3: "map fst (id r) = map fst r" for r by simp
  have p4: "col c (id r) = col c r" if "c \<in> set (jobs_columns 2)" for c r
    using that by (auto simp: column_defs col_set_other)
  have "table_ok (jobs_columns (2 + 1)) JOB_STATES_CHECK (Some (grow v3_columns id j))"
    and "dangling t (Some (grow v3_columns id j)) = dangling t (Some j)" for t
    by (rule grow_jobs_ok[OF tok p1 p2 p3 p4]; assumption)+
  then show ?thesis
    using v2_to_v3[OF assms] assms by (force simp: schema_ok_def indexes_ok_def attempts_columns_def)
qed

lemma schema_v4:
  assumes "schema_ok 3 f" and "f_jobs f = Some j"
  shows "\<exists>f'. migrate_v3_to_v4 f = Inr f' \<and> schema_ok 4 f'"
proof -
  have tok: "table_ok (jobs_columns 3) JOB_STATES_CHECK (Some j)"
    using assms by (simp add: schema_ok_def)
  have p1: "jobs_columns (3 + 1) = jobs_columns 3 @ map fst v4_columns"
    and p2: "set (jobs_columns 3) \<inter> set (map fst v4_columns) = {}"
    by (simp_all add: column_defs)
  have p3: "map fst (id r) = map fst r" for r by simp
  have p4: "col c (id r) = col c r" if "c \<in> set (jobs_columns 3)" for c r
    using that by (auto simp: column_defs col_set_other)
  have "table_ok (jobs_columns (3 + 1)) JOB_STATES_CHECK (Some (grow v4_columns id j))"
    and "dangling t (Some (grow v4_columns id j)) = dangling t (Some j)" for t
    by (rule grow_jobs_ok[OF tok p1 p2 p3 p4]; assumption)+
  then show ?thesis
    using v3_to_v4[OF assms] assms by (force simp: schema_ok_def indexes_ok_def attempts_columns_def)
qed

lemma schema_v5:
  assumes "schema_ok 4 f" and "f_jobs f = Some j" and "f_attempts f = Some a"
  shows "\<exists>f'. migrate_v4_to_v5 f = Inr f' \<and> schema_ok 5 f'"
proof -
  have tok: "table_ok (jobs_columns 4) JOB_STATES_CHECK (Some j)"
    using assms by (simp add: schema_ok_def)
  have p1: "jobs_columns (4 + 1) = jobs_columns 4 @ map fst v5_columns"
    and p2: "set (jobs_columns 4) \<inter> set (map fst v5_columns) = {}"
    by (simp_all add: column_defs)
  have p3: "map fst (crashes_update (t_rows a) r) = map fst r" for r by simp
  have p4: "col c (crashes_update (t_rows a) r) = col c r" if "c \<in> set (jobs_columns 4)" for c r
    using that by (auto simp: column_defs col_set_other)
  have "table_ok (jobs_columns (4 + 1)) JOB_STATES_CHECK (Some (grow v5_columns (crashes_update (t_rows a)) j))"
    and "dangling t (Some (grow v5_columns (crashes_update (t_rows a)) j)) = dangling t (Some j)" for t
    by (rule grow_jobs_ok[OF tok p1 p2 p3 p4]; assumption)+
  then show ?thesis
    using v4_to_v5[OF assms] assms by (force simp: schema_ok_def indexes_ok_def attempts_columns_def)
qed

lemma schema_v6:
  assumes "schema_ok 5 f" and "f_attempts f = Some a"
  shows "\<exists>f'. migrate_v5_to_v6 f = Inr f' \<and> schema_ok 6 f'"
proof -
  have tok: "table_ok (attempts_columns 5) ATTEMPT_STATES_CHECK (Some a)"
    using assms by (simp add: schema_ok_def)
  have p1: "attempts_columns (5 + 1) = attempts_columns 5 @ map fst [(''failure_reason'', NULL)]"
    and p2: "set (attempts_columns 5) \<inter> set (map fst [(''failure_reason'', NULL)]) = {}"
    by (simp_all add: column_defs)
  have p3: "map fst (reason_update r) = map fst r" for r by simp
  have p4: "col c (reason_update r) = col c r" if "c \<in> set (attempts_columns 5)" for c r
    using that by (auto simp: column_defs col_set_other)
  have "table_ok (attempts_columns (5 + 1)) ATTEMPT_STATES_CHECK (Some (grow [(''failure_reason'', NULL)] reason_update a))"
    and "dangling (Some (grow [(''failure_reason'', NULL)] reason_update a)) t = dangling (Some a) t" for t
    by (rule grow_attempts_ok[OF tok p1 p2 p3 p4]; assumption)+
  then show ?thesis
    using v5_to_v6[OF assms] assms by (force simp: schema_ok_def indexes_ok_def jobs_columns_def)
qed

lemma migration_step:
  assumes "schema_ok v f" and "1 \<le> v" and "v \<le> 5"
  shows "\<exists>f'. migration v f = Inr f' \<and> schema_ok (v + 1) f'"
proof -
  from assms(1) obtain j a where ja: "f_jobs f = Some j" "f_attempts f = Some a" by (rule schema_okD)
  from assms(2,3) have "v = 1 \<or> v = 2 \<or> v = 3 \<or> v = 4 \<or> v = 5" by arith
  then show ?thesis
    using assms(1) schema_v2[OF _ ja] schema_v3[OF _ ja(1)] schema_v4[OF _ ja(1)] schema_v5[OF _ ja]
      schema_v6[OF _ ja(2)]
    by (elim disjE) (simp_all add: migration_def)
qed

lemma migration_done:
  \<comment> \<open>the loser of the race finds the work done\<close>
  assumes "schema_ok n f" and "n \<le> 6" and "1 \<le> v" and "v < n"
  shows "migration v f = Inr f"
proof -
  have "read_version f = Inr n" using read_version_ok[OF assms(1) _ assms(2)] assms(3,4) by simp
  moreover have "v = 1 \<or> v = 2 \<or> v = 3 \<or> v = 4 \<or> v = 5" using assms by arith
  ultimately show ?thesis using assms(4)
    by (elim disjE) (simp_all add: migration_def migrate_v1_to_v2_def migrate_v2_to_v3_def
        migrate_v3_to_v4_def migrate_v4_to_v5_def migrate_v5_to_v6_def)
qed

definition migrates :: "(dbfile \<Rightarrow> dbfile) \<Rightarrow> bool" where
  \<comment> \<open>what other processes may do to the file: take it to a later version\<close>
  "migrates g \<longleftrightarrow> (\<forall>v f. 1 \<le> v \<and> v \<le> 6 \<and> schema_ok v f \<longrightarrow> (\<exists>n. v \<le> n \<and> n \<le> 6 \<and> schema_ok n (g f)))"

text \<open>C20. Opening the queue upgrades it: from any schema version the loop reaches version 6 in at most
  as many rounds as versions are missing, without an error, and leaves a well-formed file, though
  other processes may be migrating the same file between any two of its transactions.\<close>

theorem upgrade_reaches_current:
  assumes "schema_ok v f" and "1 \<le> v" and "v \<le> 6" and "6 - v \<le> int (length rounds)"
    and "list_all migrates rounds"
  shows "\<exists>f'. ensure_schema rounds f = Some (Inr (), f') \<and> schema_ok 6 f'"
proof -
  have "\<exists>f'. schema_loop rounds f = Some (Inr (), f') \<and> schema_ok 6 f'"
    using assms
  proof (induction rounds arbitrary: v f)
    case Nil
    then have "v = 6" by simp
    with Nil read_version_ok[OF Nil(1)] show ?case by (simp add: SCHEMA_VERSION_def)
  next
    case (Cons g rounds)
    note rv = read_version_ok[OF Cons.prems(1-3)]
    show ?case
    proof (cases "v = 6")
      case True
      with rv Cons.prems(1) show ?thesis by (simp add: SCHEMA_VERSION_def)
    next
      case False
      obtain n where n: "v \<le> n" "n \<le> 6" "schema_ok n (g f)"
        using Cons.prems unfolding migrates_def list.pred_inject by blast
      have rn: "read_version (g f) = Inr n"
        using read_version_ok[OF n(3) _ n(2)] n(1) Cons.prems(2) by simp
      obtain m f2 where f2: "migration v (g f) = Inr f2" "schema_ok m f2" "v < m" "m \<le> 6"
      proof (cases "v < n")
        case True
        from migration_done[OF n(3,2) Cons.prems(2) True] show ?thesis
          by (rule that) (use n True in auto)
      next
        case same: False
        with n(1) have "n = v" by simp
        with migration_step[of v "g f"] n(3) Cons.prems(2,3) False show ?thesis
          by (auto intro: that[of _ "v + 1"])
      qed
      have "after_v1 f2 = Inr ()" using f2(2) by (simp add: after_v1_def schema_ok_def)
      moreover from Cons.IH[OF f2(2)] f2(3,4) Cons.prems
      have "\<exists>f'. schema_loop rounds f2 = Some (Inr (), f') \<and> schema_ok 6 f'" by auto
      ultimately show ?thesis
        using rv rn f2(1) False Cons.prems(3) by (simp add: SCHEMA_VERSION_def Let_def)
    qed
  qed
  then show ?thesis using assms(1) by (simp add: ensure_schema_def schema_ok_def)
qed


definition v1_file :: dbfile where
  \<comment> \<open>a version-1 queue: a job whose first worker died, and one queued\<close>
  "v1_file = (let row = (\<lambda>i st n. map (\<lambda>(c, d). (c, if c = ''id'' then INTEGER i
         else if c = ''state'' then TEXT st else if c = ''attempts'' then INTEGER n else NULL))
         (b_columns JOBS_BODY_V2))
     in \<lparr>f_version = Some (Some ''1''),
       f_jobs = Some \<lparr>t_columns = map fst (b_columns JOBS_BODY_V2), t_states = JOB_STATES_CHECK,
         t_rows = [row 1 ''queued'' 1, row 3 ''queued'' 0], t_seq = Some 5\<rparr>,
       f_attempts = Some \<lparr>t_columns = map fst (b_columns ATTEMPTS_BODY_V2),
         t_states = ATTEMPT_STATES_CHECK, t_rows = [map (\<lambda>(c, d). (c,
           if c \<in> {''id'', ''job_id'', ''attempt_no''} then INTEGER 1
           else if c = ''state'' then TEXT ''abandoned'' else if c = ''error'' then TEXT ''worker died''
           else NULL)) (b_columns ATTEMPTS_BODY_V2)], t_seq = Some 1\<rparr>,
       f_events = Some (create_table EVENTS_BODY),
       f_indexes = [(''idx_jobs_claimable'', ''jobs'')]\<rparr>)"

definition racing :: "dbfile \<Rightarrow> dbfile" where
  \<comment> \<open>another process does the first migration\<close>
  "racing f = (case migrate_v1_to_v2 f of Inl e \<Rightarrow> f | Inr f' \<Rightarrow> f')"

lemma migrates_id: "migrates (\<lambda>f. f)"
  unfolding migrates_def by (metis order_refl)

lemma migrates_racing: "migrates racing"
  unfolding migrates_def
proof (intro allI impI)
  fix v f
  assume v: "1 \<le> v \<and> v \<le> 6 \<and> schema_ok v f"
  show "\<exists>n\<ge>v. n \<le> 6 \<and> schema_ok n (racing f)"
  proof (cases "v = 1")
    case True
    with migration_step[of 1 f] v show ?thesis
      by (auto simp: racing_def migration_def intro: exI[of _ 2])
  next
    case False
    with migration_done[of v f 1] v show ?thesis by (auto simp: racing_def migration_def)
  qed
qed

lemma v1_file_ok: "schema_ok 1 v1_file"
  by code_simp

theorem upgrade_reaches_current_witness:
  "\<exists>f'. ensure_schema [racing, \<lambda>f. f, racing, \<lambda>f. f, \<lambda>f. f] v1_file = Some (Inr (), f') \<and> schema_ok 6 f'"
  by (rule upgrade_reaches_current[OF v1_file_ok]) (simp_all add: migrates_id migrates_racing)

definition new_job_columns :: "(string \<times> sqlval) list" where
  "new_job_columns = v3_columns @ v4_columns @ filter (\<lambda>(c, v). c \<noteq> ''crashes'') v5_columns"

lemma list_all2_map_same: "(\<And>r. r \<in> set xs \<Longrightarrow> P r (h r)) \<Longrightarrow> list_all2 P xs (map h xs)"
  by (induction xs) auto

lemma worker_died_reorder:
  assumes "set cs \<supseteq> {''job_id'', ''state'', ''error''}" and "col ''id'' r' = col ''id'' r"
  shows "worker_died (map (reorder cs) as) r' = worker_died as r"
  using assms by (simp add: worker_died_def count_where_def filter_map comp_def col_reorder)

lemma col_Cons: "col c ((k, v) # r) = (if k = c then v else col c r)"
  by (simp add: col_def)

lemma set_col_Cons: "set_col k v (p # r) = (if fst p = k then (k, v) else p) # set_col k v r"
  by (cases p) (simp add: set_col_def)

definition upgraded_job :: "sqlrow list \<Rightarrow> sqlrow \<Rightarrow> sqlrow" where
  "upgraded_job as r = crashes_update as
     (((reorder (map fst (b_columns JOBS_BODY_V2)) r @ v3_columns) @ v4_columns) @ v5_columns)"

definition upgraded_attempt :: "sqlrow \<Rightarrow> sqlrow" where
  "upgraded_attempt r = reason_update
     (reorder (map fst (b_columns ATTEMPTS_BODY_V2)) r @ [(''failure_reason'', NULL)])"

lemma upgraded_job_columns:
  "list_all (\<lambda>c. col c (upgraded_job (t_rows (rebuilt ATTEMPTS_BODY_V2 a)) r) = col c r) (jobs_columns 1)"
  "col ''crashes'' (upgraded_job (t_rows (rebuilt ATTEMPTS_BODY_V2 a)) r) = INTEGER (worker_died (t_rows a) r)"
  "list_all (\<lambda>(c, v). col c (upgraded_job (t_rows (rebuilt ATTEMPTS_BODY_V2 a)) r) = v) new_job_columns"
proof -
  let ?as = "t_rows (rebuilt ATTEMPTS_BODY_V2 a)"
  have died: "worker_died ?as r' = worker_died (t_rows a) r" if "col ''id'' r' = col ''id'' r" for r'
    unfolding rebuilt_def Let_def using that
    by (simp add: worker_died_reorder ATTEMPTS_BODY_V2_def)
  have "col c (upgraded_job ?as r) = col c r" if c: "c \<in> set (jobs_columns 1)" for c
  proof -
    have "c \<in> set (map fst (b_columns JOBS_BODY_V2))" "c \<noteq> ''crashes''"
      using c by (auto simp: column_defs)
    from this(1) have "col c (reorder (map fst (b_columns JOBS_BODY_V2)) r @ new) = col c r" for new
      by (subst col_append) (force simp: reorder_def, simp add: col_reorder)
    with \<open>c \<noteq> ''crashes''\<close> show ?thesis by (simp add: upgraded_job_def col_set_other)
  qed
  then show "list_all (\<lambda>c. col c (upgraded_job ?as r) = col c r) (jobs_columns 1)"
    by (simp add: list_all_iff)
  show "col ''crashes'' (upgraded_job ?as r) = INTEGER (worker_died (t_rows a) r)"
    unfolding upgraded_job_def
    by (subst col_set_same) (simp_all add: died reorder_def col_Cons JOBS_BODY_V2_def)
  show "list_all (\<lambda>(c, v). col c (upgraded_job ?as r) = v) new_job_columns"
    by (simp add: upgraded_job_def reorder_def set_col_Cons col_Cons JOBS_BODY_V2_def new_job_columns_def)
qed

lemma upgraded_attempt_columns:
  "list_all (\<lambda>c. col c (upgraded_attempt r) = col c r) (attempts_columns 1)"
  "col ''failure_reason'' (upgraded_attempt r) = backfilled_reason r"
  by (simp_all add: upgraded_attempt_def reorder_def set_col_Cons col_Cons column_defs
      backfilled_reason_def Let_def)

lemma grow_simps [simp]:
  "t_rows (grow new upd t) = map (\<lambda>r. upd (r @ new)) (t_rows t)" "t_seq (grow new upd t) = t_seq t"
  by (simp_all add: grow_def)

lemma rebuilt_seq: "seq_of (Some t) \<le> seq_of (Some (rebuilt b t))"
proof -
  have "m \<le> fold (\<lambda>r m. case col ''id'' r of INTEGER i \<Rightarrow> max i m | _ \<Rightarrow> m) rows m" for rows m
  proof (induction rows arbitrary: m)
    case (Cons r rows)
    have "m \<le> (case col ''id'' r of INTEGER i \<Rightarrow> max i m | _ \<Rightarrow> m)" by (simp split: sqlval.split)
    from order_trans[OF this Cons.IH] show ?case by simp
  qed simp
  from this[of 0] show ?thesis
    by (auto simp: seq_of_def rebuilt_def Let_def max_id_def split: option.split)
qed

text \<open>C21. The upgrade loses nothing: every job and attempt of a version-1 queue is still there, in
  order and with its old columns unchanged; the new columns hold their defaults, except that the
  crash count is that of the attempts whose worker died and each attempt has the failure reason its
  state implies. Events are untouched, and the id sequences do not go back.\<close>

theorem upgrade_keeps_rows:
  assumes "schema_ok 1 f"
  shows "\<exists>f'. ensure_schema (replicate 5 (\<lambda>f. f)) f = Some (Inr (), f')
    \<and> list_all2 (\<lambda>r r'. list_all (\<lambda>c. col c r' = col c r) (jobs_columns 1)
        \<and> col ''crashes'' r' = INTEGER (worker_died (rows_of (f_attempts f)) r)
        \<and> list_all (\<lambda>(c, v). col c r' = v) new_job_columns) (rows_of (f_jobs f)) (rows_of (f_jobs f'))
    \<and> list_all2 (\<lambda>r r'. list_all (\<lambda>c. col c r' = col c r) (attempts_columns 1)
        \<and> col ''failure_reason'' r' = backfilled_reason r) (rows_of (f_attempts f)) (rows_of (f_attempts f'))
    \<and> f_events f' = f_events f \<and> seq_of (f_jobs f) \<le> seq_of (f_jobs f')
    \<and> seq_of (f_attempts f) \<le> seq_of (f_attempts f')"
proof -
  obtain j a where ja: "f_jobs f = Some j" "f_attempts f = Some a" using assms by (rule schema_okD)
  let ?j = "rebuilt JOBS_BODY_V2 j" and ?a = "rebuilt ATTEMPTS_BODY_V2 a"
  obtain f2 where f2: "migrate_v1_to_v2 f = Inr f2" "schema_ok 2 f2" using schema_v2[OF assms ja] by blast
  have e2: "f_jobs f2 = Some ?j" "f_attempts f2 = Some ?a" "f_events f2 = f_events f"
    using f2(1) v1_to_v2[OF assms ja] by auto
  obtain f3 where f3: "migrate_v2_to_v3 f2 = Inr f3" "schema_ok 3 f3" using schema_v3[OF f2(2) e2(1)] by blast
  have e3: "f_jobs f3 = Some (grow v3_columns id ?j)" "f_attempts f3 = Some ?a" "f_events f3 = f_events f"
    using f3(1) v2_to_v3[OF f2(2) e2(1)] e2 by auto
  obtain f4 where f4: "migrate_v3_to_v4 f3 = Inr f4" "schema_ok 4 f4" using schema_v4[OF f3(2) e3(1)] by blast
  have e4: "f_jobs f4 = Some (grow v4_columns id (grow v3_columns id ?j))" "f_attempts f4 = Some ?a"
    "f_events f4 = f_events f" using f4(1) v3_to_v4[OF f3(2) e3(1)] e3 by auto
  obtain f5 where f5: "migrate_v4_to_v5 f4 = Inr f5" "schema_ok 5 f5"
    using schema_v5[OF f4(2) e4(1,2)] by blast
  have e5: "f_jobs f5 = Some (grow v5_columns (crashes_update (t_rows ?a))
      (grow v4_columns id (grow v3_columns id ?j)))" "f_attempts f5 = Some ?a"
    "f_events f5 = f_events f" using f5(1) v4_to_v5[OF f4(2) e4(1,2)] e4 by auto
  obtain f6 where f6: "migrate_v5_to_v6 f5 = Inr f6" "schema_ok 6 f6" using schema_v6[OF f5(2) e5(2)] by blast
  have e6: "f_jobs f6 = f_jobs f5" "f_attempts f6 = Some (grow [(''failure_reason'', NULL)] reason_update ?a)"
    "f_events f6 = f_events f" using f6(1) v5_to_v6[OF f5(2) e5(2)] e5 by auto
  have fk: "after_v1 f2 = Inr ()" using f2(2) by (simp add: after_v1_def schema_ok_def)
  have five: "replicate 5 (g :: dbfile \<Rightarrow> dbfile) = [g, g, g, g, g]" for g by (simp add: numeral_eq_Suc)
  have "ensure_schema (replicate 5 (\<lambda>f. f)) f = Some (Inr (), f6)"
    using assms read_version_ok[OF assms] read_version_ok[OF f2(2)] read_version_ok[OF f3(2)]
      read_version_ok[OF f4(2)] read_version_ok[OF f5(2)] read_version_ok[OF f6(2)]
    by (simp add: ensure_schema_def schema_ok_def[of 1] five migration_def SCHEMA_VERSION_def
        Let_def f2(1) f3(1) f4(1) f5(1) f6(1) fk)
  moreover have "rows_of (f_jobs f6) = map (upgraded_job (t_rows ?a)) (rows_of (f_jobs f))"
    by (simp add: rows_of_def ja e5 e6 upgraded_job_def rebuilt_def Let_def)
  moreover have "rows_of (f_attempts f6) = map upgraded_attempt (rows_of (f_attempts f))"
    by (simp add: rows_of_def ja e6 upgraded_attempt_def rebuilt_def Let_def)
  moreover have "seq_of (f_jobs f) \<le> seq_of (f_jobs f6)" "seq_of (f_attempts f) \<le> seq_of (f_attempts f6)"
    using rebuilt_seq[of j JOBS_BODY_V2] rebuilt_seq[of a ATTEMPTS_BODY_V2]
    by (simp_all add: ja e5 e6 seq_of_def)
  ultimately show ?thesis
    using upgraded_job_columns upgraded_attempt_columns e6(3) ja(2)
    by (intro exI[of _ f6]) (simp add: list_all2_map_same rows_of_def[of "Some a"])
qed

theorem upgrade_keeps_rows_witness:
  "\<exists>f'. ensure_schema (replicate 5 (\<lambda>f. f)) v1_file = Some (Inr (), f') \<and> 5 \<le> seq_of (f_jobs f')"
proof -
  have "seq_of (f_jobs v1_file) = 5" by code_simp
  with upgrade_keeps_rows[OF v1_file_ok] show ?thesis by auto
qed

end
