(* ===== verification/Doctor.thy ===== *)
theory Doctor
  imports OperationsRead Migrate ContractProps
begin

text \<open>
  The configuration operations and the readiness check of \<open>spoolctl/operations.py\<close>: config-show,
  config-validate and doctor. What the operating system answers (is it a directory, may it be written,
  does it exist, is it a file) is a record of predicates; opening the database read/write without
  creating it either fails or gives the physical file of \<open>Migrate\<close>. The check of the contract runs the
  builders of \<open>Contract\<close> on the live parser; writing what they build as JSON does not fail, since it is
  made of JSON values. Messages and remediations of the checks are left out.
\<close>

record host =
  h_realpath :: "string \<Rightarrow> string"
  h_config :: "string \<Rightarrow> config_file"     \<comment> \<open>opening and parsing a project file\<close>
  h_getcwd :: string
  h_environ_db :: "string option"
  h_isdir :: "string \<Rightarrow> bool"
  h_writable :: "string \<Rightarrow> bool"
  h_exists :: "string \<Rightarrow> bool"
  h_isfile :: "string \<Rightarrow> bool"
  h_open :: "string \<Rightarrow> dbfile option"      \<comment> \<open>\<open>mode=rw\<close>: \<open>None\<close> when it cannot be opened\<close>

section \<open>Configuration\<close>

definition host_config :: "host \<Rightarrow> string option \<Rightarrow> string option \<Rightarrow> py_exn + effective_config" where
  "host_config h flag base_dir =
     resolve_effective_config (h_realpath h) (h_config h) (h_getcwd h) (h_environ_db h) flag base_dir False"

definition config_show_operation :: "host \<Rightarrow> string option \<Rightarrow> string option \<Rightarrow> py_exn + effective_config" where
  "config_show_operation h db_path base_dir = host_config h db_path base_dir"

definition config_validate_operation ::
    "host \<Rightarrow> string option \<Rightarrow> string option \<Rightarrow> py_exn + config_validation" where
  "config_validate_operation h path base_dir =
     and_then (case path of
         None \<Rightarrow> (case base_dir of None \<Rightarrow> rejected | Some b \<Rightarrow> Inr (default_config_path (h_realpath h) b))
       | Some p \<Rightarrow> Inr p)
     (\<lambda>p. validate_config_file (h_realpath h) (h_config h) p)"

section \<open>Doctor\<close>

datatype check_id = Config_valid | Db_path_resolved | Spool_directory_writable | Database_exists
| Sqlite_open_readwrite | Schema_version | Contract_metadata

datatype check_status = Pass | Warn | Fail | Skip

record check =
  ck_id :: check_id
  ck_status :: check_status
  ck_blocked_by :: "check_id option"

definition doctor_check :: "check_id \<Rightarrow> check_status \<Rightarrow> check" where
  "doctor_check i s = \<lparr>ck_id = i, ck_status = s, ck_blocked_by = None\<rparr>"

definition doctor_skip :: "check_id \<Rightarrow> check_id \<Rightarrow> check" where
  "doctor_skip i blocked_by = \<lparr>ck_id = i, ck_status = Skip, ck_blocked_by = Some blocked_by\<rparr>"

record doctor_summary =
  ds_passed :: nat
  ds_warnings :: nat
  ds_failed :: nat
  ds_skipped :: nat

definition summarise :: "check list \<Rightarrow> doctor_summary" where
  "summarise checks = (let n = (\<lambda>s. length (filter (\<lambda>c. ck_status c = s) checks))
     in \<lparr>ds_passed = n Pass, ds_warnings = n Warn, ds_failed = n Fail, ds_skipped = n Skip\<rparr>)"

datatype schema_read = Unreadable | Missing | Not_integer | Version int

definition read_schema_version_non_mutating :: "dbfile \<Rightarrow> schema_read" where
  \<comment> \<open>\<open>Unreadable\<close>: the query failed, \<open>opened\<close> is false\<close>
  "read_schema_version_non_mutating f = (case f_version f of
       None \<Rightarrow> Unreadable
     | Some None \<Rightarrow> Missing
     | Some (Some text) \<Rightarrow> (case py_int text of None \<Rightarrow> Not_integer | Some n \<Rightarrow> Version n))"

definition contract_metadata_check :: "(string \<times> action list) list \<Rightarrow> check" where
  \<comment> \<open>the live parser; the schema and capability builders run on it\<close>
  "contract_metadata_check parser_verbs = doctor_check Contract_metadata
     (if parser_verbs = [] then Fail
      else case build_schema None of Inl e \<Rightarrow> Fail
        | Inr schema_data \<Rightarrow> (case build_capabilities parser_verbs of None \<Rightarrow> Fail | Some caps_data \<Rightarrow> Pass))"

record doctor_config =
  dc_config_path :: "string option"
  dc_config_exists :: bool
  dc_config_valid :: bool
  dc_db_path :: "string option"
  dc_db_source :: "source option"

record doctor_data =
  dd_ready :: bool
  dd_summary :: doctor_summary
  dd_config :: doctor_config
  dd_checks :: "check list"

definition flag_rejected :: "host \<Rightarrow> string option \<Rightarrow> string option \<Rightarrow> bool" where
  \<comment> \<open>the error is the one about the flag's value, its message starting with \<open>--db\<close>\<close>
  "flag_rejected h flag base_dir \<longleftrightarrow> flag \<noteq> None \<and> (case base_dir of None \<Rightarrow> True
     | Some b \<Rightarrow> \<not> isl (load_config_object (h_config h (default_config_path (h_realpath h) b))))"

definition database_checks :: "host \<Rightarrow> string \<Rightarrow> check list" where
  "database_checks h db_path =
     (if \<not> h_exists h db_path \<or> \<not> h_isfile h db_path then
        [doctor_check Database_exists Fail, doctor_skip Sqlite_open_readwrite Database_exists,
         doctor_skip Schema_version Database_exists]
      else doctor_check Database_exists Pass #
        (case h_open h db_path of
           None \<Rightarrow> [doctor_check Sqlite_open_readwrite Fail, doctor_skip Schema_version Sqlite_open_readwrite]
         | Some f \<Rightarrow> (case read_schema_version_non_mutating f of
             Unreadable \<Rightarrow>
               [doctor_check Sqlite_open_readwrite Fail, doctor_skip Schema_version Sqlite_open_readwrite]
           | Not_integer \<Rightarrow>
               [doctor_check Sqlite_open_readwrite Pass, doctor_check Schema_version Fail]
           | Missing \<Rightarrow>
               [doctor_check Sqlite_open_readwrite Pass, doctor_check Schema_version Fail]
           | Version found \<Rightarrow>
               [doctor_check Sqlite_open_readwrite Pass, doctor_check Schema_version
                 (if found < SCHEMA_VERSION then Fail else if found > SCHEMA_VERSION then Fail else Pass)])))"

definition directory_check :: "host \<Rightarrow> string \<Rightarrow> check" where
  "directory_check h db_path = (let parent = (if dirname db_path = [] then ''.'' else dirname db_path)
     in doctor_check Spool_directory_writable
       (if \<not> h_isdir h parent then Fail else if \<not> h_writable h parent then Fail else Pass))"

definition doctor_report :: "doctor_config \<Rightarrow> check list \<Rightarrow> doctor_data" where
  "doctor_report config checks = \<lparr>dd_ready = (ds_failed (summarise checks) = 0),
     dd_summary = summarise checks, dd_config = config, dd_checks = checks\<rparr>"

definition doctor_operation :: "host \<Rightarrow> (string \<times> action list) list \<Rightarrow> string option
    \<Rightarrow> string option \<Rightarrow> py_exn + doctor_data" where
  "doctor_operation h parser_verbs db_path base_dir = (case host_config h db_path base_dir of
       Inl (CliError e) \<Rightarrow>
         if flag_rejected h db_path base_dir then Inl (CliError e)
         else
           let config_path = (case base_dir of None \<Rightarrow> None
                 | Some b \<Rightarrow> if b = [] then None else Some (default_config_path (h_realpath h) b));
               config = \<lparr>dc_config_path = config_path,
                 dc_config_exists = (case config_path of None \<Rightarrow> False | Some p \<Rightarrow> p \<noteq> [] \<and> h_exists h p),
                 dc_config_valid = False, dc_db_path = None, dc_db_source = None\<rparr>
           in Inr (doctor_report config
             ([doctor_check Config_valid Fail] @
              map (\<lambda>i. doctor_skip i Config_valid) [Db_path_resolved, Spool_directory_writable,
                Database_exists, Sqlite_open_readwrite, Schema_version] @
              [contract_metadata_check parser_verbs]))
     | Inl err \<Rightarrow> Inl err
     | Inr e \<Rightarrow>
         Inr (doctor_report \<lparr>dc_config_path = ec_config_path e, dc_config_exists = ec_config_exists e,
             dc_config_valid = ec_config_valid e, dc_db_path = Some (ec_db_path e),
             dc_db_source = Some (ec_db_source e)\<rparr>
           ([doctor_check Config_valid Pass, doctor_check Db_path_resolved Pass,
             directory_check h (ec_db_path e)] @ database_checks h (ec_db_path e) @
            [contract_metadata_check parser_verbs])))"

section \<open>Properties\<close>

lemmas doctor_defs = doctor_check_def doctor_skip_def summarise_def contract_metadata_check_def
  directory_check_def doctor_report_def

definition db_directory :: "string \<Rightarrow> string" where
  "db_directory p = (if dirname p = [] then ''.'' else dirname p)"

lemma failed_0_iff: "ds_failed (summarise cs) = 0 \<longleftrightarrow> (\<forall>c\<in>set cs. ck_status c \<noteq> Fail)"
  by (simp add: summarise_def Let_def filter_empty_conv)

lemma host_config_flag:
  "flag_rejected h (Some p) base \<Longrightarrow> host_config h (Some p) base = Inl err \<Longrightarrow>
     err = CliError (cli_error INVALID_INPUT) \<and> \<not> valid_path p"
  using validate_db_path_value_iff[of p]
  by (auto simp: flag_rejected_def host_config_def resolve_effective_config_def rejected_def Let_def
      and_then_def isl_def split: option.splits if_splits sum.splits)

lemma load_config_errors: "load_config_object fl = Inl err \<Longrightarrow>
    err = CliError (cli_error INVALID_INPUT) \<or> err = ValueError \<and> fl = File_undecodable"
  by (cases fl)
    (auto simp: load_config_object_def rejected_def validate_db_path_value_def split: json.splits option.splits if_splits)

lemma read_version_iff: "read_schema_version_non_mutating f = Version n \<longleftrightarrow> read_version f = Inr n"
  by (auto simp: read_schema_version_non_mutating_def read_version_def split: option.splits)

lemma current_schema_is_left_alone:
  assumes "read_version f = Inr SCHEMA_VERSION"
  shows "ensure_schema rounds f = Some (Inr (), f)"
  using assms by (cases rounds)
    (auto simp: ensure_schema_def read_version_def split: option.splits)

lemma ensure_schema_unchanged: "ensure_schema [] f = Some (Inr (), f) \<Longrightarrow> read_version f = Inr SCHEMA_VERSION"
  by (auto simp: ensure_schema_def create_schema_def SCHEMA_VERSION_def dbfile.defs
      split: option.splits sum.splits if_splits dest: arg_cong[of _ _ f_version])

lemma database_checks_fine: "(\<forall>c\<in>set (database_checks h p). ck_status c \<noteq> Fail) \<longleftrightarrow>
    h_exists h p \<and> h_isfile h p \<and> (\<exists>f. h_open h p = Some f \<and> read_version f = Inr SCHEMA_VERSION)"
  unfolding read_version_iff[symmetric]
  by (auto simp: database_checks_def doctor_defs split: option.splits schema_read.splits)

lemma directory_check_fine: "ck_status (directory_check h p) \<noteq> Fail \<longleftrightarrow>
    h_isdir h (db_directory p) \<and> h_writable h (db_directory p)"
  by (simp add: directory_check_def Let_def doctor_check_def db_directory_def)

lemma ck_sel [simp]: "ck_id (doctor_check i s) = i" "ck_status (doctor_check i s) = s"
  "ck_id (doctor_skip i j) = i" "ck_status (doctor_skip i j) = Skip"
  by (simp_all add: doctor_check_def doctor_skip_def)

lemma metadata_check:
  "contract_metadata_check parser_verbs = doctor_check Contract_metadata
     (if parser_verbs \<noteq> [] \<and> set (map fst parser_verbs) \<subseteq> set VERBS then Pass else Fail)"
proof -
  obtain schema_data where "build_schema None = Inr schema_data" using build_schema_known[of None] by auto
  moreover have "build_capabilities parser_verbs \<noteq> None \<longleftrightarrow> set (map fst parser_verbs) \<subseteq> set VERBS"
    using build_capabilities_iff[of parser_verbs] by blast
  ultimately show ?thesis by (auto simp: contract_metadata_check_def split: option.split)
qed

lemma database_checks_ids:
  "map ck_id (database_checks h p) = [Database_exists, Sqlite_open_readwrite, Schema_version]"
  by (auto simp: database_checks_def split: option.splits schema_read.splits)


text \<open>C29. The doctor's verdict is right: it reports ready exactly when the configuration resolves, the
  database's directory is there and writable, its file opens read/write and holds the current schema
  version, and the parser has verbs and no verb unknown to the contract. Then a command opens that file without migrating it. Every
  report has the same seven checks in the same order, and a check is skipped exactly for a named one
  that failed.\<close>

theorem doctor_verdict:
  assumes "doctor_operation h verbs flag base = Inr d"
  shows "(dd_ready d \<longleftrightarrow> (\<exists>e f. host_config h flag base = Inr e
        \<and> h_isdir h (db_directory (ec_db_path e)) \<and> h_writable h (db_directory (ec_db_path e))
        \<and> h_exists h (ec_db_path e) \<and> h_isfile h (ec_db_path e) \<and> h_open h (ec_db_path e) = Some f
        \<and> (\<forall>rounds. ensure_schema rounds f = Some (Inr (), f)) \<and> verbs \<noteq> [] \<and> set (map fst verbs) \<subseteq> set VERBS))
    \<and> map ck_id (dd_checks d) = [Config_valid, Db_path_resolved, Spool_directory_writable,
        Database_exists, Sqlite_open_readwrite, Schema_version, Contract_metadata]
    \<and> (\<forall>c\<in>set (dd_checks d). case ck_blocked_by c of None \<Rightarrow> ck_status c \<noteq> Skip
        | Some b \<Rightarrow> ck_status c = Skip \<and> doctor_check b Fail \<in> set (dd_checks d))"
proof (cases "host_config h flag base")
  case (Inl err)
  let ?cs = "[doctor_check Config_valid Fail, doctor_skip Db_path_resolved Config_valid,
      doctor_skip Spool_directory_writable Config_valid, doctor_skip Database_exists Config_valid,
      doctor_skip Sqlite_open_readwrite Config_valid, doctor_skip Schema_version Config_valid,
      contract_metadata_check verbs]"
  from Inl assms have d: "dd_checks d = ?cs" "dd_ready d = (ds_failed (summarise ?cs) = 0)"
    by (auto simp: doctor_operation_def doctor_report_def Let_def split: py_exn.splits if_splits)
  show ?thesis unfolding Inl d failed_0_iff
    by (auto simp: metadata_check) (auto simp: doctor_skip_def doctor_check_def)
next
  case (Inr e)
  let ?p = "ec_db_path e"
  let ?cs = "[doctor_check Config_valid Pass, doctor_check Db_path_resolved Pass,
      directory_check h ?p] @ database_checks h ?p @ [contract_metadata_check verbs]"
  from Inr assms have d: "dd_checks d = ?cs" "dd_ready d = (ds_failed (summarise ?cs) = 0)"
    by (auto simp: doctor_operation_def doctor_report_def)
  have opens: "(\<forall>rounds. ensure_schema rounds f = Some (Inr (), f)) \<longleftrightarrow> read_version f = Inr SCHEMA_VERSION" for f
  proof
    assume "\<forall>rounds. ensure_schema rounds f = Some (Inr (), f)"
    then show "read_version f = Inr SCHEMA_VERSION" using ensure_schema_unchanged by blast
  qed (simp add: current_schema_is_left_alone)
  have "(\<forall>c\<in>set ?cs. ck_status c \<noteq> Fail) \<longleftrightarrow> h_isdir h (db_directory ?p) \<and> h_writable h (db_directory ?p)
      \<and> (h_exists h ?p \<and> h_isfile h ?p \<and> (\<exists>f. h_open h ?p = Some f \<and> read_version f = Inr SCHEMA_VERSION))
      \<and> verbs \<noteq> [] \<and> set (map fst verbs) \<subseteq> set VERBS"
    using directory_check_fine[of h ?p] database_checks_fine[of h ?p]
    by (auto simp: metadata_check)
  then have ready: "dd_ready d \<longleftrightarrow> (\<exists>e f. host_config h flag base = Inr e
        \<and> h_isdir h (db_directory (ec_db_path e)) \<and> h_writable h (db_directory (ec_db_path e))
        \<and> h_exists h (ec_db_path e) \<and> h_isfile h (ec_db_path e) \<and> h_open h (ec_db_path e) = Some f
        \<and> (\<forall>rounds. ensure_schema rounds f = Some (Inr (), f)) \<and> verbs \<noteq> [] \<and> set (map fst verbs) \<subseteq> set VERBS)"
    unfolding d(2) failed_0_iff opens Inr by auto
  have ids: "map ck_id ?cs = [Config_valid, Db_path_resolved, Spool_directory_writable,
        Database_exists, Sqlite_open_readwrite, Schema_version, Contract_metadata]"
    by (simp add: database_checks_ids directory_check_def Let_def metadata_check)
  have skips: "\<forall>c\<in>set (database_checks h ?p). case ck_blocked_by c of None \<Rightarrow> ck_status c \<noteq> Skip
        | Some b \<Rightarrow> ck_status c = Skip \<and> doctor_check b Fail \<in> set (database_checks h ?p)"
    by (auto simp: database_checks_def doctor_check_def doctor_skip_def split: option.splits schema_read.splits)
  have rest: "\<forall>c\<in>set ?cs - set (database_checks h ?p). ck_blocked_by c = None \<and> ck_status c \<noteq> Skip"
    by (auto simp: directory_check_def Let_def metadata_check doctor_check_def)
  have "\<forall>c\<in>set ?cs. case ck_blocked_by c of None \<Rightarrow> ck_status c \<noteq> Skip
        | Some b \<Rightarrow> ck_status c = Skip \<and> doctor_check b Fail \<in> set ?cs"
  proof
    fix c assume c: "c \<in> set ?cs"
    show "case ck_blocked_by c of None \<Rightarrow> ck_status c \<noteq> Skip
        | Some b \<Rightarrow> ck_status c = Skip \<and> doctor_check b Fail \<in> set ?cs"
    proof (cases "c \<in> set (database_checks h ?p)")
      case True
      with skips show ?thesis by (force split: option.splits)
    next
      case False
      with rest c show ?thesis by (force split: option.splits)
    qed
  qed
  with ready ids show ?thesis unfolding d(1) by blast
qed

definition demo_host :: host where
  "demo_host = \<lparr>h_realpath = (\<lambda>p. p), h_config = (\<lambda>_. File_absent), h_getcwd = ''/'',
     h_environ_db = Some ''/q/queue.db'', h_isdir = (\<lambda>p. p = ''/q''), h_writable = (\<lambda>_. True),
     h_exists = (\<lambda>p. p = ''/q/queue.db''), h_isfile = (\<lambda>_. True),
     h_open = (\<lambda>_. Some (create_schema \<lparr>f_version = None, f_jobs = None, f_attempts = None,
       f_events = None, f_indexes = []\<rparr>))\<rparr>"

theorem doctor_verdict_witness:
  "\<exists>d. doctor_operation demo_host SUBPARSERS None (Some ''/work'') = Inr d \<and> dd_ready d
     \<and> length (dd_checks d) = 7 \<and> (\<exists>e. host_config demo_host None (Some ''/work'') = Inr e)"
proof -
  have host: "case host_config demo_host None (Some ''/work'') of Inl e \<Rightarrow> False
      | Inr e \<Rightarrow> list_all (\<lambda>c. ck_status c \<noteq> Fail) (directory_check demo_host (ec_db_path e)
          # database_checks demo_host (ec_db_path e))" by code_simp
  have "SUBPARSERS \<noteq> []" by (simp add: SUBPARSERS_def)
  moreover have "set (map fst SUBPARSERS) \<subseteq> set VERBS" by (rule equalityD1[OF subparsers_verbs(1)])
  ultimately have "contract_metadata_check SUBPARSERS = doctor_check Contract_metadata Pass"
    unfolding metadata_check by presburger
  with host have "case doctor_operation demo_host SUBPARSERS None (Some ''/work'') of
      Inl e \<Rightarrow> False | Inr d \<Rightarrow> dd_ready d"
    by (auto simp: doctor_operation_def doctor_report_def failed_0_iff list_all_iff split: sum.splits)
  then obtain d where d: "doctor_operation demo_host SUBPARSERS None (Some ''/work'') = Inr d"
    "dd_ready d" by (auto split: sum.splits)
  note v = doctor_verdict[OF d(1)]
  then have "map ck_id (dd_checks d) = [Config_valid, Db_path_resolved, Spool_directory_writable,
        Database_exists, Sqlite_open_readwrite, Schema_version, Contract_metadata]" by blast
  then have "length (map ck_id (dd_checks d)) = 7" by simp
  then have "length (dd_checks d) = 7" by simp
  with d v show ?thesis by blast
qed

text \<open>The doctor answers with a report instead of an error, whatever is wrong with the queue, with two
  exceptions: a path given by flag that is no valid path is refused as invalid input, and a project
  file that cannot be decoded escapes as an exception of the JSON reader.\<close>

theorem doctor_errors:
  assumes "doctor_operation h verbs flag (Some base) = Inl err"
  shows "err = CliError (cli_error INVALID_INPUT) \<and> (\<exists>p. flag = Some p \<and> \<not> valid_path p)
    \<or> err = ValueError \<and> h_config h (default_config_path (h_realpath h) base) = File_undecodable"
proof (cases "load_config_object (h_config h (default_config_path (h_realpath h) base))")
  case (Inl e)
  then have "host_config h flag (Some base) = Inl e" "\<not> flag_rejected h flag (Some base)"
    by (simp_all add: host_config_def resolve_effective_config_def flag_rejected_def)
  with assms load_config_errors[OF Inl] show ?thesis by (auto simp: doctor_operation_def Let_def)
next
  case (Inr r)
  obtain raw_obj exists where r: "r = (raw_obj, exists)" by fastforce
  with Inr resolve_loaded[of "h_config h" "h_realpath h" base raw_obj exists "h_getcwd h" "h_environ_db h" flag]
  have "host_config h flag (Some base) = rejected \<or> (\<exists>e. host_config h flag (Some base) = Inr e)"
    by (auto simp: host_config_def split: prod.splits)
  with assms have "host_config h flag (Some base) = rejected \<and> err = CliError (cli_error INVALID_INPUT)
      \<and> flag_rejected h flag (Some base)"
    by (auto simp: doctor_operation_def Let_def rejected_def split: if_splits)
  moreover from this obtain p where "flag = Some p" by (auto simp: flag_rejected_def)
  ultimately show ?thesis using host_config_flag[of h p "Some base"] by (auto simp: rejected_def)
qed

theorem doctor_errors_witness:
  "\<exists>err. doctor_operation (demo_host\<lparr>h_config := \<lambda>_. File_undecodable\<rparr>) SUBPARSERS None (Some ''/work'')
     = Inl err \<and> err = ValueError"
proof -
  let ?h = "demo_host\<lparr>h_config := \<lambda>_. File_undecodable\<rparr>"
  have "isl (doctor_operation ?h SUBPARSERS None (Some ''/work''))" by code_simp
  then obtain err where e: "doctor_operation ?h SUBPARSERS None (Some ''/work'') = Inl err"
    by (auto simp: isl_def)
  with doctor_errors[OF e] show ?thesis by auto
qed

end
