(* ===== verification/Cli.thy ===== *)
theory Cli
  imports Follow OperationsWrite Doctor Contract Worker
begin

text \<open>
  \<open>spoolctl/cli.py\<close>: the verbs with their argument checks and consent gates, the translation of parser
  failures and exceptions into contract errors, and \<open>main\<close> with its exit codes. Parsing itself is
  \<open>argparse\<close> of the standard library and enters as a parameter that gives its outcome on a command
  line; what it is given is \<open>SUBPARSERS\<close> of \<open>Parser\<close>. Of the output the model keeps the data, the warnings
  and whether an envelope, text or nothing is written; \<open>Payloads\<close> has the JSON.
\<close>

section \<open>Parser failures\<close>

definition flag_candidates :: "string list \<Rightarrow> string list" where
  "flag_candidates argv = sort (remdups ([''--help'', ''--version''] @
     (case argv of [] \<Rightarrow> [] | a # _ \<Rightarrow> (case map_of SUBPARSERS a of
         None \<Rightarrow> [] | Some actions \<Rightarrow> long_options actions))))"

definition first_word :: "string \<Rightarrow> py_exn + string" where
  \<comment> \<open>\<open>text.strip().split()[0]\<close>\<close>
  "first_word s = (if strip s = [] then Inl IndexError
     else Inr (takeWhile (\<lambda>c. \<not> is_space c) (strip s)))"

definition parser_exit_to_error :: "string \<Rightarrow> string list \<Rightarrow> py_exn + cli_error" where
  "parser_exit_to_error message argv =
     (if starts_with ''argument VERB:'' message \<and> substring ''invalid choice'' message \<and> argv \<noteq> [] then
        Inr (cli_error_with UNKNOWN_COMMAND EXIT_INPUT (suggest (hd argv) VERBS))
      else if starts_with ''argument '' message \<and> substring ''invalid choice'' message then
        Inr (cli_error INVALID_INPUT)
      else if substring ''invalid choice'' message \<and> argv \<noteq> [] then
        Inr (cli_error_with UNKNOWN_COMMAND EXIT_INPUT (suggest (hd argv) VERBS))
      else if starts_with ''unrecognized arguments:'' message then
        and_then (first_word (drop (length ''unrecognized arguments:'') message)) (\<lambda>bad.
          if starts_with ''-'' bad
          then Inr (cli_error_with UNKNOWN_FLAG EXIT_INPUT (suggest bad (flag_candidates argv)))
          else Inr (cli_error INVALID_INPUT))
      else Inr (cli_error (if substring ''required'' message then MISSING_REQUIRED else INVALID_INPUT)))"

section \<open>Parsed commands\<close>

record add_args =
  aa_shell_string :: "string option"
  aa_key :: "string option"
  aa_tag :: "string list"
  aa_note :: "string option"
  aa_after :: "string option"
  aa_at :: "string option"
  aa_priority :: string
  aa_queue :: string
  aa_timeout :: raw_int
  aa_max_retries :: raw_int
  aa_max_crashes :: "raw_int option"
  aa_cwd :: "string option"
  aa_env :: "string list"
  aa_argv :: "string list"

record work_args =
  ka_once :: bool
  ka_drain :: bool
  ka_poll_interval :: "raw_float option"
  ka_worker_id :: "string option"
  ka_queue :: string
  ka_slots :: "raw_int option"

record list_args =
  la_state :: "string option"
  la_tag :: "string list"
  la_queue :: "string option"
  la_priority_min :: "string option"
  la_limit :: raw_int

record prune_args =
  ra_older_than :: string
  ra_state :: string
  ra_dry_run :: bool
  ra_yes :: bool

record output_args =
  oa_stream :: "stream option"  \<comment> \<open>\<open>None\<close>: both\<close>
  oa_raw :: bool
  oa_attempt :: "raw_int option"

record events_args =
  ea_job :: "raw_int option"
  ea_since_id :: "raw_int option"
  ea_limit :: "raw_int option"
  ea_max_events :: "raw_int option"
  ea_idle_timeout :: "raw_float option"
  ea_wait :: bool
  ea_wait_timeout :: raw_float
  ea_follow :: bool
  ea_poll_interval :: raw_float

datatype command =
  C_add add_args | C_work work_args | C_wait "string list" "raw_float option" raw_float
| C_status raw_int | C_list list_args | C_show string
| C_retry string bool              \<comment> \<open>\<open>--force\<close>\<close>
| C_cancel string bool bool        \<comment> \<open>\<open>--running\<close>, \<open>--yes\<close>\<close>
| C_prune prune_args | C_output string output_args | C_feedback string "raw_int option"
| C_events events_args | C_config_show | C_config_validate "string option" | C_doctor
| C_brief | C_schema "string option" | C_capabilities | C_robot_docs "string option"

record parsed =
  pa_db :: "string option"
  pa_json :: "bool option"         \<comment> \<open>\<open>None\<close> when the namespace has no such attribute\<close>
  pa_command :: "command option"   \<comment> \<open>\<open>None\<close>: no verb\<close>

datatype parse_outcome = Parsed parsed | Parser_exit string | System_exit int
  \<comment> \<open>\<open>System_exit\<close>: \<open>--help\<close> and \<open>--version\<close>\<close>

section \<open>Results\<close>

datatype payload =
  P_none | P_add add_data | P_claimed "summary option" | P_drained bool nat | P_stopped
| P_wait wait_data | P_status status_data | P_list list_result | P_show show_result | P_retry int
| P_cancel cancel_data | P_prune prune_report | P_output output_result | P_raw bytes
| P_feedback feedback_data | P_events "event list" pagination "wait_reason option"
| P_followed "event list" follow_end | P_config effective_config | P_validation config_validation
| P_doctor doctor_data | P_document dict

record verb_result =
  vr_data :: payload
  vr_warnings :: "code list"
  vr_stdout_silent :: bool
  vr_exit_code :: int

definition result :: "payload \<Rightarrow> verb_result" where
  "result data = \<lparr>vr_data = data, vr_warnings = [], vr_stdout_silent = False, vr_exit_code = EXIT_OK\<rparr>"

text \<open>What one command finds: the host, the queue with what others commit between its statements, the
  output files, and what its loops observe.\<close>

record world =
  w_host :: host
  w_connect :: "string \<Rightarrow> py_exn + unit"   \<comment> \<open>\<open>store.connect\<close> on a path\<close>
  w_now :: pyfloat
  w_env :: "string \<Rightarrow> string option"
  w_fromiso :: "string \<Rightarrow> pyfloat option"
  w_decode :: "bytes \<Rightarrow> string"
  w_read :: "string \<Rightarrow> file_read"
  w_db :: db
  w_others :: "nat \<Rightarrow> db \<Rightarrow> db"
  w_disk :: disk
  w_refused :: "string \<Rightarrow> bool"
  w_monotonic :: pyfloat
  w_wait_turns :: "(snapshot \<times> pyfloat) list"
  w_event_turns :: "(db \<times> pyfloat) list"
  w_rounds :: "round list"
  w_default_worker_id :: string
  w_cycle :: cycle
  w_turns :: "turn list"

primrec moment :: "world \<Rightarrow> nat \<Rightarrow> db" where
  \<comment> \<open>the queue as a reading command finds it at its n-th statement\<close>
  "moment w 0 = w_db w"
| "moment w (Suc n) = w_others w n (moment w n)"

record outcome =
  oc_result :: "py_exn + verb_result"
  oc_db :: db
  oc_disk :: disk

definition answers :: "world \<Rightarrow> py_exn + verb_result \<Rightarrow> outcome" where
  \<comment> \<open>a command that has written nothing\<close>
  "answers w r = \<lparr>oc_result = r, oc_db = w_db w, oc_disk = w_disk w\<rparr>"

definition db_path :: "world \<Rightarrow> string option \<Rightarrow> py_exn + string" where
  "db_path w flag = resolve_db_path (h_realpath (w_host w)) (h_config (w_host w)) (h_getcwd (w_host w))
     (h_environ_db (w_host w)) flag (Some (h_getcwd (w_host w)))"

definition open_db :: "world \<Rightarrow> string option \<Rightarrow> py_exn + unit" where
  "open_db w flag = connect_db (db_path w flag) (w_connect w)"

definition reading :: "world \<Rightarrow> string option \<Rightarrow> (unit \<Rightarrow> py_exn + verb_result) \<Rightarrow> outcome" where
  "reading w flag body = answers w (and_then (open_db w flag) body)"

definition writing :: "world \<Rightarrow> string option \<Rightarrow> (unit \<Rightarrow> outcome) \<Rightarrow> outcome" where
  "writing w flag body = (case open_db w flag of Inl e \<Rightarrow> answers w (Inl e) | Inr u \<Rightarrow> body u)"

definition checked :: "world \<Rightarrow> py_exn + 'a \<Rightarrow> ('a \<Rightarrow> outcome) \<Rightarrow> outcome" where
  "checked w args body = (case args of Inl e \<Rightarrow> answers w (Inl e) | Inr v \<Rightarrow> body v)"

fun optionally :: "('a \<Rightarrow> py_exn + 'b) \<Rightarrow> 'a option \<Rightarrow> py_exn + 'b option" where
  "optionally f None = Inr None"
| "optionally f (Some v) = and_then (f v) (\<lambda>x. Inr (Some x))"

section \<open>Add and work\<close>

definition add_command :: "bool \<Rightarrow> add_args \<Rightarrow> py_exn + string list" where
  \<comment> \<open>whether the command line has \<open>--\<close> after the verb; the command to run\<close>
  "add_command explicit a =
     (let dashes = (case aa_argv a of [] \<Rightarrow> False | t # _ \<Rightarrow> t = ''--'');
          boundary = (explicit \<or> dashes);
          argv = (if dashes then tl (aa_argv a) else aa_argv a)
      in case aa_shell_string a of
           Some s \<Rightarrow> if argv \<noteq> [] then invalid
             else if strip s = [] then Inl (CliError (cli_error MISSING_REQUIRED))
             else Inr [''sh'', ''-c'', s]
         | None \<Rightarrow> if argv \<noteq> [] then
               (if \<not> boundary \<and> (\<exists>t\<in>set argv. starts_with ''-'' t) then invalid else Inr argv)
             else Inl (CliError (cli_error MISSING_REQUIRED)))"

definition add_schedule :: "world \<Rightarrow> add_args \<Rightarrow> py_exn + pyfloat option" where
  "add_schedule w a = (case aa_after a of
       Some text \<Rightarrow> and_then (parse_after text) (\<lambda>s. Inr (Some (fadd (w_now w) s)))
     | None \<Rightarrow> (case aa_at a of
         Some text \<Rightarrow> and_then (parse_at (w_fromiso w) text) (\<lambda>t. Inr (Some (max t (w_now w))))
       | None \<Rightarrow> Inr None))"

definition add_submission :: "world \<Rightarrow> bool \<Rightarrow> add_args \<Rightarrow> py_exn + submission" where
  "add_submission w explicit a =
     and_then (add_command explicit a) (\<lambda>job_argv.
     and_then (parse_int_bound 1 SQLITE_INT64_MAX (aa_timeout a)) (\<lambda>timeout.
     and_then (parse_int_bound 0 SQLITE_INT64_MAX (aa_max_retries a)) (\<lambda>max_retries.
     and_then (optionally (parse_int_bound 0 SQLITE_INT64_MAX) (aa_max_crashes a)) (\<lambda>max_crashes.
     if timeout \<le> 0 then invalid
     else if max_retries < 0 then invalid
     else if (case max_crashes of None \<Rightarrow> False | Some m \<Rightarrow> m < 0) then invalid
     else if aa_after a \<noteq> None \<and> aa_at a \<noteq> None then invalid
     else
     and_then (parse_priority (IntText (aa_priority a))) (\<lambda>priority.
     and_then (parse_queue (aa_queue a)) (\<lambda>queue.
     and_then (normalize_key (aa_key a)) (\<lambda>key.
     and_then (parse_add_tags (aa_tag a)) (\<lambda>tags.
     and_then (parse_job_cwd (h_getcwd (w_host w)) None (aa_cwd a)) (\<lambda>cwd.
     and_then (parse_job_env (aa_env a)) (\<lambda>env.
     if (case aa_note a of None \<Rightarrow> False | Some n \<Rightarrow> length n > 10000) then invalid
     else
     and_then (add_schedule w a) (\<lambda>next_run_at.
     Inr \<lparr>s_argv = job_argv, s_timeout_seconds = timeout, s_max_retries = max_retries,
       s_idempotency_key = key, s_tags = Some tags, s_note = aa_note a, s_priority = priority,
       s_queue = queue, s_next_run_at = next_run_at, s_cwd = cwd, s_env = Some env,
       s_max_crashes = max_crashes\<rparr>)))))))))))"

definition cmd_add :: "world \<Rightarrow> string option \<Rightarrow> bool \<Rightarrow> add_args \<Rightarrow> outcome" where
  "cmd_add w flag explicit a = checked w (add_submission w explicit a) (\<lambda>s. writing w flag (\<lambda>_.
     case add_operation s (w_now w) (w_db w) (w_others w 0) of (r, d') \<Rightarrow>
       \<lparr>oc_result = and_then r (\<lambda>data. Inr ((result (P_add data))\<lparr>vr_warnings := ad_warnings data\<rparr>)),
        oc_db = d', oc_disk = w_disk w\<rparr>))"

record work_plan =
  wp_lane :: string
  wp_slots :: "int option"
  wp_worker_id :: string
  wp_db_path :: string

definition plan_work :: "world \<Rightarrow> string option \<Rightarrow> work_args \<Rightarrow> py_exn + work_plan" where
  "plan_work w flag a =
     and_then (validate_positive_float_env ''SPOOLCTL_TEST_HEARTBEAT_INTERVAL'' (w_env w)) (\<lambda>_.
     and_then (validate_positive_float_env ''SPOOLCTL_TEST_REAP_THRESHOLD'' (w_env w)) (\<lambda>_.
     and_then (optionally (parse_positive_float MAX_POLL_INTERVAL_SECONDS) (ka_poll_interval a)) (\<lambda>poll.
     if ka_drain a \<and> ka_once a then invalid
     else
     and_then (parse_queue (ka_queue a)) (\<lambda>lane.
     and_then (optionally (parse_int_bound 1 SQLITE_INT64_MAX) (ka_slots a)) (\<lambda>slots.
     and_then (parse_worker_id (ka_worker_id a)) (\<lambda>worker_id.
     and_then (db_path w flag) (\<lambda>path.
     Inr \<lparr>wp_lane = lane, wp_slots = slots,
       wp_worker_id = (case worker_id of None \<Rightarrow> w_default_worker_id w | Some i \<Rightarrow> i),
       wp_db_path = path\<rparr>)))))))"

definition cmd_work :: "world \<Rightarrow> string option \<Rightarrow> work_args \<Rightarrow> outcome option" where
  \<comment> \<open>opens the database itself, without the translation of \<open>connect_db\<close>; \<open>None\<close> while still running\<close>
  "cmd_work w flag a = (case plan_work w flag a of Inl e \<Rightarrow> Some (answers w (Inl e)) | Inr p \<Rightarrow>
     (case w_connect w (wp_db_path p) of Inl e \<Rightarrow> Some (answers w (Inl e)) | Inr u \<Rightarrow>
       if ka_once a then
         (case process_one (w_cycle w) (output_root (wp_db_path p)) (wp_worker_id p) (wp_lane p)
             (wp_slots p) (w_db w) of (r, d') \<Rightarrow>
           Some \<lparr>oc_result = and_then r (\<lambda>summary. Inr (result (P_claimed summary))), oc_db = d',
             oc_disk = w_disk w\<rparr>)
       else map_option (\<lambda>(r, d').
           \<lparr>oc_result = and_then r (\<lambda>(drained, executed).
              Inr (if ka_drain a then result (P_drained drained executed)
                   else (result P_stopped)\<lparr>vr_stdout_silent := True\<rparr>)),
            oc_db = d', oc_disk = w_disk w\<rparr>)
         (work_loop (output_root (wp_db_path p)) (wp_worker_id p) (ka_drain a) (wp_lane p)
           (wp_slots p) (w_turns w) 0 (w_db w))))"

section \<open>Reading verbs\<close>

definition cmd_status :: "world \<Rightarrow> string option \<Rightarrow> raw_int \<Rightarrow> outcome" where
  "cmd_status w flag limit = checked w (parse_int_bound 0 STATUS_LIMIT_MAX limit) (\<lambda>limit.
     reading w flag (\<lambda>_. Inr (result (P_status
       (status_operation limit (w_now w) (moment w 0) (moment w 1))))))"

definition list_query :: "list_args \<Rightarrow> py_exn +
    job_state list option \<times> (string \<times> string option) list \<times> string option \<times> int option \<times> int" where
  "list_query a =
     and_then (parse_states (la_state a)) (\<lambda>states.
     and_then (parse_list_tags (la_tag a)) (\<lambda>tag_predicates.
     and_then (optionally parse_queue (la_queue a)) (\<lambda>queue.
     and_then (optionally (\<lambda>t. parse_priority (IntText t)) (la_priority_min a)) (\<lambda>priority_min.
     and_then (parse_int_bound 0 LIST_LIMIT_MAX (la_limit a)) (\<lambda>limit.
     Inr (states, tag_predicates, queue, priority_min, if limit = 0 then LIST_LIMIT_MAX else limit))))))"

definition cmd_list :: "world \<Rightarrow> string option \<Rightarrow> list_args \<Rightarrow> outcome" where
  "cmd_list w flag a = checked w (list_query a) (\<lambda>(states, preds, queue, priority_min, effective_limit).
     reading w flag (\<lambda>_.
       let r = list_operation states preds queue priority_min effective_limit (moment w 0) (moment w 1)
       in Inr ((result (P_list r))\<lparr>vr_warnings :=
         (if lr_scan_capped r then [TAG_FILTER_SCAN_CAPPED] else [])\<rparr>)))"

definition cmd_show :: "world \<Rightarrow> string option \<Rightarrow> string \<Rightarrow> outcome" where
  "cmd_show w flag i = checked w (job_id_arg i) (\<lambda>job_id. reading w flag (\<lambda>_.
     and_then (show_operation job_id (moment w 0) (moment w 1) (moment w 2)) (\<lambda>r.
       Inr (result (P_show r)))))"

definition cmd_wait :: "world \<Rightarrow> string option \<Rightarrow> string list \<Rightarrow> raw_float option \<Rightarrow> raw_float
    \<Rightarrow> outcome option" where
  "cmd_wait w flag raw_ids raw_timeout raw_poll =
     (case and_then (each (\<lambda>raw ids. and_then (job_id_arg raw) (\<lambda>i. Inr (ids @ [i]))) raw_ids []) (\<lambda>ids.
        and_then (optionally (parse_positive_float MAX_WAIT_SECONDS) raw_timeout) (\<lambda>timeout.
        and_then (parse_positive_float MAX_POLL_INTERVAL_SECONDS raw_poll) (\<lambda>poll.
        and_then (open_db w flag) (\<lambda>_. Inr (ids, timeout))))) of
       Inl e \<Rightarrow> Some (answers w (Inl e))
     | Inr (ids, timeout) \<Rightarrow> map_option (\<lambda>r. answers w (and_then r (\<lambda>data.
          Inr ((result (P_wait data))\<lparr>vr_exit_code :=
            (if wd_all_succeeded data then EXIT_OK else EXIT_JOB_FAILURE)\<rparr>))))
          (wait_operation ids timeout (\<lambda>_. w_db w) (w_monotonic w) (w_wait_turns w)))"

definition cmd_output :: "world \<Rightarrow> string option \<Rightarrow> bool \<Rightarrow> string \<Rightarrow> output_args \<Rightarrow> outcome" where
  \<comment> \<open>with \<open>args.json\<close>\<close>
  "cmd_output w flag json i a =
     checked w (and_then (job_id_arg i) (\<lambda>job_id.
       and_then (optionally (parse_int_bound 1 SQLITE_INT64_MAX) (oa_attempt a)) (\<lambda>attempt_no.
       if oa_raw a \<and> json then invalid
       else if oa_raw a \<and> oa_stream a = None then invalid
       else Inr (job_id, attempt_no)))) (\<lambda>(job_id, attempt_no).
     reading w flag (\<lambda>_.
       and_then (output_operation (w_decode w) (w_read w) job_id attempt_no
           (case oa_stream a of None \<Rightarrow> [Stdout, Stderr] | Some s \<Rightarrow> [s]) (moment w 0) (moment w 1)) (\<lambda>r.
       Inr (case r of
           No_attempts \<Rightarrow> (result (P_output r))\<lparr>vr_warnings := [NO_ATTEMPTS_YET]\<rparr>
         | Output data \<Rightarrow>
             if oa_raw a then (result (P_raw (snd (hd (od_bytes data)))))\<lparr>vr_stdout_silent := True\<rparr>
             else if json then result (P_output r)
             else result P_none))))"

definition cmd_feedback :: "world \<Rightarrow> string option \<Rightarrow> string \<Rightarrow> raw_int option \<Rightarrow> outcome" where
  "cmd_feedback w flag i raw_tail =
     checked w (and_then (job_id_arg i) (\<lambda>job_id.
       and_then (case raw_tail of None \<Rightarrow> Inr FEEDBACK_TAIL_BYTES
         | Some t \<Rightarrow> parse_int_bound 1 FEEDBACK_TAIL_MAX t) (\<lambda>tail_bytes. Inr (job_id, tail_bytes))))
     (\<lambda>(job_id, tail_bytes). reading w flag (\<lambda>_.
       and_then (feedback_operation (w_decode w) (w_read w) job_id tail_bytes (moment w 0) (moment w 1)) (\<lambda>f.
       Inr ((result (P_feedback f))\<lparr>vr_warnings :=
         (if fd_no_attempts_yet f then [NO_ATTEMPTS_YET] else [])\<rparr>))))"

section \<open>Events\<close>

record events_query =
  eq_job :: "int option"
  eq_since_id :: "int option"
  eq_limit :: "int option"
  eq_max_events :: "int option"
  eq_idle_timeout :: "pyfloat option"
  eq_wait_timeout :: pyfloat

definition validate_events_args :: "events_args \<Rightarrow> py_exn + events_query" where
  "validate_events_args a =
     and_then (optionally (parse_int_bound 1 SQLITE_INT64_MAX) (ea_job a)) (\<lambda>job.
     and_then (optionally (parse_int_bound 0 SQLITE_INT64_MAX) (ea_since_id a)) (\<lambda>since_id.
     and_then (optionally (parse_int_bound 0 EVENT_LIMIT_MAX) (ea_limit a)) (\<lambda>limit.
     and_then (optionally (parse_int_bound 1 EVENT_LIMIT_MAX) (ea_max_events a)) (\<lambda>max_events.
     and_then (optionally (parse_positive_float MAX_WAIT_SECONDS) (ea_idle_timeout a)) (\<lambda>idle_timeout.
     and_then (parse_positive_float MAX_POLL_INTERVAL_SECONDS (ea_poll_interval a)) (\<lambda>poll_interval.
     and_then (parse_positive_float MAX_WAIT_SECONDS (ea_wait_timeout a)) (\<lambda>wait_timeout.
     if (case job of None \<Rightarrow> False | Some j \<Rightarrow> j \<le> 0) then invalid
     else if (case since_id of None \<Rightarrow> False | Some s \<Rightarrow> s < 0) then invalid
     else if (case limit of None \<Rightarrow> False | Some l \<Rightarrow> l < 0) then invalid
     else if poll_interval \<le> 0 then invalid
     else if wait_timeout \<le> 0 then invalid
     else if ea_follow a \<and> ea_wait a then invalid
     else if ea_follow a \<and> limit \<noteq> None then invalid
     else if \<not> ea_follow a \<and> max_events \<noteq> None then invalid
     else if \<not> ea_follow a \<and> idle_timeout \<noteq> None then invalid
     else Inr \<lparr>eq_job = job, eq_since_id = since_id, eq_limit = limit, eq_max_events = max_events,
       eq_idle_timeout = idle_timeout, eq_wait_timeout = wait_timeout\<rparr>)))))))"

definition follow_result :: "event list \<Rightarrow> follow_end \<Rightarrow> verb_result" where
  "follow_result frames reason = \<lparr>vr_data = P_followed frames reason, vr_warnings = [],
     vr_stdout_silent = True,
     vr_exit_code = (if reason = Sqlite_error then EXIT_ENVIRONMENT else EXIT_OK)\<rparr>"

definition cmd_events :: "world \<Rightarrow> string option \<Rightarrow> events_args \<Rightarrow> outcome option" where
  "cmd_events w flag a =
     (case and_then (validate_events_args a) (\<lambda>q. and_then (open_db w flag) (\<lambda>_. Inr q)) of
       Inl e \<Rightarrow> Some (answers w (Inl e))
     | Inr q \<Rightarrow>
         if ea_follow a then map_option (\<lambda>(frames, reason). answers w (Inr (follow_result frames reason)))
           (run_events_follow (eq_since_id q) (eq_job q) (eq_idle_timeout q) (eq_max_events q) (w_db w)
             (w_monotonic w) (w_rounds w))
         else map_option (\<lambda>((events, pg), reason). answers w (Inr (result (P_events events pg reason))))
           (events_operation (case eq_since_id q of None \<Rightarrow> 0 | Some s \<Rightarrow> s) (eq_job q)
             (case eq_limit q of None \<Rightarrow> 1000 | Some l \<Rightarrow> l)
             (if ea_wait a then Some (w_monotonic w, eq_wait_timeout q) else None)
             (w_event_turns w) (moment w 0) (moment w 1) (moment w 2)))"

section \<open>Retry, cancel, prune\<close>

definition cmd_retry :: "world \<Rightarrow> string option \<Rightarrow> string \<Rightarrow> bool \<Rightarrow> outcome" where
  "cmd_retry w flag i force = checked w (job_id_arg i) (\<lambda>job_id. writing w flag (\<lambda>_.
     case retry_operation job_id force (w_now w) (w_db w) of (r, d') \<Rightarrow>
       \<lparr>oc_result = and_then r (\<lambda>i. Inr (result (P_retry i))), oc_db = d', oc_disk = w_disk w\<rparr>))"

definition cmd_cancel :: "world \<Rightarrow> string option \<Rightarrow> string \<Rightarrow> bool \<Rightarrow> bool \<Rightarrow> outcome" where
  "cmd_cancel w flag i running yes =
     checked w (and_then (job_id_arg i) (\<lambda>job_id.
       if running \<and> \<not> yes then fails SAFETY_BLOCK EXIT_SAFETY else Inr job_id)) (\<lambda>job_id.
     writing w flag (\<lambda>_.
       case cancel_operation job_id running (w_now w) (w_db w) of (r, d') \<Rightarrow>
         \<lparr>oc_result = and_then r (\<lambda>data. Inr ((result (P_cancel data))\<lparr>vr_warnings := cd_warnings data\<rparr>)),
          oc_db = d', oc_disk = w_disk w\<rparr>))"

definition prune_query :: "prune_args \<Rightarrow> py_exn + pyfloat \<times> job_state list" where
  "prune_query a =
     and_then (parse_duration (ra_older_than a)) (\<lambda>seconds.
     and_then (parse_prune_states (ra_state a)) (\<lambda>states.
     if ra_yes a \<and> ra_dry_run a then invalid
     else if \<not> ra_yes a \<and> \<not> ra_dry_run a then fails SAFETY_BLOCK EXIT_SAFETY
     else Inr (seconds, states)))"

definition cmd_prune :: "world \<Rightarrow> string option \<Rightarrow> prune_args \<Rightarrow> outcome" where
  "cmd_prune w flag a = checked w (prune_query a) (\<lambda>(seconds, states). writing w flag (\<lambda>_.
     case prune_operation (w_refused w) states (fsub (w_now w) seconds) (ra_dry_run a) (w_db w)
         (w_others w 0 (w_db w)) (w_disk w) of (report, k', d') \<Rightarrow>
       \<lparr>oc_result = Inr (result (P_prune report)), oc_db = d', oc_disk = k'\<rparr>))"

section \<open>Configuration, doctor, documents\<close>

definition cmd_config_show :: "world \<Rightarrow> string option \<Rightarrow> outcome" where
  "cmd_config_show w flag = answers w
     (and_then (config_show_operation (w_host w) flag (Some (h_getcwd (w_host w)))) (\<lambda>e.
       Inr (result (P_config e))))"

definition cmd_config_validate :: "world \<Rightarrow> string option \<Rightarrow> outcome" where
  "cmd_config_validate w path = answers w
     (and_then (config_validate_operation (w_host w) path (Some (h_getcwd (w_host w)))) (\<lambda>v.
       Inr (result (P_validation v))))"

definition cmd_doctor :: "world \<Rightarrow> string option \<Rightarrow> outcome" where
  "cmd_doctor w flag = answers w
     (and_then (doctor_operation (w_host w) SUBPARSERS flag
         (Some (h_getcwd (w_host w)))) (\<lambda>d.
       Inr ((result (P_doctor d))\<lparr>vr_exit_code := (if dd_ready d then EXIT_OK else EXIT_ENVIRONMENT)\<rparr>)))"

definition cmd_brief :: "world \<Rightarrow> outcome option" where
  \<comment> \<open>\<open>None\<close> while the estimate has not settled\<close>
  "cmd_brief w = map_option (\<lambda>data. answers w (Inr (result (P_document data)))) brief_data"

definition cmd_capabilities :: "world \<Rightarrow> outcome" where
  "cmd_capabilities w = answers w (case build_capabilities SUBPARSERS of
       None \<Rightarrow> Inl KeyError | Some data \<Rightarrow> Inr (result (P_document data)))"

definition cmd_robot_docs :: "world \<Rightarrow> string option \<Rightarrow> outcome" where
  "cmd_robot_docs w sub = answers w (if sub \<noteq> Some ''guide''
     then Inl (CliError (cli_error MISSING_REQUIRED)) else Inr (result (P_document build_robot_docs)))"

definition cmd_schema :: "world \<Rightarrow> string option \<Rightarrow> outcome" where
  "cmd_schema w v = answers w (and_then (build_schema v) (\<lambda>data. Inr (result (P_document data))))"

section \<open>\<open>main\<close>\<close>

definition dispatch :: "world \<Rightarrow> string option \<Rightarrow> bool \<Rightarrow> bool \<Rightarrow> command \<Rightarrow> outcome option" where
  \<comment> \<open>\<open>--db\<close>, \<open>args.json\<close>, the explicit boundary of add; \<open>None\<close> while the command has not ended\<close>
  "dispatch w flag json explicit c = (case c of
       C_add a \<Rightarrow> Some (cmd_add w flag explicit a)
     | C_work a \<Rightarrow> cmd_work w flag a
     | C_wait ids timeout interval \<Rightarrow> cmd_wait w flag ids timeout interval
     | C_status limit \<Rightarrow> Some (cmd_status w flag limit)
     | C_list a \<Rightarrow> Some (cmd_list w flag a)
     | C_show i \<Rightarrow> Some (cmd_show w flag i)
     | C_retry i force \<Rightarrow> Some (cmd_retry w flag i force)
     | C_cancel i running yes \<Rightarrow> Some (cmd_cancel w flag i running yes)
     | C_prune a \<Rightarrow> Some (cmd_prune w flag a)
     | C_output i a \<Rightarrow> Some (cmd_output w flag json i a)
     | C_feedback i tail \<Rightarrow> Some (cmd_feedback w flag i tail)
     | C_events a \<Rightarrow> cmd_events w flag a
     | C_config_show \<Rightarrow> Some (cmd_config_show w flag)
     | C_config_validate path \<Rightarrow> Some (cmd_config_validate w path)
     | C_doctor \<Rightarrow> Some (cmd_doctor w flag)
     | C_brief \<Rightarrow> cmd_brief w
     | C_schema v \<Rightarrow> Some (cmd_schema w v)
     | C_capabilities \<Rightarrow> Some (cmd_capabilities w)
     | C_robot_docs sub \<Rightarrow> Some (cmd_robot_docs w sub))"

fun json_requested :: "string list \<Rightarrow> bool" where
  "json_requested [] = False"
| "json_requested (tok # argv) = (if tok = ''--'' then False
     else if tok = ''--json'' \<or> starts_with ''--json='' tok then True else json_requested argv)"

definition explicit_add_boundary :: "string list \<Rightarrow> bool" where
  "explicit_add_boundary argv = (''--'' \<in> set (tl (dropWhile (\<lambda>t. t \<noteq> ''add'') argv)))"

definition json_token :: "string \<Rightarrow> bool" where
  "json_token tok \<longleftrightarrow> tok = ''--json'' \<or> starts_with ''--json='' tok"

definition verbless_error :: "string list \<Rightarrow> cli_error option" where
  "verbless_error argv =
     (if argv = [] then Some (cli_error MISSING_REQUIRED)
      else if argv \<in> {[''--help''], [''-h''], [''--version'']} then None
      else if \<exists>t\<in>set argv. t \<in> set VERBS then None
      else case find (\<lambda>t. starts_with ''-'' t \<and> \<not> json_token t) argv of
          Some tok \<Rightarrow> Some (cli_error_with UNKNOWN_FLAG EXIT_INPUT
            (suggest tok [''--help'', ''--version'', ''--json'']))
        | None \<Rightarrow> if list_all json_token argv then Some (cli_error MISSING_REQUIRED) else None)"

definition exception_error :: "py_exn \<Rightarrow> cli_error" where
  \<comment> \<open>the \<open>except\<close> clauses\<close>
  "exception_error x = (case x of
       CliError e \<Rightarrow> e
     | SchemaTooNewError n \<Rightarrow> cli_error_with INTERNAL EXIT_ENVIRONMENT None
     | OperationalError text \<Rightarrow>
         if substring ''locked'' text \<or> substring ''busy'' text
         then cli_error_with LOCKED EXIT_TRANSIENT None
         else cli_error_with INTERNAL EXIT_ENVIRONMENT None
     | _ \<Rightarrow> cli_error_with INTERNAL EXIT_ENVIRONMENT None)"

datatype stdout = Silent | Text | Envelope payload "code list" "cli_error option"
  \<comment> \<open>an envelope's \<open>ok\<close> is the absence of an error\<close>

record process =
  ps_exit :: int
  ps_stdout :: stdout
  ps_error :: "cli_error option"   \<comment> \<open>reported on stderr\<close>
  ps_db :: db
  ps_disk :: disk

definition emit_failure :: "cli_error \<Rightarrow> bool \<Rightarrow> db \<Rightarrow> disk \<Rightarrow> process" where
  "emit_failure err json_mode d k = \<lparr>ps_exit = err_exit err,
     ps_stdout = (if json_mode then Envelope P_none [] (Some err) else Silent), ps_error = Some err,
     ps_db = d, ps_disk = k\<rparr>"

definition emit_result :: "verb_result \<Rightarrow> bool \<Rightarrow> db \<Rightarrow> disk \<Rightarrow> process" where
  "emit_result r json_mode d k = \<lparr>ps_exit = vr_exit_code r,
     ps_stdout = (if vr_stdout_silent r then Silent
       else if json_mode then Envelope (vr_data r) (vr_warnings r) None else Text),
     ps_error = None, ps_db = d, ps_disk = k\<rparr>"

definition main :: "world \<Rightarrow> (string list \<Rightarrow> parse_outcome) \<Rightarrow> string list \<Rightarrow> process option" where
  \<comment> \<open>what \<open>parser.parse_args\<close> does on the arguments; \<open>None\<close> while the command has not ended\<close>
  "main w parse argv =
     (let json_mode = json_requested argv;
          failure = (\<lambda>err json. Some (emit_failure err json (w_db w) (w_disk w)))
      in case verbless_error argv of
        Some err \<Rightarrow> failure err json_mode
      | None \<Rightarrow> (case parse argv of
          Parser_exit message \<Rightarrow> (case parser_exit_to_error message argv of
              Inl x \<Rightarrow> failure (exception_error x) json_mode
            | Inr err \<Rightarrow> failure err json_mode)
        | System_exit code \<Rightarrow> Some \<lparr>ps_exit = code, ps_stdout = Text, ps_error = None,
            ps_db = w_db w, ps_disk = w_disk w\<rparr>
        | Parsed p \<Rightarrow> (case pa_command p of
            None \<Rightarrow> failure (cli_error MISSING_REQUIRED) json_mode
          | Some c \<Rightarrow>
              let json = (case pa_json p of None \<Rightarrow> json_mode | Some j \<Rightarrow> j)
              in map_option (\<lambda>oc. case oc_result oc of
                   Inl x \<Rightarrow> emit_failure (exception_error x) json (oc_db oc) (oc_disk oc)
                 | Inr r \<Rightarrow> emit_result r json (oc_db oc) (oc_disk oc))
               (dispatch w (pa_db p) json (explicit_add_boundary argv) c))))"

section \<open>Every error is a published one\<close>

definition sound :: "py_exn + 'a \<Rightarrow> bool" where
  \<comment> \<open>if a contract error, then one of the registry with its exit code\<close>
  "sound r \<longleftrightarrow> (\<forall>e. r = Inl (CliError e) \<longrightarrow> published (CliError e))"

named_theorems sound_rules

lemma soundI: "(\<And>e. r = Inl e \<Longrightarrow> published e) \<Longrightarrow> sound r"
  by (simp add: sound_def)

lemma sound_Inr [simp, sound_rules]: "sound (Inr v)"
  by (simp add: sound_def)

lemma sound_Inl [simp]: "sound (Inl x) \<longleftrightarrow> (case x of CliError e \<Rightarrow> published (CliError e) | _ \<Rightarrow> True)"
  by (auto simp: sound_def split: py_exn.split)

lemma sound_and_then [sound_rules]:
  "sound r \<Longrightarrow> (\<And>v. r = Inr v \<Longrightarrow> sound (f v)) \<Longrightarrow> sound (and_then r f)"
  by (auto simp: sound_def and_then_eq_Inl)

lemma sound_invalid [simp, sound_rules]: "sound invalid" "sound (invalid_hint d)" "sound rejected" "sound not_found"
  by (auto simp: sound_def invalid_def invalid_hint_def rejected_def not_found_def exit_defs)

lemma sound_fails [simp]: "sound (fails c x) \<longleftrightarrow> reg_in_errors (CODE_REGISTRY c) \<and> reg_exit (CODE_REGISTRY c) = Some x"
  by (simp add: fails_def)

lemma sound_optionally [sound_rules]: "(\<And>v. sound (f v)) \<Longrightarrow> sound (optionally f x)"
  by (cases x) (auto intro: sound_rules)

lemma sound_each [sound_rules]: "(\<And>r s. sound (body r s)) \<Longrightarrow> sound (each body rs s)"
  by (induction body rs s rule: each.induct) (auto intro: sound_rules)

lemma sound_if [sound_rules]: "(c \<Longrightarrow> sound r) \<Longrightarrow> (\<not> c \<Longrightarrow> sound r') \<Longrightarrow> sound (if c then r else r')"
  by simp

lemma sound_missing [simp]: "sound (Inl (CliError (cli_error MISSING_REQUIRED)))"
  by (simp add: exit_defs)

text \<open>The parsers.\<close>

lemma sound_parse_int_bound [simp, sound_rules]: "sound (parse_int_bound lo hi raw)"
  unfolding parse_int_bound_def by (intro sound_rules) (auto split: raw_int.split option.split)

lemma sound_parsers [simp, sound_rules]:
  "sound (normalize_key k)" "sound (parse_tag_key s)" "sound (parse_add_tags ss)" "sound (parse_job_env ss)"
  "sound (parse_job_cwd getcwd base k)" "sound (parse_worker_id k)" "sound (parse_positive_float maximum rf)"
  "sound (parse_queue s)" "sound (parse_duration_seconds s)" "sound (parse_states k)" "sound (parse_prune_states s)"
  using parser_errors_published by (blast intro: soundI)+

lemma sound_more_parsers [simp, sound_rules]:
  "sound (parse_priority raw)" "sound (job_id_arg s)" "sound (parse_after s)" "sound (parse_duration s)"
  "sound (validate_positive_float_env n env)" "sound (parse_list_tags ss)" "sound (parse_at fromiso s)"
proof -
  show "sound (parse_list_tags ss)"
    by (induction ss rule: parse_list_tags.induct) (auto simp: Let_def split: prod.split intro!: sound_rules)
  have "sound (finite_decimal True raw)" for raw
    by (auto simp: finite_decimal_def split: option.split py_float_val.split)
  then show "sound (parse_at fromiso s)"
    by (auto simp: parse_at_def Let_def split: option.split intro!: sound_rules)
qed (auto simp: parse_priority_def job_id_arg_def parse_after_def parse_duration_def
    validate_positive_float_env_def split: option.split intro!: sound_rules)

text \<open>The configuration and the operations.\<close>

lemma sound_load [simp]: "sound (validate_db_path_value v)" "sound (load_config_object fl)"
proof -
  show v: "sound (validate_db_path_value v)" for v
    by (auto simp: validate_db_path_value_def split: json.split)
  show "sound (load_config_object fl)"
    by (auto simp: load_config_object_def v split: config_file.split json.split option.split
        intro!: sound_rules)
qed

lemma sound_config [simp, sound_rules]:
  "sound (resolve_effective_config rp fs cwd en fl base False)"
  "sound (host_config h fl base)" "sound (db_path w fl)" "sound (validate_config_file rp fs p)"
proof -
  show r: "sound (resolve_effective_config rp fs cwd en fl base False)" for rp fs cwd en fl base
    unfolding resolve_effective_config_def Let_def
    by (intro sound_rules) (auto split: option.split prod.split intro!: sound_rules)
  then show "sound (host_config h fl base)" "sound (db_path w fl)"
    by (auto simp: host_config_def db_path_def resolve_db_path_def intro!: sound_rules)
  show "sound (validate_config_file rp fs p)" unfolding validate_config_file_def Let_def
    by (intro sound_rules) (auto split: prod.split intro!: sound_rules)
qed

lemma sound_connect_db: "sound r \<Longrightarrow> (\<And>p. sound (opener p)) \<Longrightarrow> sound (connect_db r opener)"
  unfolding connect_db_def
proof (intro sound_and_then)
  fix p assume o: "\<And>p. sound (opener p)"
  show "sound (case opener p of Inl (OSError e) \<Rightarrow> if e \<in> {EACCES, EEXIST, ENOENT, ENOTDIR, EROFS} then rejected
        else Inl (OSError e)
      | Inl (OperationalError text) \<Rightarrow>
          if substring ''unable to open database file'' text \<or> substring ''readonly'' text
          then rejected else Inl (OperationalError text)
      | r \<Rightarrow> r)"
    using o[of p] by (cases "opener p") (auto split: py_exn.split)
qed

definition connects :: "world \<Rightarrow> bool" where
  \<comment> \<open>\<open>store.connect\<close> raises operating system, SQLite and schema errors only\<close>
  "connects w \<longleftrightarrow> (\<forall>p. sound (w_connect w p))"

lemma sound_open_db [sound_rules]: "connects w \<Longrightarrow> sound (open_db w flag)"
  by (auto simp: open_db_def connects_def intro!: sound_connect_db)

lemma sound_answers: "sound r \<Longrightarrow> sound (oc_result (answers w r))"
  by (simp add: answers_def)

lemma sound_reading:
  "connects w \<Longrightarrow> (\<And>u. sound (body u)) \<Longrightarrow> sound (oc_result (reading w flag body))"
  unfolding reading_def by (intro sound_answers sound_rules)

lemma sound_writing:
  "connects w \<Longrightarrow> (\<And>u. sound (oc_result (body u))) \<Longrightarrow> sound (oc_result (writing w flag body))"
  using sound_open_db[of w flag] by (auto simp: writing_def answers_def split: sum.split)

lemma sound_checked:
  "sound args \<Longrightarrow> (\<And>v. args = Inr v \<Longrightarrow> sound (oc_result (body v))) \<Longrightarrow> sound (oc_result (checked w args body))"
  by (auto simp: checked_def answers_def split: sum.split)

lemma sound_reads [simp, sound_rules]:
  "sound (show_operation i d1 d2 d3)" "sound (output_operation dec fs i n ss d1 d2)"
  "sound (feedback_operation dec fs i t d1 d2)"
proof -
  have s: "sound (read_stream fs p)" for p by (auto simp: read_stream_def split: file_read.split)
  have "sound (read_streams fs a ss)" for a
    by (induction fs a ss rule: read_streams.induct)
      (auto intro!: sound_rules simp: read_stream_def split: file_read.split)
  then show "sound (output_operation dec fs i n ss d1 d2)"
    by (auto simp: output_operation_def Let_def split: option.split list.split intro!: sound_rules)
qed (auto simp: show_operation_def feedback_operation_def Let_def split: option.split)

lemma sound_retry_cancel: "sound (fst (retry_operation i force now d))" "sound (fst (cancel_operation i running now d))"
  by (auto simp: retry_operation_def cancel_operation_def exit_defs
      split: prod.split retry_outcome.split cancel_outcome.split)

lemma add_job_checked_Inl: "add_job_checked s now d = Inl e \<Longrightarrow> e = ValueError"
  by (auto simp: add_job_checked_def and_then_eq_Inl validate_execution_payload_def Let_def
      split: option.splits if_splits)

lemma sound_add: "sound (fst (add_operation s now d others))"
proof (cases "add_job_checked s now d")
  case (Inl e)
  then show ?thesis using add_job_checked_Inl[OF Inl] by (simp add: add_operation_def)
next
  case (Inr r)
  then show ?thesis
    by (auto simp: add_operation_def Let_def exit_defs split: prod.split idem_info.split option.split)
qed

lemma sound_wait: "wait_operation ids timeout snap start turns = Some r \<Longrightarrow> sound r"
  using wait_loop_result[of ids "map_option (fadd start) timeout" turns]
  by (fastforce simp: wait_operation_def exit_defs sound_def not_found_def split: if_splits sum.splits)

lemma execute_attempt_Inl: "execute_attempt j c = Inl e \<Longrightarrow> \<exists>x. e = OSError x"
  by (auto simp: execute_attempt_def split: child.splits if_splits)

lemma record_outcome_Inl: "record_outcome i a w p out now d = Inl e \<Longrightarrow> e = ValueError"
  by (auto simp: record_outcome_def record_failure_def validate_failure_reason_def Let_def and_then_eq_Inl
      split: prod.splits if_splits option.splits)

lemma process_one_Inl: "process_one cy out w lane slots d = (Inl e, d') \<Longrightarrow> e = ValueError \<or> (\<exists>x. e = OSError x)"
  by (auto simp: process_one_def Let_def split: prod.splits option.splits sum.splits
      dest: execute_attempt_Inl record_outcome_Inl)

lemma work_loop_Inl: "work_loop out w drain lane slots ts n d = Some (Inl e, d') \<Longrightarrow>
    e = ValueError \<or> (\<exists>x. e = OSError x)"
  by (induction out w drain lane slots ts n d rule: work_loop.induct)
    (auto simp: Let_def split: if_splits prod.splits sum.splits option.splits dest: process_one_Inl)


section \<open>Every verb\<close>

lemmas outcome_rules = sound_answers sound_reading sound_writing sound_checked

lemma sound_add_submission: "sound (add_submission w explicit a)"
proof -
  have "sound (add_command explicit a)"
    by (auto simp: add_command_def Let_def exit_defs split: option.split list.split)
  moreover have "sound (add_schedule w a)"
    by (auto simp: add_schedule_def split: option.split intro!: sound_rules)
  ultimately show ?thesis unfolding add_submission_def by (intro sound_rules; assumption?)
qed

lemma sound_cmd_add: "connects w \<Longrightarrow> sound (oc_result (cmd_add w flag explicit a))"
  unfolding cmd_add_def using sound_add
  by (intro sound_checked sound_add_submission sound_writing)
    (auto split: prod.split intro!: sound_rules, metis fst_conv)

lemma sound_cmd_work:
  assumes "connects w" and "cmd_work w flag a = Some oc"
  shows "sound (oc_result oc)"
proof (cases "plan_work w flag a")
  case (Inl e)
  have "sound (plan_work w flag a)" unfolding plan_work_def by (intro sound_rules)
  with Inl assms(2) show ?thesis by (auto simp: cmd_work_def answers_def)
next
  case (Inr p)
  have c: "sound (w_connect w (wp_db_path p))" using assms(1) by (simp add: connects_def)
  show ?thesis
  proof (cases "w_connect w (wp_db_path p)")
    case (Inl e)
    with assms(2) Inr c show ?thesis by (auto simp: cmd_work_def answers_def)
  next
    case (Inr u)
    with assms(2) \<open>plan_work w flag a = Inr p\<close> show ?thesis
      by (auto simp: cmd_work_def split: if_splits prod.splits
          dest!: process_one_Inl[OF trans[OF _ refl]] work_loop_Inl intro!: sound_rules)
        (auto simp: sound_def dest: process_one_Inl work_loop_Inl)
  qed
qed

lemma sound_cmd_wait:
  assumes "connects w" and "cmd_wait w flag ids timeout interval = Some oc"
  shows "sound (oc_result oc)"
proof -
  let ?args = "and_then (each (\<lambda>raw ids. and_then (job_id_arg raw) (\<lambda>i. Inr (ids @ [i]))) ids []) (\<lambda>ids.
      and_then (optionally (parse_positive_float MAX_WAIT_SECONDS) timeout) (\<lambda>timeout.
      and_then (parse_positive_float MAX_POLL_INTERVAL_SECONDS interval) (\<lambda>poll.
      and_then (open_db w flag) (\<lambda>_. Inr (ids, timeout)))))"
  have args: "sound ?args" by (intro sound_rules assms(1))
  show ?thesis
  proof (cases ?args)
    case (Inl e)
    with args assms(2) show ?thesis by (auto simp: cmd_wait_def answers_def)
  next
    case (Inr v)
    then obtain ns t where "?args = Inr (ns, t)" by (cases v) auto
    with assms(2) obtain r where "wait_operation ns t (\<lambda>_. w_db w) (w_monotonic w) (w_wait_turns w) = Some r"
      "oc = answers w (and_then r (\<lambda>data. Inr ((result (P_wait data))\<lparr>vr_exit_code :=
            (if wd_all_succeeded data then EXIT_OK else EXIT_JOB_FAILURE)\<rparr>)))"
      by (auto simp: cmd_wait_def)
    then show ?thesis using sound_wait by (auto intro!: sound_answers sound_rules)
  qed
qed

lemma sound_cmd_events:
  assumes "connects w" and "cmd_events w flag a = Some oc"
  shows "sound (oc_result oc)"
proof -
  let ?args = "and_then (validate_events_args a) (\<lambda>q. and_then (open_db w flag) (\<lambda>_. Inr q))"
  have args: "sound ?args" unfolding validate_events_args_def by (intro sound_rules assms(1))
  show ?thesis
    using args assms(2) by (cases ?args) (auto simp: cmd_events_def answers_def split: if_splits)
qed

lemma sound_dispatch:
  assumes "connects w" and "dispatch w flag json explicit c = Some oc"
  shows "sound (oc_result oc)"
proof (cases c)
  case (C_add a)
  with assms show ?thesis by (auto simp: dispatch_def intro: sound_cmd_add)
next
  case (C_work a)
  with assms show ?thesis by (auto simp: dispatch_def intro: sound_cmd_work)
next
  case (C_wait ids timeout interval)
  with assms show ?thesis by (auto simp: dispatch_def intro: sound_cmd_wait)
next
  case (C_status limit)
  with assms show ?thesis by (auto simp: dispatch_def cmd_status_def intro!: outcome_rules)
next
  case (C_list a)
  have "sound (list_query a)" unfolding list_query_def by (intro sound_rules)
  with C_list assms show ?thesis
    by (auto simp: dispatch_def cmd_list_def Let_def split: prod.split intro!: outcome_rules)
next
  case (C_show i)
  with assms show ?thesis by (auto simp: dispatch_def cmd_show_def intro!: outcome_rules sound_rules)
next
  case (C_retry i force)
  with assms show ?thesis
    by (auto simp: dispatch_def cmd_retry_def split: prod.split intro!: outcome_rules sound_rules)
      (metis fst_conv sound_retry_cancel(1))
next
  case (C_cancel i running yes)
  with assms show ?thesis
    by (auto simp: dispatch_def cmd_cancel_def exit_defs split: prod.split intro!: outcome_rules sound_rules)
      (metis fst_conv sound_retry_cancel(2))+
next
  case (C_prune a)
  have "sound (prune_query a)" unfolding prune_query_def by (intro sound_rules) (simp add: exit_defs)
  with C_prune assms show ?thesis
    by (auto simp: dispatch_def cmd_prune_def split: prod.split intro!: outcome_rules)
next
  case (C_output i a)
  with assms show ?thesis
    by (auto simp: dispatch_def cmd_output_def split: prod.split intro!: outcome_rules sound_rules)
next
  case (C_feedback i tail)
  with assms show ?thesis
    by (auto simp: dispatch_def cmd_feedback_def split: prod.split option.split intro!: outcome_rules sound_rules)
next
  case (C_events a)
  with assms show ?thesis by (auto simp: dispatch_def intro: sound_cmd_events)
next
  case C_doctor
  have "sound (doctor_operation h vs fl base)" for h vs fl base
    using sound_config(2)[of h fl base]
    by (auto simp: doctor_operation_def Let_def sound_def split: sum.split py_exn.split)
  with C_doctor assms show ?thesis by (auto simp: dispatch_def cmd_doctor_def intro!: outcome_rules sound_rules)
qed (use assms in \<open>auto simp: dispatch_def cmd_config_show_def config_show_operation_def
    cmd_config_validate_def config_validate_operation_def cmd_schema_def build_schema_def Let_def
    cmd_robot_docs_def cmd_brief_def cmd_capabilities_def split: option.split intro!: outcome_rules sound_rules\<close>)

section \<open>Exit codes\<close>

definition exit_meaning :: "payload \<Rightarrow> int" where
  \<comment> \<open>what a command that reports no error may exit with\<close>
  "exit_meaning data = (case data of
       P_wait d \<Rightarrow> if wd_all_succeeded d then 0 else 6
     | P_doctor d \<Rightarrow> if dd_ready d then 0 else 3
     | P_followed frames reason \<Rightarrow> if reason = Sqlite_error then 3 else 0
     | _ \<Rightarrow> 0)"

lemmas verb_defs = cmd_add_def cmd_work_def cmd_status_def cmd_list_def cmd_show_def cmd_wait_def
  cmd_output_def cmd_feedback_def cmd_events_def cmd_retry_def cmd_cancel_def cmd_prune_def
  cmd_config_show_def cmd_config_validate_def cmd_doctor_def cmd_robot_docs_def cmd_schema_def
  cmd_brief_def cmd_capabilities_def

lemmas plumbing_defs = answers_def reading_def writing_def checked_def result_def follow_result_def
  and_then_eq_Inr Let_def exit_meaning_def

lemma dispatch_exit:
  assumes "dispatch w flag json explicit c = Some oc" and "oc_result oc = Inr r"
  shows "vr_exit_code r = exit_meaning (vr_data r)"
  using assms
  by (cases c) (auto simp: dispatch_def verb_defs plumbing_defs exit_defs
      split: sum.splits prod.splits if_splits output_result.splits option.splits)

lemma exception_error_published: "sound (Inl x :: py_exn + unit) \<Longrightarrow> published (CliError (exception_error x))"
  by (auto simp: exception_error_def exit_defs split: py_exn.splits)

lemma parser_exit_published: "parser_exit_to_error message argv = Inr e \<Longrightarrow> published (CliError e)"
  by (auto simp: parser_exit_to_error_def and_then_eq_Inr exit_defs split: if_splits)

lemma parser_exit_Inl: "parser_exit_to_error message argv = Inl x \<Longrightarrow> x = IndexError"
  by (auto simp: parser_exit_to_error_def and_then_eq_Inl first_word_def split: if_splits)

lemma verbless_published: "verbless_error argv = Some e \<Longrightarrow> published (CliError e)"
  by (auto simp: verbless_error_def exit_defs split: if_splits option.splits)

definition process_ok :: "process \<Rightarrow> bool" where
  "process_ok p \<longleftrightarrow> (case ps_error p of
       Some e \<Rightarrow> published (CliError e) \<and> ps_exit p = err_exit e
         \<and> ps_stdout p \<in> {Silent, Envelope P_none [] (Some e)}
     | None \<Rightarrow> (case ps_stdout p of Envelope data ws err \<Rightarrow> err = None \<and> ps_exit p = exit_meaning data
         | _ \<Rightarrow> ps_exit p \<in> {0, 3, 6}))"

lemma process_ok_failure: "published (CliError e) \<Longrightarrow> process_ok (emit_failure e json d k)"
  by (simp add: process_ok_def emit_failure_def)

lemma process_ok_result: "vr_exit_code r = exit_meaning (vr_data r) \<Longrightarrow> process_ok (emit_result r json d k)"
  by (cases "vr_data r") (auto simp: process_ok_def emit_result_def exit_meaning_def)

lemma process_ok_exit:
  assumes "process_ok p"
  shows "ps_exit p \<in> fst ` set EXIT_CODES"
proof (cases "ps_error p")
  case None
  with assms have "ps_exit p \<in> {0, 3, 6}"
    by (auto simp: process_ok_def exit_meaning_def split: stdout.splits payload.splits if_splits)
  then show ?thesis by (auto simp: EXIT_CODES_def exit_defs)
next
  case (Some e)
  with assms have "reg_exit (CODE_REGISTRY (err_code e)) = Some (ps_exit p)"
    "reg_in_errors (CODE_REGISTRY (err_code e))" by (auto simp: process_ok_def published_def)
  then show ?thesis by (cases "err_code e") (auto simp: EXIT_CODES_def exit_defs)
qed

lemma main_process_ok:
  assumes "main w parse argv = Some p" and "connects w"
  shows "process_ok p \<or> parse argv = System_exit (ps_exit p) \<and> ps_stdout p = Text \<and> ps_error p = None"
proof (cases "verbless_error argv")
  case (Some e)
  with assms(1) verbless_published show ?thesis by (auto simp: main_def intro: process_ok_failure)
next
  case None
  show ?thesis
  proof (cases "parse argv")
    case (Parser_exit message)
    show ?thesis
    proof (cases "parser_exit_to_error message argv")
      case (Inl x)
      with parser_exit_Inl have "x = IndexError" by blast
      with assms(1) None Parser_exit Inl show ?thesis
        by (auto simp: main_def intro!: process_ok_failure exception_error_published)
    next
      case (Inr e)
      with assms(1) None Parser_exit parser_exit_published show ?thesis
        by (auto simp: main_def intro: process_ok_failure)
    qed
  next
    case (System_exit x)
    with assms(1) None show ?thesis by (auto simp: main_def)
  next
    case (Parsed q)
    show ?thesis
    proof (cases "pa_command q")
      case None
      with assms(1) \<open>verbless_error argv = None\<close> Parsed show ?thesis
        by (auto simp: main_def exit_defs intro: process_ok_failure)
    next
      case (Some c)
      note none = \<open>verbless_error argv = None\<close>
      define json where "json = (case pa_json q of None \<Rightarrow> json_requested argv | Some j \<Rightarrow> j)"
      have "map_option (\<lambda>oc. case oc_result oc of
            Inl x \<Rightarrow> emit_failure (exception_error x) json (oc_db oc) (oc_disk oc)
          | Inr r \<Rightarrow> emit_result r json (oc_db oc) (oc_disk oc))
        (dispatch w (pa_db q) json (explicit_add_boundary argv) c) = Some p"
        unfolding json_def using assms(1) none Parsed Some by (simp add: main_def Let_def)
      then obtain oc where
        oc: "dispatch w (pa_db q) json (explicit_add_boundary argv) c = Some oc"
        "p = (case oc_result oc of Inl x \<Rightarrow> emit_failure (exception_error x) json (oc_db oc) (oc_disk oc)
          | Inr r \<Rightarrow> emit_result r json (oc_db oc) (oc_disk oc))"
        by auto
      show ?thesis
      proof (cases "oc_result oc")
        case (Inl x)
        with sound_dispatch[OF assms(2) oc(1)] have "sound (Inl x :: py_exn + unit)"
          by (simp add: sound_def)
        with Inl oc(2) show ?thesis by (simp add: process_ok_failure exception_error_published)
      next
        case (Inr r)
        with dispatch_exit[OF oc(1) Inr] oc(2) show ?thesis by (simp add: process_ok_result)
      qed
    qed
  qed
qed


definition demo_world :: world where
  "demo_world = \<lparr>w_host = demo_host, w_connect = (\<lambda>_. Inr ()), w_now = 200, w_env = (\<lambda>_. None),
     w_fromiso = (\<lambda>_. None), w_decode = (\<lambda>_. []), w_read = (\<lambda>_. File_missing), w_db = db_dead,
     w_others = (\<lambda>_ d. d), w_disk = \<lparr>dk_files = [(''out/2/1/stdout'', 7)], dk_dirs = []\<rparr>,
     w_refused = (\<lambda>_. False), w_monotonic = 0, w_wait_turns = [(\<lambda>_. db_dead, 1)], w_event_turns = [],
     w_rounds = [], w_default_worker_id = ''w1'', w_cycle = demo_cycle, w_turns = []\<rparr>"

definition parses :: "command \<Rightarrow> string list \<Rightarrow> parse_outcome" where
  "parses c argv = Parsed \<lparr>pa_db = None, pa_json = Some True, pa_command = Some c\<rparr>"

lemma main_parses:
  assumes "verbless_error argv = None"
  shows "main w (parses c) argv = map_option (\<lambda>oc. case oc_result oc of
       Inl x \<Rightarrow> emit_failure (exception_error x) True (oc_db oc) (oc_disk oc)
     | Inr r \<Rightarrow> emit_result r True (oc_db oc) (oc_disk oc))
    (dispatch w None True (explicit_add_boundary argv) c)"
  using assms by (simp add: main_def parses_def)


section \<open>What an error leaves behind\<close>

lemma retry_cancel_Inl:
  "retry_operation i force now d = (Inl e, d') \<Longrightarrow> d' = d"
  "cancel_operation i running now d = (Inl e, d') \<Longrightarrow> d' = d"
  by (auto simp: retry_operation_def cancel_operation_def retry_job_def cancel_job_def Let_def not_found_def
      fails_def split: prod.splits retry_outcome.splits cancel_outcome.splits option.splits if_splits)

lemma add_Inl:
  assumes "add_operation s now d others = (Inl e, d')"
  shows "e = AttributeError \<or> d' = d"
proof (cases "add_job_checked s now d")
  case (Inl x)
  with assms show ?thesis by (simp add: add_operation_def)
next
  case (Inr r)
  obtain i st dup idem d1 where r: "r = ((i, st, dup, idem), d1)" by (metis prod.exhaust)
  show ?thesis
  proof (cases idem)
    case (ExecutionDifferences cs)
    then have "d1 = d" using Inr r
      by (auto simp: add_job_checked_def and_then_eq_Inr Let_def split: option.splits if_splits)
    with assms Inr r ExecutionDifferences show ?thesis by (simp add: add_operation_def)
  qed (use assms Inr r in \<open>auto simp: add_operation_def Let_def split: option.splits\<close>)
qed

lemma cmd_work_Inl:
  assumes "cmd_work w flag a = Some oc" and "oc_result oc = Inl x"
  shows "exception_error x = cli_error_with INTERNAL EXIT_ENVIRONMENT None
    \<or> (oc_db oc = w_db w \<and> oc_disk oc = w_disk w)"
proof -
  have "oc_db oc = w_db w \<and> oc_disk oc = w_disk w \<or> x = ValueError \<or> (\<exists>e. x = OSError e)"
    using assms by (auto simp: cmd_work_def answers_def and_then_eq_Inl split: sum.splits if_splits prod.splits)
      (metis process_one_Inl work_loop_Inl)+
  then show ?thesis by (auto simp: exception_error_def)
qed

lemma dispatch_Inl:
  assumes "dispatch w flag json explicit c = Some oc" and "oc_result oc = Inl x"
  shows "exception_error x = cli_error_with INTERNAL EXIT_ENVIRONMENT None
    \<or> (oc_db oc = w_db w \<and> oc_disk oc = w_disk w)"
proof -
  have quiet: "oc_db (reading w f b) = w_db w \<and> oc_disk (reading w f b) = w_disk w" for f b
    by (simp add: reading_def answers_def)
  show ?thesis
  proof (cases c)
    case (C_work a)
    with assms cmd_work_Inl show ?thesis by (auto simp: dispatch_def)
  next
    case (C_add a)
    with assms have "oc_db oc = w_db w \<and> oc_disk oc = w_disk w \<or> x = AttributeError"
      by (auto simp: dispatch_def cmd_add_def checked_def writing_def answers_def and_then_eq_Inl
          split: sum.splits prod.splits dest: add_Inl)
    then show ?thesis by (auto simp: exception_error_def)
  next
    case (C_retry i force)
    with assms show ?thesis
      by (auto simp: dispatch_def cmd_retry_def checked_def writing_def answers_def and_then_eq_Inl
          split: sum.splits prod.splits dest: retry_cancel_Inl)
  next
    case (C_cancel i running yes)
    with assms show ?thesis
      by (auto simp: dispatch_def cmd_cancel_def checked_def writing_def answers_def and_then_eq_Inl
          split: sum.splits prod.splits dest: retry_cancel_Inl)
  next
    case (C_prune a)
    with assms show ?thesis
      by (auto simp: dispatch_def cmd_prune_def checked_def writing_def answers_def
          split: sum.splits prod.splits)
  qed (use assms quiet in \<open>auto simp: dispatch_def verb_defs checked_def answers_def
      split: sum.splits prod.splits if_splits\<close>)
qed



section \<open>Consent\<close>

lemma running_kept:
  assumes "tables_ok d" and "get_job d k = Some j" and "j_state j = RUNNING"
  shows "get_job (snd (cancel_operation i False now d)) k = Some j"
    and "get_job (snd (retry_operation i False now d)) k = Some j"
proof -
  have at: "j' = j" if "get_job d i = Some j'" "k = i" for j' using that assms(2) by simp
  have id: "j_id j = k" using assms(1,2) get_job_iff by blast
  show "get_job (snd (cancel_operation i False now d)) k = Some j"
    using assms(2,3) at id by (cases "get_job d i"; cases "k = i")
      (auto simp: cancel_operation_def cancel_job_def tab_simps split: prod.split)
  show "get_job (snd (retry_operation i False now d)) k = Some j"
    using assms(2,3) at id by (cases "get_job d i"; cases "k = i")
      (auto simp: retry_operation_def retry_job_def requeue_def Let_def tab_simps split: prod.split)
qed



section \<open>Parser failures\<close>

text \<open>Every failure of the argument parser is reported as a published error of exit code 1, whatever
  its message, with one exception: an unrecognised argument that is blank makes the translation itself
  fail, so the process reports an internal error.\<close>

theorem parser_failure_exact:
  "case parser_exit_to_error message argv of
     Inr e \<Rightarrow> published (CliError e) \<and> err_exit e = 1
   | Inl x \<Rightarrow> exception_error x = cli_error_with INTERNAL EXIT_ENVIRONMENT None
       \<and> starts_with ''unrecognized arguments:'' message
       \<and> strip (drop (length ''unrecognized arguments:'') message) = []"
  by (auto simp: parser_exit_to_error_def first_word_def exit_defs exception_error_def cli_error_def
      cli_error_with_def published_def)

text \<open>A database that cannot be opened is invalid input for every verb but \<open>work\<close>, which opens it itself.\<close>

lemma work_open_failure:
  "(case dispatch (demo_world\<lparr>w_connect := \<lambda>_. Inl (OSError EACCES)\<rparr>) None True False
       (C_status (IsInt 10)) of
      Some oc \<Rightarrow> (case oc_result oc of Inl x \<Rightarrow> exception_error x = cli_error INVALID_INPUT | _ \<Rightarrow> False)
    | None \<Rightarrow> False)
   \<and> (case dispatch (demo_world\<lparr>w_connect := \<lambda>_. Inl (OSError EACCES)\<rparr>) None True False
       (C_work \<lparr>ka_once = True, ka_drain = False, ka_poll_interval = None, ka_worker_id = None,
          ka_queue = ''default'', ka_slots = None\<rparr>) of
      Some oc \<Rightarrow> (case oc_result oc of
         Inl x \<Rightarrow> exception_error x = cli_error_with INTERNAL EXIT_ENVIRONMENT None | _ \<Rightarrow> False)
    | None \<Rightarrow> False)"
  unfolding dispatch_def command.case by (rule conjI; code_simp)

section \<open>The type of an answer\<close>

definition answers_with :: "command \<Rightarrow> payload \<Rightarrow> bool" where
  \<comment> \<open>the data a verb's schema allows\<close>
  "answers_with c data = (case c of
       C_add a \<Rightarrow> (\<exists>d. data = P_add d)
     | C_work a \<Rightarrow> if ka_once a then (\<exists>s. data = P_claimed s)
         else if ka_drain a then (\<exists>b n. data = P_drained b n) else data = P_stopped
     | C_wait ids timeout interval \<Rightarrow> (\<exists>d. data = P_wait d)
     | C_status limit \<Rightarrow> (\<exists>d. data = P_status d)
     | C_list a \<Rightarrow> (\<exists>d. data = P_list d)
     | C_show i \<Rightarrow> (\<exists>d. data = P_show d)
     | C_retry i force \<Rightarrow> (\<exists>k. data = P_retry k \<and> job_id_arg i = Inr k)
     | C_cancel i running yes \<Rightarrow> (\<exists>d. data = P_cancel d \<and> job_id_arg i = Inr (cd_job_id d))
     | C_prune a \<Rightarrow> (\<exists>d. data = P_prune d \<and> pr_actual d = ra_yes a)
     | C_output i a \<Rightarrow> data = P_none \<or> (\<exists>d. data = P_output d) \<or> oa_raw a \<and> (\<exists>b. data = P_raw b)
     | C_feedback i tail \<Rightarrow> (\<exists>d. data = P_feedback d \<and> fd_job_id d > 0)
     | C_events a \<Rightarrow> if ea_follow a then (\<exists>es r. data = P_followed es r)
         else (\<exists>es pg r. data = P_events es pg r \<and> (r \<noteq> None \<longleftrightarrow> ea_wait a))
     | C_config_show \<Rightarrow> (\<exists>d. data = P_config d)
     | C_config_validate path \<Rightarrow> (\<exists>d. data = P_validation d)
     | C_doctor \<Rightarrow> (\<exists>d. data = P_doctor d)
     | _ \<Rightarrow> (\<exists>d. data = P_document d))"

lemma cancel_operation_id: "cancel_operation i running now d = (Inr data, d') \<Longrightarrow> cd_job_id data = i"
  by (auto simp: cancel_operation_def not_found_def fails_def split: prod.splits cancel_outcome.splits)

lemma retry_operation_id: "retry_operation i force now d = (Inr k, d') \<Longrightarrow> k = i"
  by (auto simp: retry_operation_def not_found_def fails_def split: prod.splits retry_outcome.splits)

lemma feedback_operation_id:
  assumes "feedback_operation dec fs i t d1 d2 = Inr f" and "tables_ok d1" and "0 < i"
  shows "0 < fd_job_id f"
proof -
  from assms(1) obtain j where "get_job d1 i = Some j" "fd_job_id f = j_id j"
    by (auto simp: feedback_operation_def Let_def rejected_def not_found_def split: if_splits option.splits)
  with get_job_iff[OF assms(2), of i j] assms(3) show ?thesis by simp
qed

lemma job_id_positive: "job_id_arg s = Inr i \<Longrightarrow> 0 < i"
  by (auto simp: job_id_arg_def parse_int_bound_def and_then_eq_Inr invalid_def split: if_splits option.splits)

text \<open>Each verb answers with data of its own type, about what was asked: a retry or cancel with the
  id given, a prune marked actual exactly when it was confirmed, an events page with a wait reason
  exactly when it waited, a follower and a raw output silently.\<close>

theorem answer_type:
  assumes "dispatch w flag json explicit c = Some oc" and "oc_result oc = Inr r" and "tables_ok (w_db w)"
  shows "answers_with c (vr_data r) \<and>
    (vr_stdout_silent r \<longleftrightarrow> vr_data r = P_stopped \<or> (\<exists>b. vr_data r = P_raw b) \<or> (\<exists>es e. vr_data r = P_followed es e))"
proof (cases c)
  case (C_retry i force)
  with assms(1,2) show ?thesis
    by (auto simp: dispatch_def verb_defs plumbing_defs answers_with_def split: sum.splits prod.splits
        dest!: retry_operation_id)
next
  case (C_cancel i running yes)
  with assms(1,2) show ?thesis
    by (auto simp: dispatch_def verb_defs plumbing_defs answers_with_def split: sum.splits prod.splits if_splits
        dest!: cancel_operation_id)
next
  case (C_prune a)
  with assms(1,2) show ?thesis
    by (auto simp: dispatch_def verb_defs plumbing_defs answers_with_def prune_query_def prune_operation_def
        split: sum.splits prod.splits if_splits)
next
  case (C_feedback i tail)
  with assms(1,2) show ?thesis
    by (auto simp: dispatch_def verb_defs plumbing_defs answers_with_def split: sum.splits prod.splits option.splits
        dest!: job_id_positive feedback_operation_id[OF _ assms(3)])
next
  case (C_events a)
  with assms(1,2) show ?thesis
    by (auto simp: dispatch_def verb_defs plumbing_defs answers_with_def events_operation_def
        split: sum.splits prod.splits option.splits if_splits) (metis)+
qed (use assms(1,2) in \<open>auto simp: dispatch_def verb_defs plumbing_defs answers_with_def
      split: sum.splits prod.splits if_splits output_result.splits option.splits\<close>)

theorem answer_type_witness:
  "\<exists>oc r. dispatch demo_world None True False (C_retry ''2'' False) = Some oc \<and> oc_result oc = Inr r
     \<and> answers_with (C_retry ''2'' False) (vr_data r)"
proof -
  let ?c = "dispatch demo_world None True False (C_retry ''2'' False)"
  have "case ?c of None \<Rightarrow> False | Some oc \<Rightarrow> (case oc_result oc of Inr r \<Rightarrow> True | Inl e \<Rightarrow> False)"
    unfolding dispatch_def command.case by code_simp
  then obtain oc r where oc: "?c = Some oc" "oc_result oc = Inr r" by (auto split: option.splits sum.splits)
  have "tables_ok (w_db demo_world)" using reachable_tables[of db_dead] by (simp add: demo_world_def)
  from answer_type[OF oc this] oc show ?thesis by blast
qed

end
