(* ===== verification/Payloads.thy ===== *)
theory Payloads
  imports Cli
begin

text \<open>
  The JSON the program writes: the dictionaries that \<open>operations.py\<close>, \<open>store.py\<close>, \<open>config.py\<close>, \<open>errors.py\<close>
  and the commands of \<open>cli.py\<close> build for each verb's data, the envelope around them (\<open>make_envelope\<close>) and
  the frames of the event stream. Wordings (messages and remediations of errors, warnings and doctor
  checks), the clock, the request id and the digest enter as parameters.
\<close>

section \<open>Rows\<close>

definition strings_json :: "pydict \<Rightarrow> json" where
  "strings_json d = JObject (map (\<lambda>(k, v). (k, JString v)) d)"

definition list_row :: "job \<Rightarrow> json" where
  "list_row j = JObject
     [(''argv'', jstrings (j_argv j)), (''attempts'', JInt (j_attempts j)),
      (''created_at'', JFloat (j_created_at j)), (''finished_at'', json_opt JFloat (j_finished_at j)),
      (''id'', JInt (j_id j)), (''idempotency_key'', json_opt JString (j_idempotency_key j)),
      (''last_error'', json_opt JString (j_last_error j)),
      (''last_exit_code'', json_opt JInt (j_last_exit_code j)), (''max_retries'', JInt (j_max_retries j)),
      (''crashes'', JInt (j_crashes j)), (''cwd'', json_opt JString (j_cwd j)),
      (''next_run_at'', JFloat (j_next_run_at j)), (''note'', json_opt JString (j_note j)),
      (''priority'', JInt (j_priority j)), (''queue'', JString (j_queue j)),
      (''started_at'', json_opt JFloat (j_started_at j)), (''state'', JString (job_state_name (j_state j))),
      (''tags'', strings_json (j_tags j)), (''timeout_seconds'', JInt (j_timeout_seconds j))]"

definition reason_json :: "failure_reason option \<Rightarrow> json" where
  "reason_json = json_opt (\<lambda>r. JString (failure_reason_name r))"

definition show_row :: "job \<Rightarrow> failure_reason option \<Rightarrow> json" where
  \<comment> \<open>\<open>job_data\<close> of \<open>show_operation\<close>\<close>
  "show_row j last_failure_reason = JObject
     [(''argv'', jstrings (j_argv j)), (''attempts'', JInt (j_attempts j)),
      (''created_at'', JFloat (j_created_at j)), (''finished_at'', json_opt JFloat (j_finished_at j)),
      (''heartbeat_at'', json_opt JFloat (j_heartbeat_at j)), (''id'', JInt (j_id j)),
      (''idempotency_key'', json_opt JString (j_idempotency_key j)),
      (''last_error'', json_opt JString (j_last_error j)),
      (''last_exit_code'', json_opt JInt (j_last_exit_code j)),
      (''last_failure_reason'', reason_json last_failure_reason),
      (''locked_at'', json_opt JFloat (j_locked_at j)), (''locked_by'', json_opt JString (j_locked_by j)),
      (''locked_pid'', json_opt JInt (j_locked_pid j)), (''max_retries'', JInt (j_max_retries j)),
      (''crashes'', JInt (j_crashes j)), (''cwd'', json_opt JString (j_cwd j)),
      (''env'', strings_json (j_env j)), (''max_crashes'', json_opt JInt (j_max_crashes j)),
      (''next_run_at'', JFloat (j_next_run_at j)), (''note'', json_opt JString (j_note j)),
      (''priority'', JInt (j_priority j)), (''queue'', JString (j_queue j)),
      (''started_at'', json_opt JFloat (j_started_at j)), (''state'', JString (job_state_name (j_state j))),
      (''tags'', strings_json (j_tags j)), (''timeout_seconds'', JInt (j_timeout_seconds j))]"

definition attempt_row :: "attempt \<Rightarrow> json" where
  "attempt_row a = JObject
     [(''attempt_no'', JInt (a_attempt_no a)), (''error'', json_opt JString (a_error a)),
      (''exit_code'', json_opt JInt (a_exit_code a)), (''failure_reason'', reason_json (a_failure_reason a)),
      (''finished_at'', json_opt JFloat (a_finished_at a)), (''started_at'', JFloat (a_started_at a)),
      (''state'', JString (attempt_state_name (a_state a))), (''stderr_path'', JString (a_stderr_path a)),
      (''stdout_path'', JString (a_stdout_path a)), (''worker_id'', JString (a_worker_id a)),
      (''worker_pid'', JInt (a_worker_pid a))]"

definition show_event :: "event \<Rightarrow> json" where
  \<comment> \<open>a row of \<open>get_events\<close>\<close>
  "show_event e = JObject
     [(''at'', JFloat (e_at e)), (''detail'', json_opt JString (e_detail e)),
      (''event'', JString (event_type_name (e_event e))), (''worker_id'', json_opt JString (e_worker_id e))]"

definition event_from_row :: "event \<Rightarrow> dict" where
  \<comment> \<open>a row of \<open>list_events\<close>\<close>
  "event_from_row e =
     [(''at'', JFloat (e_at e)), (''detail'', json_opt JString (e_detail e)),
      (''event'', JString (event_type_name (e_event e))), (''id'', JInt (e_id e)),
      (''job_id'', JInt (e_job_id e)), (''worker_id'', json_opt JString (e_worker_id e))]"

section \<open>The data of each verb\<close>

fun pval_json :: "pval \<Rightarrow> json" where
  "pval_json VNone = JNull"
| "pval_json (VInt i) = JInt i"
| "pval_json (VFloat f) = JFloat f"
| "pval_json (VStr s) = JString s"
| "pval_json (VList ss) = jstrings ss"
| "pval_json (VDict d) = strings_json d"

definition add_json :: "add_data \<Rightarrow> dict" where
  "add_json a =
     [(''deduplicated'', JBool (ad_deduplicated a)), (''cwd'', json_opt JString (ad_cwd a)),
      (''env_keys'', jstrings (ad_env_keys a)), (''job_id'', JInt (ad_job_id a)),
      (''next_run_at'', JFloat (ad_next_run_at a)), (''priority'', JInt (ad_priority a)),
      (''queue'', JString (ad_queue a)), (''state'', JString (job_state_name (ad_state a)))] @
     (if ad_deduplicated a then [(''idempotency'', JObject
        [(''key'', json_opt JString (ad_key a)),
         (''metadata_differs'', JBool (ad_metadata_differences a \<noteq> [])),
         (''metadata_differences'', JObject (map (\<lambda>(k, old, new). (k, JObject
            [(''existing'', pval_json old), (''submitted'', pval_json new)])) (ad_metadata_differences a)))])]
      else [])"

definition claimed_json :: "summary option \<Rightarrow> dict" where
  \<comment> \<open>\<open>{"claimed": True, **summary}\<close>\<close>
  "claimed_json s = (case s of None \<Rightarrow> [(''claimed'', JBool False)]
     | Some su \<Rightarrow> [(''claimed'', JBool True), (''attempt_no'', JInt (su_attempt_no su)),
         (''job_id'', JInt (su_job_id su)),
         (''job_state'', json_opt (\<lambda>st. JString (job_state_name st)) (su_job_state su)),
         (''result'', JString (su_result su))])"

definition wait_json :: "wait_data \<Rightarrow> dict" where
  "wait_json d =
     [(''all_succeeded'', JBool (wd_all_succeeded d)),
      (''jobs'', JObject (map (\<lambda>(i, j). (str_of_int i, JObject
         [(''attempts'', JInt (j_attempts j)), (''last_error'', json_opt JString (j_last_error j)),
          (''last_exit_code'', json_opt JInt (j_last_exit_code j)),
          (''state'', JString (job_state_name (j_state j)))])) (wd_jobs d)))]"

definition counts_json :: "counts \<Rightarrow> json" where
  "counts_json c = JObject (map (\<lambda>s. (job_state_name s, JInt (c s))) (sort JOB_STATES))"

definition dead_json :: "dead_letter \<Rightarrow> json" where
  "dead_json r = JObject
     [(''attempts'', JInt (dl_attempts r)), (''command'', JString (dl_command r)),
      (''crashes'', JInt (dl_crashes r)), (''finished_at'', json_opt JFloat (dl_finished_at r)),
      (''id'', JInt (dl_id r)), (''last_error'', json_opt JString (dl_last_error r)),
      (''stderr_path'', json_opt JString (dl_stderr_path r)),
      (''stdout_path'', json_opt JString (dl_stdout_path r))]"

definition status_json :: "status_data \<Rightarrow> dict" where
  "status_json d =
     [(''counts'', counts_json (sd_counts d)), (''scheduled'', JInt (sd_scheduled d)),
      (''queues'', JObject (map (\<lambda>(q, qs). (q, JObject [(''counts'', counts_json (qs_counts qs)),
         (''scheduled'', JInt (qs_scheduled qs))])) (sd_queues d))),
      (''recent_dead'', JList (map dead_json (sd_recent_dead d)))]"

definition list_json :: "list_result \<Rightarrow> dict" where
  "list_json r = [(''count'', JInt (int (length (lr_jobs r)))), (''jobs'', JList (map list_row (lr_jobs r)))]"

definition show_json :: "show_result \<Rightarrow> dict" where
  "show_json r =
     [(''attempts'', JList (map attempt_row (sh_attempts r))), (''events'', JList (map show_event (sh_events r))),
      (''job'', show_row (sh_job r) (sh_last_failure_reason r))]"

definition prune_json :: "prune_report \<Rightarrow> dict" where
  \<comment> \<open>\<open>irreversible\<close> only when something was deleted for real\<close>
  "prune_json r =
     [(''deleted_attempts'', JInt (pr_deleted_attempts r)), (''deleted_events'', JInt (pr_deleted_events r)),
      (''deleted_jobs'', JInt (pr_deleted_jobs r)), (''actual'', JBool (pr_actual r)),
      (''dry_run'', JBool (\<not> pr_actual r)), (''freed_bytes'', JInt (int (pr_freed_bytes r)))] @
     (if pr_actual r then [(''irreversible'', JBool True)] else []) @
     [(''matched'', JInt (int (pr_matched r)))]"

fun stream_name :: "stream \<Rightarrow> string" where
  "stream_name Stdout = ''stdout''"
| "stream_name Stderr = ''stderr''"

definition output_json :: "output_result \<Rightarrow> dict" where
  "output_json r = (case r of No_attempts \<Rightarrow> [(''attempts'', JList [])]
     | Output d \<Rightarrow>
         [(''attempt_no'', JInt (od_attempt_no d)),
          (''attempt_state'', JString (attempt_state_name (od_attempt_state d))),
          (''attempts_total'', JInt (int (od_attempts_total d))), (''job_id'', JInt (od_job_id d)),
          (''streams'', JObject (map (\<lambda>(s, e). (stream_name s, JObject
             [(''path'', JString (st_path e)), (''preview'', JString (st_preview e)),
              (''preview_truncated'', JBool (st_preview_truncated e)),
              (''size_bytes'', JInt (int (st_size_bytes e)))])) (od_streams d)))])"

definition feedback_stream_json :: "feedback_entry \<Rightarrow> json" where
  "feedback_stream_json e = JObject
     [(''tail'', JString (fe_tail e)), (''size_bytes'', JInt (int (fe_size_bytes e))),
      (''truncated'', JBool (fe_truncated e)), (''missing'', JBool (fe_missing e)),
      (''path'', json_opt JString (fe_path e))]"

definition remedy_text :: "int \<Rightarrow> remedy \<Rightarrow> string" where
  "remedy_text job_id r = (case r of
       Remedy_output \<Rightarrow> ''spoolctl output '' @ str_of_int job_id
     | Remedy_wait \<Rightarrow> ''spoolctl wait '' @ str_of_int job_id
     | Remedy_show \<Rightarrow> ''spoolctl show '' @ str_of_int job_id
     | Remedy_work \<Rightarrow> ''spoolctl work --drain'')"

definition feedback_json :: "feedback_data \<Rightarrow> dict" where
  "feedback_json d =
     [(''attempts'', JInt (fd_attempts d)), (''attempts_total'', JInt (int (fd_attempts_total d))),
      (''duration_seconds'', json_opt JFloat (fd_duration d)), (''exit_code'', json_opt JInt (fd_exit_code d)),
      (''failure_reason'', reason_json (fd_failure_reason d)), (''job_id'', JInt (fd_job_id d)),
      (''last_error'', json_opt JString (fd_last_error d)),
      (''latest_attempt_no'', json_opt JInt (fd_latest_attempt_no d)),
      (''remediation'', json_opt (\<lambda>r. JString (remedy_text (fd_job_id d) r)) (fd_remediation d)),
      (''state'', JString (job_state_name (fd_state d))),
      (''streams'', JObject [(''stdout'', feedback_stream_json (fd_stdout d)),
         (''stderr'', feedback_stream_json (fd_stderr d))]),
      (''succeeded'', json_opt JBool (fd_succeeded d)), (''terminal'', JBool (fd_terminal d))]"

fun source_name :: "source \<Rightarrow> string" where
  "source_name Flag = ''flag''"
| "source_name Environment = ''environment''"
| "source_name Project_config = ''project_config''"
| "source_name Default = ''default''"

definition PRECEDENCE :: "string list" where
  "PRECEDENCE = [''flag'', ''environment'', ''project_config'', ''default'']"

definition config_json :: "effective_config \<Rightarrow> dict" where
  "config_json e =
     [(''config_path'', json_opt JString (ec_config_path e)), (''config_exists'', JBool (ec_config_exists e)),
      (''config_valid'', JBool (ec_config_valid e)),
      (''values'', JObject [(''db_path'', JString (ec_db_path e))]),
      (''sources'', JObject [(''db_path'', JString (source_name (ec_db_source e)))]),
      (''precedence'', jstrings PRECEDENCE), (''ignored_keys'', jstrings (ec_ignored_keys e))]"

definition validation_json :: "config_validation \<Rightarrow> dict" where
  "validation_json v =
     [(''config_path'', JString (cv_config_path v)), (''exists'', JBool (cv_exists v)),
      (''valid'', JBool (cv_valid v)), (''format'', JString ''json''),
      (''schema_version'', JInt CONFIG_SCHEMA_VERSION), (''recognized_keys'', jstrings [''db_path'']),
      (''unknown_keys'', jstrings (cv_unknown_keys v))]"

section \<open>Wordings and the doctor's report\<close>

record wording =
  wo_error :: "cli_error \<Rightarrow> string \<times> string"     \<comment> \<open>message and remediation\<close>
  wo_warning :: "code \<Rightarrow> string"
  wo_check :: "check \<Rightarrow> string \<times> string option"

fun check_name :: "check_id \<Rightarrow> string" where
  "check_name Config_valid = ''config_valid''"
| "check_name Db_path_resolved = ''db_path_resolved''"
| "check_name Spool_directory_writable = ''spool_directory_writable''"
| "check_name Database_exists = ''database_exists''"
| "check_name Sqlite_open_readwrite = ''sqlite_open_readwrite''"
| "check_name Schema_version = ''schema_version''"
| "check_name Contract_metadata = ''contract_metadata''"

fun status_name :: "check_status \<Rightarrow> string" where
  "status_name Pass = ''pass''"
| "status_name Warn = ''warn''"
| "status_name Fail = ''fail''"
| "status_name Skip = ''skip''"

definition check_json :: "wording \<Rightarrow> check \<Rightarrow> json" where
  "check_json wo c = JObject
     [(''id'', JString (check_name (ck_id c))), (''status'', JString (status_name (ck_status c))),
      (''message'', JString (fst (wo_check wo c))), (''remediation'', json_opt JString (snd (wo_check wo c))),
      (''blocked_by'', json_opt (\<lambda>i. JString (check_name i)) (ck_blocked_by c))]"

definition doctor_json :: "wording \<Rightarrow> doctor_data \<Rightarrow> dict" where
  "doctor_json wo d =
     [(''ready'', JBool (dd_ready d)),
      (''summary'', JObject
         [(''passed'', JInt (int (ds_passed (dd_summary d)))), (''warnings'', JInt (int (ds_warnings (dd_summary d)))),
          (''failed'', JInt (int (ds_failed (dd_summary d)))), (''skipped'', JInt (int (ds_skipped (dd_summary d))))]),
      (''config'', JObject
         [(''config_path'', json_opt JString (dc_config_path (dd_config d))),
          (''config_exists'', JBool (dc_config_exists (dd_config d))),
          (''config_valid'', JBool (dc_config_valid (dd_config d))),
          (''db_path'', json_opt JString (dc_db_path (dd_config d))),
          (''db_source'', json_opt (\<lambda>s. JString (source_name s)) (dc_db_source (dd_config d)))]),
      (''checks'', JList (map (check_json wo) (dd_checks d))),
      (''versions'', JObject
         [(''tool_version'', JString TOOL_VERSION), (''contract_version'', JString CONTRACT_VERSION),
          (''schema_version'', JInt SCHEMA_VERSION)])]"

section \<open>The envelope\<close>

definition pagination_json :: "pagination \<Rightarrow> dict" where
  "pagination_json p = [(''cursor'', JInt (pg_cursor p)), (''first_id'', json_opt JInt (pg_first_id p))]"

definition list_pagination :: "list_result \<Rightarrow> dict" where
  "list_pagination r =
     [(''cursor'', JInt (lr_cursor r)), (''first_id'', json_opt JInt (lr_first_id r)),
      (''limit'', JInt (lr_limit r)), (''truncated'', JBool (lr_truncated r))] @
     (case lr_scanned r of None \<Rightarrow> []
      | Some n \<Rightarrow> [(''scanned'', JInt n), (''scan_limit'', JInt TAG_FILTER_SCAN_LIMIT)])"

fun wait_reason_name :: "wait_reason \<Rightarrow> string" where
  "wait_reason_name Records_available = ''records_available''"
| "wait_reason_name Wait_timeout = ''timeout''"

definition error_json :: "wording \<Rightarrow> cli_error \<Rightarrow> dict" where
  \<comment> \<open>\<open>as_dict\<close>\<close>
  "error_json wo e =
     [(''code'', JString (code_name (err_code e))), (''message'', JString (fst (wo_error wo e))),
      (''remediation'', JString (snd (wo_error wo e))), (''exit_code'', JInt (err_exit e))] @
     (case err_did_you_mean e of None \<Rightarrow> [] | Some s \<Rightarrow> [(''did_you_mean'', JString s)])"

definition warning_json :: "wording \<Rightarrow> code \<Rightarrow> dict" where
  "warning_json wo c = [(''code'', JString (code_name c)), (''message'', JString (wo_warning wo c))]"

record stamp =
  sp_request_id :: string
  sp_ts_iso :: string
  sp_elapsed_ms :: int
  sp_waited_ms :: int              \<comment> \<open>of an events page that waited\<close>
  sp_data_hash :: "json \<Rightarrow> string"  \<comment> \<open>the digest of the canonical text\<close>

definition make_envelope :: "stamp \<Rightarrow> json \<Rightarrow> dict list \<Rightarrow> string list \<Rightarrow> dict \<Rightarrow> dict list \<Rightarrow> py_exn + dict" where
  \<comment> \<open>data, warnings, commands, \<open>meta_extra\<close>, errors\<close>
  "make_envelope sp data warnings commands meta_extra errors =
     (let meta = [(''request_id'', JString (sp_request_id sp)), (''ts_iso'', JString (sp_ts_iso sp)),
            (''elapsed_ms'', JInt (sp_elapsed_ms sp)), (''contract_version'', JString CONTRACT_VERSION),
            (''data_hash'', JString (sp_data_hash sp data))];
          envelope = (\<lambda>meta. [(''ok'', JBool (errors = [])), (''tool_version'', JString TOOL_VERSION),
            (''data'', data), (''meta'', JObject meta), (''warnings'', JList (map JObject warnings)),
            (''commands'', jstrings commands), (''errors'', JList (map JObject errors))])
      in if meta_extra = [] then Inr (envelope meta)
         else if list_ex (\<lambda>f. fst f \<in> set (map fst meta)) meta_extra then Inl ValueError
         else Inr (envelope (dict_update meta meta_extra)))"

definition payload_json :: "wording \<Rightarrow> payload \<Rightarrow> json" where
  \<comment> \<open>the data of a result; \<open>None\<close> for what is printed otherwise\<close>
  "payload_json wo data = (case data of
       P_none \<Rightarrow> JNull
     | P_add a \<Rightarrow> JObject (add_json a)
     | P_claimed s \<Rightarrow> JObject (claimed_json s)
     | P_drained drained executed \<Rightarrow>
         JObject [(''drained'', JBool drained), (''executed'', JInt (int executed))]
     | P_stopped \<Rightarrow> JObject [(''stopped'', JBool True)]
     | P_wait d \<Rightarrow> JObject (wait_json d)
     | P_status d \<Rightarrow> JObject (status_json d)
     | P_list r \<Rightarrow> JObject (list_json r)
     | P_show r \<Rightarrow> JObject (show_json r)
     | P_retry i \<Rightarrow> JObject [(''job_id'', JInt i), (''state'', JString ''queued'')]
     | P_cancel d \<Rightarrow> JObject [(''job_id'', JInt (cd_job_id d)), (''state'', JString ''canceled''),
         (''was_running'', JBool (cd_was_running d))]
     | P_prune r \<Rightarrow> JObject (prune_json r)
     | P_output r \<Rightarrow> JObject (output_json r)
     | P_raw b \<Rightarrow> JNull
     | P_feedback d \<Rightarrow> JObject (feedback_json d)
     | P_events es pg reason \<Rightarrow> JObject [(''count'', JInt (int (length es))),
         (''events'', JList (map (\<lambda>e. JObject (event_from_row e)) es))]
     | P_followed es reason \<Rightarrow> JNull
     | P_config e \<Rightarrow> JObject (config_json e)
     | P_validation v \<Rightarrow> JObject (validation_json v)
     | P_doctor d \<Rightarrow> JObject (doctor_json wo d)
     | P_document d \<Rightarrow> JObject d)"

definition meta_extra :: "stamp \<Rightarrow> payload \<Rightarrow> dict" where
  "meta_extra sp data = (case data of
       P_list r \<Rightarrow> [(''pagination'', JObject (list_pagination r))]
     | P_events es pg reason \<Rightarrow> (''pagination'', JObject (pagination_json pg)) #
         (case reason of None \<Rightarrow> []
          | Some r \<Rightarrow> [(''wait'', JObject [(''reason'', JString (wait_reason_name r)),
              (''waited_ms'', JInt (sp_waited_ms sp))])])
     | _ \<Rightarrow> [])"

definition printed :: "wording \<Rightarrow> stamp \<Rightarrow> stdout \<Rightarrow> (py_exn + dict) option" where
  \<comment> \<open>the envelope a run writes to stdout, \<open>None\<close> when it writes none\<close>
  "printed wo sp out = (case out of
       Envelope data warnings err \<Rightarrow> Some (make_envelope sp (payload_json wo data)
         (map (warning_json wo) warnings) [] (meta_extra sp data)
         (case err of None \<Rightarrow> [] | Some e \<Rightarrow> [error_json wo e]))
     | _ \<Rightarrow> None)"

definition verb_name :: "command \<Rightarrow> string" where
  "verb_name c = (case c of
       C_add a \<Rightarrow> ''add'' | C_work a \<Rightarrow> ''work'' | C_wait ids timeout interval \<Rightarrow> ''wait''
     | C_status limit \<Rightarrow> ''status'' | C_list a \<Rightarrow> ''list'' | C_show i \<Rightarrow> ''show''
     | C_retry i force \<Rightarrow> ''retry'' | C_cancel i running yes \<Rightarrow> ''cancel'' | C_prune a \<Rightarrow> ''prune''
     | C_output i a \<Rightarrow> ''output'' | C_feedback i tail \<Rightarrow> ''feedback'' | C_events a \<Rightarrow> ''events''
     | C_config_show \<Rightarrow> ''config-show'' | C_config_validate path \<Rightarrow> ''config-validate'' | C_doctor \<Rightarrow> ''doctor''
     | C_brief \<Rightarrow> ''brief'' | C_schema v \<Rightarrow> ''schema'' | C_capabilities \<Rightarrow> ''capabilities''
     | C_robot_docs sub \<Rightarrow> ''robot-docs'')"

section \<open>Frames\<close>

definition control_frame :: "string \<Rightarrow> string \<Rightarrow> dict \<Rightarrow> json" where
  "control_frame frame_type reason extra =
     JObject [(''control'', JObject (dict_update
       [(''type'', JString frame_type), (''reason'', JString reason)] extra))]"

definition follow_frames :: "string \<Rightarrow> event list \<Rightarrow> follow_end \<Rightarrow> json list" where
  \<comment> \<open>what \<open>events --follow --json\<close> writes; the text of the database error\<close>
  "follow_frames message es reason = map (\<lambda>e. JObject (event_from_row e)) es @ (case reason of
       Idle \<Rightarrow> [control_frame ''end'' ''idle_timeout'' []]
     | Max_events \<Rightarrow> [control_frame ''end'' ''max_events'' []]
     | Sqlite_error \<Rightarrow> [control_frame ''error'' ''sqlite_error''
         [(''message'', JString message), (''exit_code'', JInt EXIT_ENVIRONMENT)]]
     | _ \<Rightarrow> [])"

end
