(* ===== verification/PayloadProps.thy ===== *)
theory PayloadProps
  imports Payloads
begin

text \<open>
  What the program writes conforms to what it publishes: the rows and dictionaries of \<open>Payloads\<close> to the
  schemas of \<open>Schemas\<close>, the data of every command to the schema of its verb, every envelope to the
  envelope schema, every frame to the schema of the stream.
\<close>

declare conforms.simps(2) [simp del]

section \<open>Rows\<close>

lemma state_names [simp]: "job_state_name s \<in> job_state_name ` set JOB_STATES"
  by (simp add: all_job_states)

lemma conforms_strings [simp]: "conforms (map_to (typed String)) (strings_json d)"
  by (auto simp: strings_json_def)

lemma conforms_reason [simp]: "conforms FAILURE_REASON_SCHEMA (reason_json r)"
proof (cases r)
  case (Some x)
  have "\<exists>f\<in>set FAILURE_REASONS. failure_reason_name x = fst f" using all_failure_reasons[of x] by auto
  with Some show ?thesis
    by (auto simp: FAILURE_REASON_SCHEMA_def conforms.simps reason_json_def list_ex_iff)
qed (simp add: FAILURE_REASON_SCHEMA_def conforms.simps reason_json_def)

lemma null_or_value [simp]: "(\<And>x. has_type (f x) t) \<Longrightarrow> has_type (json_opt f v) t \<or> json_opt f v = JNull"
  by (cases v) simp_all

lemmas nullable_defs = NULLABLE_STRING_def NULLABLE_INTEGER_def NULLABLE_NUMBER_def

lemma list_row_conforms [simp]: "conforms LIST_JOB_SCHEMA (list_row j)"
  by (simp add: LIST_JOB_SCHEMA_def LIST_JOB_PROPS_def JOB_METADATA_PROPS_def list_row_def conforms_obj nullable_defs)

lemma show_row_conforms [simp]: "conforms SHOW_JOB_SCHEMA (show_row j r)"
  by (simp add: SHOW_JOB_SCHEMA_def LIST_JOB_PROPS_def JOB_METADATA_PROPS_def show_row_def conforms_obj nullable_defs)

lemma attempt_row_conforms [simp]: "conforms ATTEMPT_SCHEMA (attempt_row a)"
  by (simp add: ATTEMPT_SCHEMA_def attempt_row_def conforms_obj nullable_defs all_attempt_states)

lemma show_event_conforms [simp]: "conforms SHOW_EVENT_SCHEMA (show_event e)"
  by (simp add: SHOW_EVENT_SCHEMA_def show_event_def conforms_obj nullable_defs all_event_types)

lemma event_record_conforms [simp]: "conforms EVENT_RECORD_SCHEMA (JObject (event_from_row e))"
  by (simp add: EVENT_RECORD_SCHEMA_def event_from_row_def conforms_obj nullable_defs all_event_types)


section \<open>The data of each verb\<close>

lemma conforms_empty_map [simp]: "conforms (map_to s) (JObject [])"
  by simp

lemma idempotency_conforms:
  "conforms IDEMPOTENCY_RESULT_SCHEMA (JObject [(''key'', JString k), (''metadata_differs'', JBool b),
     (''metadata_differences'', JObject (map (\<lambda>(k, old, new). (k, JObject
        [(''existing'', pval_json old), (''submitted'', pval_json new)])) diff))])"
  by (auto simp: IDEMPOTENCY_RESULT_SCHEMA_def DIFFERENCE_SCHEMA_def conforms_dict)

lemma add_conforms:
  assumes "ad_state a = QUEUED \<or> ad_state a = RUNNING" and "ad_deduplicated a \<longrightarrow> ad_key a \<noteq> None"
  shows "conforms ADD_DATA_SCHEMA (JObject (add_json a))"
  using assms idempotency_conforms
  by (auto simp: ADD_DATA_SCHEMA_def add_json_def conforms_obj_req nullable_defs simp del: conforms_map_to)

lemma claimed_conforms:
  assumes "case s of None \<Rightarrow> True | Some su \<Rightarrow> su_result su \<in> {''succeeded'', ''failed'', ''timed_out''}"
  shows "conforms WORK_DATA_SCHEMA (JObject (claimed_json s))"
proof (cases s)
  case None
  then show ?thesis by (simp add: WORK_DATA_SCHEMA_def claimed_json_def conforms_dict)
next
  case (Some su)
  have "has_type (json_opt (\<lambda>st. JString (job_state_name st)) v) String \<or>
    json_opt (\<lambda>st. JString (job_state_name st)) v = JNull" for v by simp
  with Some assms show ?thesis by (simp add: WORK_DATA_SCHEMA_def claimed_json_def conforms_dict)
qed

lemma work_conforms:
  "conforms WORK_DATA_SCHEMA (JObject [(''drained'', JBool b), (''executed'', JInt n)])"
  "conforms WORK_DATA_SCHEMA (JObject [(''stopped'', JBool True)])"
  by (simp_all add: WORK_DATA_SCHEMA_def conforms_dict)

lemma wait_conforms: "conforms WAIT_DATA_SCHEMA (JObject (wait_json d))"
  by (auto simp: WAIT_DATA_SCHEMA_def wait_json_def conforms_obj nullable_defs)

lemma counts_conform:
  "conforms (obj (map (\<lambda>s. (job_state_name s, typed Integer)) (sort JOB_STATES))) (counts_json c)"
proof -
  have "sort JOB_STATES = [CANCELED, DEAD, DONE, FAILED, QUEUED, RUNNING]" by code_simp
  then show ?thesis by (simp add: counts_json_def conforms_obj)
qed

lemma dead_conforms:
  "conforms (obj [(''attempts'', typed Integer), (''command'', typed String),
                    (''crashes'', typed Integer), (''finished_at'', NULLABLE_NUMBER),
                    (''id'', typed Integer), (''last_error'', NULLABLE_STRING),
                    (''stderr_path'', NULLABLE_STRING), (''stdout_path'', NULLABLE_STRING)]) (dead_json r)"
  by (simp add: dead_json_def conforms_obj nullable_defs)

lemma status_conforms: "conforms STATUS_DATA_SCHEMA (JObject (status_json d))"
proof -
  have "conforms (map_to (obj [(''counts'', obj (map (\<lambda>s. (job_state_name s, typed Integer)) (sort JOB_STATES))),
          (''scheduled'', typed Integer)]))
     (JObject (map (\<lambda>(q, qs). (q, JObject [(''counts'', counts_json (qs_counts qs)),
         (''scheduled'', JInt (qs_scheduled qs))])) qm))" for qm
    by (auto simp: conforms_obj[of "[(''counts'', _), _]"] counts_conform)
  then show ?thesis
    by (auto simp: STATUS_DATA_SCHEMA_def status_json_def conforms_obj[of "[(''counts'', _), _, _, _]"]
        counts_conform dead_conforms simp del: conforms_map_to)
qed

lemma list_conforms: "conforms LIST_DATA_SCHEMA (JObject (list_json r))"
  by (auto simp: LIST_DATA_SCHEMA_def list_json_def conforms_obj)

lemma show_conforms: "conforms SHOW_DATA_SCHEMA (JObject (show_json r))"
  by (auto simp: SHOW_DATA_SCHEMA_def show_json_def conforms_obj)

lemma prune_conforms: "conforms PRUNE_DATA_SCHEMA (JObject (prune_json r))"
  by (simp add: PRUNE_DATA_SCHEMA_def prune_json_def conforms_obj_req)

lemma output_conforms: "conforms OUTPUT_DATA_SCHEMA (JObject (output_json r))"
  by (auto simp: OUTPUT_DATA_SCHEMA_def output_json_def STREAM_SCHEMA_def conforms_dict all_attempt_states
      split: output_result.splits)

lemma feedback_stream_conforms: "conforms FEEDBACK_STREAM_SCHEMA (feedback_stream_json e)"
  by (simp add: FEEDBACK_STREAM_SCHEMA_def feedback_stream_json_def conforms_obj nullable_defs)

lemma feedback_conforms: "conforms FEEDBACK_DATA_SCHEMA (JObject (feedback_json d))"
  by (simp add: FEEDBACK_DATA_SCHEMA_def FEEDBACK_SCHEMA_def feedback_json_def conforms_obj nullable_defs
      feedback_stream_conforms)

lemma source_names: "source_name s \<in> {''flag'', ''environment'', ''project_config'', ''default''}"
  by (cases s) simp_all

lemma config_conforms: "conforms CONFIG_SHOW_DATA_SCHEMA (JObject (config_json e))"
  using source_names[of "ec_db_source e"]
  by (simp add: CONFIG_SHOW_DATA_SCHEMA_def config_json_def PRECEDENCE_def conforms_obj nullable_defs)

lemma validation_conforms: "conforms CONFIG_VALIDATE_DATA_SCHEMA (JObject (validation_json v))"
  by (simp add: CONFIG_VALIDATE_DATA_SCHEMA_def validation_json_def conforms_obj CONFIG_SCHEMA_VERSION_def)

lemma status_names: "status_name s \<in> {''pass'', ''warn'', ''fail'', ''skip''}"
  by (cases s) simp_all

lemma check_conforms:
  "conforms (obj [(''id'', typed String), (''status'', choice [''pass'', ''warn'', ''fail'', ''skip'']),
                    (''message'', typed String), (''remediation'', NULLABLE_STRING),
                    (''blocked_by'', NULLABLE_STRING)]) (check_json wo c)"
  using status_names[of "ck_status c"] by (simp add: check_json_def conforms_obj nullable_defs)

lemma db_source_conforms:
  "conforms (Schema [Types [String, Null], Enum [JString ''flag'', JString ''environment'', JString ''project_config'',
      JString ''default'', JNull]]) (json_opt (\<lambda>s. JString (source_name s)) x)"
proof (cases x)
  case (Some s)
  with source_names[of s] show ?thesis by (auto simp: conforms.simps)
qed (simp add: conforms.simps)

lemma doctor_conforms: "conforms DOCTOR_DATA_SCHEMA (JObject (doctor_json wo d))"
  by (simp add: DOCTOR_DATA_SCHEMA_def doctor_json_def db_source_conforms check_conforms[unfolded nullable_defs]
      conforms_obj[of "[(''ready'', _), _, _, _, _]"] conforms_obj[of "[(''passed'', _), _, _, _]"]
      conforms_obj[of "[(''config_path'', _), _, _, _, _]"] conforms_obj[of "[(''tool_version'', _), _, _]"]
      nullable_defs)

lemma retry_conforms: "conforms RETRY_DATA_SCHEMA (JObject [(''job_id'', JInt i), (''state'', JString ''queued'')])"
  by (simp add: RETRY_DATA_SCHEMA_def conforms_obj)

lemma cancel_conforms: "conforms CANCEL_DATA_SCHEMA (JObject [(''job_id'', JInt i), (''state'', JString ''canceled''),
    (''was_running'', JBool b)])"
  by (simp add: CANCEL_DATA_SCHEMA_def conforms_obj)

lemma events_conforms: "conforms EVENTS_DATA_SCHEMA (JObject [(''count'', JInt n),
    (''events'', JList (map (\<lambda>e. JObject (event_from_row e)) es))])"
  by (auto simp: EVENTS_DATA_SCHEMA_def conforms_obj)


section \<open>The envelope\<close>

lemma error_conforms: "published (CliError e) \<Longrightarrow> conforms ERROR_SCHEMA (JObject (error_json wo e))"
  by (auto simp: published_def ERROR_SCHEMA_def error_json_def conforms_obj_req nullable_defs code_lists
      split: option.splits)

lemma warning_conforms: "c \<in> set WARNING_CODES \<Longrightarrow> conforms WARNING_SCHEMA (JObject (warning_json wo c))"
  by (simp add: WARNING_SCHEMA_def warning_json_def conforms_obj_req)

abbreviation meta_schema :: schema where
  "meta_schema \<equiv> obj_req [(''request_id'', typed String), (''ts_iso'', typed String),
                  (''elapsed_ms'', typed Integer), (''contract_version'', typed String),
                  (''data_hash'', typed String), (''pagination'', PAGINATION_SCHEMA),
                  (''wait'', WAIT_META_SCHEMA)]
               [''request_id'', ''ts_iso'', ''elapsed_ms'', ''contract_version'', ''data_hash'']"

lemma pagination_conforms:
  "conforms PAGINATION_SCHEMA (JObject (list_pagination r))" "conforms PAGINATION_SCHEMA (JObject (pagination_json p))"
  by (auto simp: PAGINATION_SCHEMA_def list_pagination_def pagination_json_def conforms_obj_req nullable_defs
      split: option.split)

lemma wait_meta_conforms:
  "conforms WAIT_META_SCHEMA (JObject [(''reason'', JString (wait_reason_name r)), (''waited_ms'', JInt n)])"
  by (cases r) (simp_all add: WAIT_META_SCHEMA_def conforms_obj)

lemma meta_conforms:
  "conforms meta_schema (JObject (dict_update [(''request_id'', JString i), (''ts_iso'', JString t),
     (''elapsed_ms'', JInt n), (''contract_version'', JString v), (''data_hash'', JString h)] (meta_extra sp data)))"
proof -
  note defs = conforms_obj_req dict_update_def pagination_conforms wait_meta_conforms
  show ?thesis
  proof (cases data)
    case (P_list r)
    then show ?thesis by (simp add: meta_extra_def defs)
  next
    case (P_events es pg reason)
    then show ?thesis by (cases reason) (simp_all add: meta_extra_def defs)
  qed (simp_all add: meta_extra_def defs)
qed

lemma make_envelope_Inr:
  assumes "meta_extra' = meta_extra sp data"
  shows "\<exists>meta. make_envelope sp v ws [] meta_extra' es = Inr [(''ok'', JBool (es = [])),
      (''tool_version'', JString TOOL_VERSION), (''data'', v), (''meta'', JObject meta),
      (''warnings'', JList (map JObject ws)), (''commands'', jstrings []), (''errors'', JList (map JObject es))]
    \<and> conforms meta_schema (JObject meta)"
proof -
  let ?base = "[(''request_id'', JString (sp_request_id sp)), (''ts_iso'', JString (sp_ts_iso sp)),
            (''elapsed_ms'', JInt (sp_elapsed_ms sp)), (''contract_version'', JString CONTRACT_VERSION),
            (''data_hash'', JString (sp_data_hash sp v))]"
  have keys: "set (map fst meta_extra') \<subseteq> {''pagination'', ''wait''}"
    unfolding assms by (auto simp: meta_extra_def split: payload.splits option.splits)
  have ok: "conforms meta_schema (JObject (dict_update ?base meta_extra'))"
    unfolding assms by (rule meta_conforms)
  show ?thesis
  proof (cases "meta_extra' = []")
    case True
    with ok show ?thesis by (auto simp: make_envelope_def Let_def dict_update_def)
  next
    case False
    moreover have "\<not> list_ex (\<lambda>f. fst f \<in> set (map fst ?base)) meta_extra'"
      using keys by (auto simp: list_ex_iff)
    ultimately show ?thesis using ok by (auto simp: make_envelope_def Let_def)
  qed
qed

lemma envelope_fields:
  assumes "conforms meta_schema (JObject meta)" and "list_all (\<lambda>w. conforms WARNING_SCHEMA (JObject w)) ws"
    and "list_all (\<lambda>e. conforms ERROR_SCHEMA (JObject e)) es"
  shows "conforms ENVELOPE_SCHEMA (JObject [(''ok'', JBool b), (''tool_version'', JString t), (''data'', v),
    (''meta'', JObject meta), (''warnings'', JList (map JObject ws)), (''commands'', jstrings cs),
    (''errors'', JList (map JObject es))])"
  using assms by (simp add: ENVELOPE_SCHEMA_def conforms_obj list_all_iff)


section \<open>The answer of a command\<close>

definition answer_ok :: "wording \<Rightarrow> command \<Rightarrow> verb_result \<Rightarrow> bool" where
  \<comment> \<open>the data conforms to the schema of the verb, the warnings are codes of warnings\<close>
  "answer_ok wo c r \<longleftrightarrow> set (vr_warnings r) \<subseteq> set WARNING_CODES \<and>
     (case map_of VERB_SCHEMAS (verb_name c) of None \<Rightarrow> False
      | Some s \<Rightarrow> vr_stdout_silent r \<or> conforms s (payload_json wo (vr_data r)))"

lemma verb_schemas [simp]:
  "map_of VERB_SCHEMAS ''add'' = Some ADD_DATA_SCHEMA" "map_of VERB_SCHEMAS ''work'' = Some WORK_DATA_SCHEMA"
  "map_of VERB_SCHEMAS ''wait'' = Some WAIT_DATA_SCHEMA" "map_of VERB_SCHEMAS ''status'' = Some STATUS_DATA_SCHEMA"
  "map_of VERB_SCHEMAS ''list'' = Some LIST_DATA_SCHEMA" "map_of VERB_SCHEMAS ''show'' = Some SHOW_DATA_SCHEMA"
  "map_of VERB_SCHEMAS ''retry'' = Some RETRY_DATA_SCHEMA" "map_of VERB_SCHEMAS ''cancel'' = Some CANCEL_DATA_SCHEMA"
  "map_of VERB_SCHEMAS ''prune'' = Some PRUNE_DATA_SCHEMA" "map_of VERB_SCHEMAS ''output'' = Some OUTPUT_DATA_SCHEMA"
  "map_of VERB_SCHEMAS ''feedback'' = Some FEEDBACK_DATA_SCHEMA" "map_of VERB_SCHEMAS ''events'' = Some EVENTS_DATA_SCHEMA"
  "map_of VERB_SCHEMAS ''config-show'' = Some CONFIG_SHOW_DATA_SCHEMA"
  "map_of VERB_SCHEMAS ''config-validate'' = Some CONFIG_VALIDATE_DATA_SCHEMA"
  "map_of VERB_SCHEMAS ''doctor'' = Some DOCTOR_DATA_SCHEMA" "map_of VERB_SCHEMAS ''brief'' = Some BRIEF_DATA_SCHEMA"
  "map_of VERB_SCHEMAS ''robot-docs'' = Some ROBOT_DOCS_DATA_SCHEMA"
  "map_of VERB_SCHEMAS ''schema'' = Some SCHEMA_DATA_SCHEMA"
  "map_of VERB_SCHEMAS ''capabilities'' = Some CAPABILITIES_DATA_SCHEMA"
  by (simp_all add: VERB_SCHEMAS_def)

lemma warning_codes [simp]:
  "KILL_ASYNC \<in> set WARNING_CODES" "NO_ATTEMPTS_YET \<in> set WARNING_CODES"
  "IDEMPOTENCY_METADATA_DIFFERS \<in> set WARNING_CODES" "TAG_FILTER_SCAN_CAPPED \<in> set WARNING_CODES"
  by (simp_all add: code_lists)

lemma active_with_key_state: "active_with_key k d = Some j \<Longrightarrow> j_state j = QUEUED \<or> j_state j = RUNNING"
  by (auto simp: active_with_key_def dest!: first_by_Some)

lemma add_operation_answer:
  assumes "add_operation s now d others = (Inr a, d')"
  shows "(ad_state a = QUEUED \<or> ad_state a = RUNNING) \<and> (ad_deduplicated a \<longrightarrow> ad_key a \<noteq> None)
    \<and> set (ad_warnings a) \<subseteq> set WARNING_CODES"
  using assms
  by (auto simp: add_operation_def add_job_checked_def Let_def and_then_def fails_def
      split: sum.splits prod.splits option.splits idem_info.splits if_splits dest: active_with_key_state)

lemma add_answer:
  "add_operation s now d others = (Inr a, d') \<Longrightarrow>
     conforms ADD_DATA_SCHEMA (JObject (add_json a)) \<and> set (ad_warnings a) \<subseteq> set WARNING_CODES"
  using add_operation_answer[of s now d others a d'] by (simp add: add_conforms)

lemma execute_attempt_kind:
  "execute_attempt j child = Inr (out, sent) \<Longrightarrow> fst out \<in> {''succeeded'', ''failed'', ''timed_out''}"
  by (auto simp: execute_attempt_def split: child.splits if_splits)

lemma process_one_result:
  assumes "process_one cy out w lane slots d = (Inr s, d')"
  shows "case s of None \<Rightarrow> True | Some su \<Rightarrow> su_result su \<in> {''succeeded'', ''failed'', ''timed_out''}"
  using assms execute_attempt_kind
  by (fastforce simp: process_one_def Let_def split: prod.splits option.splits sum.splits)

lemma cancel_operation_warnings:
  "cancel_operation i running now d = (Inr data, d') \<Longrightarrow> set (cd_warnings data) \<subseteq> set WARNING_CODES"
  by (auto simp: cancel_operation_def not_found_def fails_def split: prod.splits cancel_outcome.splits)

lemma capabilities_document:
  "\<exists>d. build_capabilities SUBPARSERS = Some d \<and> conforms CAPABILITIES_DATA_SCHEMA (JObject d)"
proof (rule capabilities_conform_of)
  show "set (map fst SUBPARSERS) \<subseteq> set VERBS" by (rule equalityD1[OF subparsers_verbs(1)])
  show "\<forall>v\<in>set SUBPARSERS. \<forall>a\<in>set (snd v). describable a"
    using subparsers_describable by (simp only: list_all_iff)
qed

lemma brief_document: "brief_data = Some d \<Longrightarrow> conforms BRIEF_DATA_SCHEMA (JObject d)"
  using brief_conforms by (metis option.inject)

lemma capabilities_built_document:
  "build_capabilities SUBPARSERS = Some d \<Longrightarrow> conforms CAPABILITIES_DATA_SCHEMA (JObject d)"
  using capabilities_document by (metis option.inject)

lemmas data_conforms = add_conforms claimed_conforms work_conforms wait_conforms status_conforms list_conforms
  show_conforms prune_conforms output_conforms feedback_conforms config_conforms validation_conforms
  doctor_conforms retry_conforms cancel_conforms events_conforms

lemma dispatch_answer:
  assumes "dispatch w flag True explicit c = Some oc" and "oc_result oc = Inr r"
  shows "answer_ok wo c r"
proof (cases c)
  case (C_add a)
  with assms show ?thesis
    by (auto simp: dispatch_def verb_defs plumbing_defs answer_ok_def verb_name_def payload_json_def
        split: sum.splits prod.splits dest!: add_answer) blast
next
  case (C_work a)
  with assms show ?thesis
    by (auto simp: dispatch_def cmd_work_def plumbing_defs answer_ok_def verb_name_def payload_json_def work_conforms
        split: sum.splits prod.splits if_splits dest!: claimed_conforms[OF process_one_result])
next
  case (C_cancel i running yes)
  with assms show ?thesis
    by (auto simp: dispatch_def cmd_cancel_def plumbing_defs answer_ok_def verb_name_def payload_json_def cancel_conforms
        split: sum.splits prod.splits if_splits dest!: cancel_operation_warnings) blast+
next
  case C_brief
  with assms brief_document show ?thesis
    by (auto simp: dispatch_def cmd_brief_def plumbing_defs answer_ok_def verb_name_def payload_json_def)
next
  case C_capabilities
  with assms capabilities_built_document show ?thesis
    by (auto simp: dispatch_def cmd_capabilities_def plumbing_defs answer_ok_def verb_name_def payload_json_def
        split: option.splits)
next
  case (C_robot_docs sub)
  with assms robot_docs_conform show ?thesis
    by (auto simp: dispatch_def cmd_robot_docs_def plumbing_defs answer_ok_def verb_name_def payload_json_def
        split: if_splits)
next
  case (C_schema v)
  with assms schema_document_conforms show ?thesis
    by (auto simp: dispatch_def cmd_schema_def plumbing_defs answer_ok_def verb_name_def payload_json_def)
qed (use assms in \<open>auto simp: dispatch_def verb_defs plumbing_defs answer_ok_def verb_name_def payload_json_def
      data_conforms split: sum.splits prod.splits if_splits output_result.splits option.splits\<close>)


lemma main_answer:
  assumes "main w parse argv = Some p" and "ps_error p = None" and "ps_stdout p = Envelope data ws err"
  shows "\<exists>q c flag explicit oc v. parse argv = Parsed q \<and> pa_command q = Some c
    \<and> dispatch w flag True explicit c = Some oc \<and> oc_result oc = Inr v
    \<and> data = vr_data v \<and> ws = vr_warnings v \<and> err = None \<and> \<not> vr_stdout_silent v"
proof (cases "parse argv")
  case (Parsed q)
  from assms have none: "verbless_error argv = None" by (auto simp: main_def Let_def emit_failure_def split: option.splits)
  then obtain c where c: "pa_command q = Some c"
    using assms Parsed by (auto simp: main_def Let_def emit_failure_def split: option.splits)
  define json where "json = (case pa_json q of None \<Rightarrow> json_requested argv | Some j \<Rightarrow> j)"
  have "map_option (\<lambda>oc. case oc_result oc of
        Inl x \<Rightarrow> emit_failure (exception_error x) json (oc_db oc) (oc_disk oc)
      | Inr r \<Rightarrow> emit_result r json (oc_db oc) (oc_disk oc))
    (dispatch w (pa_db q) json (explicit_add_boundary argv) c) = Some p"
    unfolding json_def using assms(1) none Parsed c by (simp add: main_def Let_def)
  then obtain oc where oc: "dispatch w (pa_db q) json (explicit_add_boundary argv) c = Some oc"
    "p = (case oc_result oc of Inl x \<Rightarrow> emit_failure (exception_error x) json (oc_db oc) (oc_disk oc)
      | Inr r \<Rightarrow> emit_result r json (oc_db oc) (oc_disk oc))" by auto
  with assms(2) obtain v where v: "oc_result oc = Inr v" by (auto simp: emit_failure_def split: sum.splits)
  with oc(2) assms(3) have "json" "data = vr_data v" "ws = vr_warnings v" "err = None" "\<not> vr_stdout_silent v"
    by (auto simp: emit_result_def split: if_splits)
  with oc(1) v c Parsed show ?thesis by auto
qed (use assms in \<open>auto simp: main_def Let_def emit_failure_def split: option.splits sum.splits\<close>)

section \<open>Properties\<close>

text \<open>C14. Whatever the command line, every envelope a run writes conforms to the published envelope schema:
  the extra entries of its meta part never collide with the base ones, its errors and warnings are codes
  of the registry. An error leaves no data; otherwise the data conforms to the schema published for the
  verb that ran.\<close>

theorem envelope_conforms:
  assumes "main w parse argv = Some p" and "connects w" and "printed wo sp (ps_stdout p) = Some r"
  shows "\<exists>env. r = Inr env \<and> conforms ENVELOPE_SCHEMA (JObject env) \<and>
    (case ps_error p of
       Some e \<Rightarrow> map_of env ''ok'' = Some (JBool False) \<and> map_of env ''data'' = Some JNull
     | None \<Rightarrow> map_of env ''ok'' = Some (JBool True) \<and> (\<exists>q c s d. parse argv = Parsed q \<and> pa_command q = Some c
         \<and> map_of VERB_SCHEMAS (verb_name c) = Some s \<and> map_of env ''data'' = Some d \<and> conforms s d))"
proof -
  from assms(3) obtain data ws err where out: "ps_stdout p = Envelope data ws err"
    and r: "r = make_envelope sp (payload_json wo data) (map (warning_json wo) ws) [] (meta_extra sp data)
      (case err of None \<Rightarrow> [] | Some e \<Rightarrow> [error_json wo e])"
    by (auto simp: printed_def split: stdout.splits)
  obtain meta where env: "r = Inr [(''ok'', JBool ((case err of None \<Rightarrow> [] | Some e \<Rightarrow> [error_json wo e]) = [])),
      (''tool_version'', JString TOOL_VERSION), (''data'', payload_json wo data), (''meta'', JObject meta),
      (''warnings'', JList (map JObject (map (warning_json wo) ws))), (''commands'', jstrings []),
      (''errors'', JList (map JObject (case err of None \<Rightarrow> [] | Some e \<Rightarrow> [error_json wo e])))]"
    and meta: "conforms meta_schema (JObject meta)"
    using make_envelope_Inr[OF refl, of sp "payload_json wo data" "map (warning_json wo) ws" data
        "case err of None \<Rightarrow> [] | Some e \<Rightarrow> [error_json wo e]"] unfolding r by blast
  have ok: "process_ok p" using main_process_ok[OF assms(1,2)] out by simp
  show ?thesis
  proof (cases "ps_error p")
    case (Some e)
    with ok out have e: "data = P_none" "ws = []" "err = Some e" "published (CliError e)"
      by (auto simp: process_ok_def)
    have "conforms ENVELOPE_SCHEMA (JObject (projr r))"
      unfolding env sum.sel by (rule envelope_fields[OF meta]) (simp_all add: e error_conforms)
    with env e Some show ?thesis by (auto simp: payload_json_def)
  next
    case None
    with ok out have e: "err = None" by (auto simp: process_ok_def)
    from main_answer[OF assms(1) None] out obtain q c flag explicit oc v where q: "parse argv = Parsed q"
      "pa_command q = Some c" "dispatch w flag True explicit c = Some oc" "oc_result oc = Inr v"
      "data = vr_data v" "ws = vr_warnings v" "\<not> vr_stdout_silent v" by blast
    have a: "answer_ok wo c v" by (rule dispatch_answer[OF q(3,4)])
    then have "list_all (\<lambda>w. conforms WARNING_SCHEMA (JObject w)) (map (warning_json wo) ws)"
      unfolding q(6) answer_ok_def list_all_iff by (auto intro: warning_conforms)
    then have "conforms ENVELOPE_SCHEMA (JObject (projr r))"
      unfolding env sum.sel by (intro envelope_fields[OF meta]) (simp_all add: e)
    moreover from a obtain s where "map_of VERB_SCHEMAS (verb_name c) = Some s" "conforms s (payload_json wo data)"
      using q(5,7) by (auto simp: answer_ok_def split: option.splits)
    ultimately show ?thesis using env e None q(1,2) by auto
  qed
qed

definition demo_wording :: wording where
  "demo_wording = \<lparr>wo_error = (\<lambda>_. (''failed'', ''try again'')), wo_warning = code_name, wo_check = (\<lambda>_. ([], None))\<rparr>"

definition demo_stamp :: stamp where
  "demo_stamp = \<lparr>sp_request_id = ''req_0'', sp_ts_iso = [], sp_elapsed_ms = 1, sp_waited_ms = 0,
     sp_data_hash = (\<lambda>_. ''sha256:0'')\<rparr>"

theorem envelope_conforms_witness:
  "\<exists>p r env. main demo_world (parses (C_wait [''2''] None (IsFloat (Finite 1)))) [''wait'', ''--json'', ''2''] = Some p
     \<and> printed demo_wording demo_stamp (ps_stdout p) = Some r \<and> r = Inr env
     \<and> conforms ENVELOPE_SCHEMA (JObject env)"
proof -
  let ?m = "main demo_world (parses (C_wait [''2''] None (IsFloat (Finite 1)))) [''wait'', ''--json'', ''2'']"
  have verb: "verbless_error [''wait'', ''--json'', ''2''] = None" by code_simp
  have "case ?m of None \<Rightarrow> False | Some p \<Rightarrow> printed demo_wording demo_stamp (ps_stdout p) \<noteq> None"
    unfolding main_parses[OF verb] dispatch_def command.case by code_simp
  then obtain p r where p: "?m = Some p" "printed demo_wording demo_stamp (ps_stdout p) = Some r"
    by (auto split: option.splits)
  have "connects demo_world" by (simp add: connects_def demo_world_def)
  from envelope_conforms[OF p(1) this p(2)] p show ?thesis by blast
qed

text \<open>C15. Every frame the follower writes conforms to the published schema of the stream, data and control
  frames alike; a data frame also to the schema of bare records. At most the last frame is a control
  frame, and there is one exactly when the tail ended by itself: idle, after the asked number of events
  or on a database error.\<close>

theorem frames_conform:
  "list_all (\<lambda>f. case map_of STREAM_SCHEMAS ''events_follow'' of Some s \<Rightarrow> conforms s f | None \<Rightarrow> False)
     (follow_frames message es reason)
   \<and> list_all (\<lambda>f. case map_of STREAM_SCHEMAS ''events_follow_data'' of Some s \<Rightarrow> conforms s f | None \<Rightarrow> False)
       (take (length es) (follow_frames message es reason))
   \<and> length (follow_frames message es reason) =
       length es + (if reason \<in> {Idle, Max_events, Sqlite_error} then 1 else 0)"
proof -
  let ?one = "\<lambda>f. length (filter (\<lambda>s. conforms s f) [EVENT_RECORD_SCHEMA, EVENT_CONTROL_FRAME_SCHEMA]) = 1"
  have no_control: "\<not> conforms EVENT_CONTROL_FRAME_SCHEMA (JObject (event_from_row e))" for e
    by (simp add: EVENT_CONTROL_FRAME_SCHEMA_def event_from_row_def conforms_obj)
  have no_record: "\<not> conforms EVENT_RECORD_SCHEMA (control_frame t r x)" for t r x
    by (simp add: EVENT_RECORD_SCHEMA_def control_frame_def conforms_obj)
  have control: "conforms EVENT_CONTROL_FRAME_SCHEMA (control_frame ''end'' ''idle_timeout'' [])"
    "conforms EVENT_CONTROL_FRAME_SCHEMA (control_frame ''end'' ''max_events'' [])"
    "conforms EVENT_CONTROL_FRAME_SCHEMA (control_frame ''error'' ''sqlite_error''
       [(''message'', JString message), (''exit_code'', JInt EXIT_ENVIRONMENT)])"
    by (simp_all add: EVENT_CONTROL_FRAME_SCHEMA_def control_frame_def conforms_dict dict_update_def)
  show ?thesis using no_control no_record control
    by (cases reason) (auto simp: STREAM_SCHEMAS_def conforms_one_of follow_frames_def list_all_iff)
qed


end
