(* ===== verification/Published.thy ===== *)
theory Published
  imports Payloads ContractProps
begin

text \<open>
  What the capabilities document says of the arguments, against what the verbs do with them: the ranges that
  the contract builders publish for each flag and positional, and the flags published as exclusive.
\<close>

declare conforms.simps(2) [simp del]

section \<open>The entry of an argument\<close>

definition published_entry :: "string \<Rightarrow> string \<Rightarrow> dict option" where
  \<comment> \<open>of a positional or a flag in the description of a verb\<close>
  "published_entry verb name = (case map_of SUBPARSERS verb of None \<Rightarrow> None
     | Some actions \<Rightarrow>
         find (\<lambda>d. entry_text ''name'' d = name) (describe_args actions @ describe_flags verb actions))"

definition action_name :: "action \<Rightarrow> string" where
  "action_name a = (if ac_option_strings a = [] then ac_dest a else canonical_flag a)"

definition action_entry :: "string \<Rightarrow> action \<Rightarrow> dict" where
  "action_entry verb a = (if ac_option_strings a = [] then describe_positional a
     else with_flag_contract verb a (canonical_flag a))"

definition visible :: "action list \<Rightarrow> action list" where
  "visible actions = filter (\<lambda>a. ac_kind a \<noteq> Help) actions"

lemma set_described:
  "set (describe_args actions @ describe_flags v actions) = action_entry v ` set (visible actions)"
  by (auto simp: describe_args_def describe_flags_def action_entry_def visible_def)

lemma map_of_rev: "distinct (map fst e) \<Longrightarrow> map_of (rev e) = map_of e"
proof (induction e)
  case (Cons f e)
  then have "map_of e (fst f) = None" by (simp add: map_of_eq_None_iff)
  with Cons show ?case by (auto simp: map_add_def fun_eq_iff split: option.splits)
qed simp

lemma lookup_dict_update:
  "distinct (map fst e) \<Longrightarrow> map_of (dict_update d e) k = (case map_of e k of Some v \<Rightarrow> Some v | None \<Rightarrow> map_of d k)"
  by (simp add: map_of_dict_update map_of_rev map_add_def)

lemma lookup_dict_default:
  "map_of (dict_default k v d) k' = (if k' = k \<and> map_of d k = None then Some v else map_of d k')"
  by (auto simp: dict_default_def map_add_def split: option.splits)

abbreviation keyed :: "dict \<Rightarrow> bool" where
  "keyed d \<equiv> distinct (map fst d) \<and> ''name'' \<notin> set (map fst d)"

lemma keyed_update [intro]: "keyed d \<Longrightarrow> keyed e \<Longrightarrow> keyed (dict_update d e)"
  using keys_dict_update[of d e] by (auto intro: distinct_dict_update)

lemma limits_keyed: "list_all (\<lambda>f. keyed (snd f)) LIMITS"
  by (simp add: LIMITS_def)

lemma limit_keyed: "keyed (limit_of name)"
  using limits_keyed by (force simp: limit_of_def list_all_iff dest: map_of_SomeD split: option.splits)

lemma contracts_keyed:
  "list_all (\<lambda>f. keyed (snd f)) FLAG_CONTRACTS" "list_all (\<lambda>f. keyed (snd f)) VERB_FLAG_CONTRACTS"
  "list_all (\<lambda>f. keyed (snd f)) POSITIONAL_CONTRACTS"
  using limit_keyed
  by (simp_all add: FLAG_CONTRACTS_def VERB_FLAG_CONTRACTS_def POSITIONAL_CONTRACTS_def keys_dict_update
      distinct_dict_update)

lemma keyed_lookup: "keyed d \<Longrightarrow> map_of d ''name'' = None"
  by (simp add: map_of_eq_None_iff)

lemma override_keyed: "keyed (flag_override v flag)"
proof -
  have "keyed d" if "map_of FLAG_CONTRACTS flag = Some d" for d
    using contracts_keyed(1) map_of_SomeD[OF that] by (fastforce simp: list_all_iff)
  moreover have "keyed d" if "map_of VERB_FLAG_CONTRACTS (v, flag) = Some d" for d
    using contracts_keyed(2) map_of_SomeD[OF that] by (fastforce simp: list_all_iff)
  ultimately show ?thesis by (auto simp: flag_override_def Let_def split: option.splits intro!: distinct_dict_update
        simp: keys_dict_update)
qed

lemma positional_keyed: "map_of POSITIONAL_CONTRACTS n = Some d \<Longrightarrow> keyed d"
  using contracts_keyed(3) map_of_SomeD[of POSITIONAL_CONTRACTS n d] by (fastforce simp: list_all_iff)

lemma apply_override_lookup:
  assumes "keyed ov" and "k \<notin> {''malformed_expectations'', ''choices'', ''repeatable''}"
  shows "map_of (apply_override a ov e) k = (case map_of ov k of Some x \<Rightarrow> Some x | None \<Rightarrow> map_of e k)"
proof -
  have "map_of (dict_update d [(k', v)]) k = map_of d k"
    if "k' \<in> {''malformed_expectations'', ''choices'', ''repeatable''}" for d k' v
    using that assms(2) by (auto simp: lookup_dict_update)
  then show ?thesis using assms(1) by (simp add: apply_override_def Let_def lookup_dict_update)
qed

lemma flag_contract_lookup:
  assumes "k \<notin> {''malformed_expectations'', ''choices'', ''repeatable''}"
  shows "map_of (with_flag_contract v a flag) k =
    (case map_of (type_bounds (apply_override a (flag_override v flag) (flag_entry a flag))) k of
       Some x \<Rightarrow> Some x
     | None \<Rightarrow> (case map_of (flag_override v flag) k of Some x \<Rightarrow> Some x | None \<Rightarrow> map_of (flag_entry a flag) k))"
proof -
  have "distinct (map fst (type_bounds e))" for e by (simp add: type_bounds_def)
  moreover have "map_of (dict_update d [(''choices'', x)]) k = map_of d k" for d x
    using assms by (simp add: lookup_dict_update)
  ultimately show ?thesis using apply_override_lookup[OF override_keyed assms, of a v flag "flag_entry a flag"]
    by (simp add: with_flag_contract_def Let_def lookup_dict_update split: option.split)
qed

lemma flag_entry_name: "map_of (flag_entry a flag) ''name'' = Some (JString flag)"
  by (simp add: flag_entry_def Let_def lookup_dict_update)

lemma flag_contract_name: "entry_text ''name'' (with_flag_contract v a flag) = flag"
proof -
  have "map_of (type_bounds e) ''name'' = None" for e by (simp add: type_bounds_def del: power_numeral)
  moreover have "map_of (flag_override v flag) ''name'' = None" by (rule keyed_lookup[OF override_keyed])
  ultimately have "map_of (with_flag_contract v a flag) ''name'' = Some (JString flag)"
    by (simp add: flag_contract_lookup flag_entry_name)
  then show ?thesis by (simp add: entry_text_def)
qed

lemma default_keeps: "map_of d k = Some x \<Longrightarrow> map_of (dict_default k' v d) k = Some x"
  by (auto simp: lookup_dict_default)

lemma positional_lookup:
  assumes "k \<in> {''minimum'', ''maximum''}" and d: "map_of POSITIONAL_CONTRACTS (ac_dest a) = Some d"
    and "map_of d k = Some x"
  shows "map_of (describe_positional a) k = Some x"
proof -
  have "map_of (dict_update e d) k = Some x" for e
    using positional_keyed[OF d] assms(3) by (simp add: lookup_dict_update)
  then show ?thesis by (simp add: describe_positional_def Let_def d default_keeps)
qed

lemma positional_name: "entry_text ''name'' (describe_positional a) = ac_dest a"
proof -
  let ?known = "case map_of POSITIONAL_CONTRACTS (ac_dest a) of None \<Rightarrow> [] | Some d \<Rightarrow> d"
  have known: "keyed ?known" using positional_keyed by (auto split: option.splits)
  have "map_of (dict_update e ?known) ''name'' = Some (JString (ac_dest a))"
    if "map_of e ''name'' = Some (JString (ac_dest a))" for e
    using known keyed_lookup[OF known] that by (simp add: lookup_dict_update)
  then have "map_of (describe_positional a) ''name'' = Some (JString (ac_dest a))"
    by (simp add: describe_positional_def Let_def default_keeps)
  then show ?thesis by (simp add: entry_text_def)
qed

lemma entry_name: "entry_text ''name'' (action_entry v a) = action_name a"
  by (simp add: action_entry_def action_name_def positional_name flag_contract_name)

lemmas action_defs = SUBPARSERS_def common_db_def common_nodb_def action_name_def visible_def valued_def
  switch_def repeated_def positional_def canonical_flag_def help_flag_def starts_with_def long_options_def
  first_by_def

lemma names_distinct: "list_all (\<lambda>f. distinct (map action_name (visible (snd f)))) SUBPARSERS"
  by (simp add: action_defs)

lemma find_unique:
  assumes "x \<in> set xs" and "P x" and "\<And>y. y \<in> set xs \<Longrightarrow> P y \<Longrightarrow> y = x"
  shows "find P xs = Some x"
proof (cases "find P xs")
  case None
  with assms(1,2) show ?thesis by (simp add: find_None_iff)
next
  case (Some y)
  then have "y \<in> set xs \<and> P y" by (auto simp: find_Some_iff)
  with assms(3) Some show ?thesis by simp
qed

lemma published_entry_of:
  assumes "map_of SUBPARSERS v = Some actions" and "a \<in> set (visible actions)"
  shows "published_entry v (action_name a) = Some (action_entry v a)"
proof -
  have "distinct (map action_name (visible actions))"
    using names_distinct map_of_SomeD[OF assms(1)] by (fastforce simp: list_all_iff)
  then have same: "b = a" if "b \<in> set (visible actions)" "action_name b = action_name a" for b
    using assms(2) that by (auto simp: distinct_map dest: inj_onD)
  have "find (\<lambda>d. entry_text ''name'' d = action_name a) (describe_args actions @ describe_flags v actions)
      = Some (action_entry v a)"
    using assms(2) by (intro find_unique) (auto simp only: set_described entry_name dest: same)
  with assms(1) show ?thesis by (simp add: published_entry_def)
qed

section \<open>Published ranges\<close>

definition published_range :: "string \<Rightarrow> string \<Rightarrow> json \<Rightarrow> json \<Rightarrow> bool" where
  "published_range verb name lo hi \<longleftrightarrow> (case published_entry verb name of None \<Rightarrow> False
     | Some d \<Rightarrow> map_of d ''minimum'' = Some lo \<and> map_of d ''maximum'' = Some hi)"

lemma override_range:
  assumes "map_of SUBPARSERS v = Some actions" and "a \<in> set (visible actions)"
    and "ac_option_strings a \<noteq> []" and "canonical_flag a = name"
    and "map_of (flag_override v name) ''minimum'' = Some lo" "map_of (flag_override v name) ''maximum'' = Some hi"
  shows "published_range v name lo hi"
proof -
  let ?e = "apply_override a (flag_override v name) (flag_entry a name)"
  have "map_of ?e ''minimum'' = Some lo"
    by (simp add: apply_override_lookup[OF override_keyed] assms(5))
  then have "type_bounds ?e = []" by (simp add: type_bounds_def)
  then show ?thesis
    using published_entry_of[OF assms(1,2)] assms(3-6)
    by (simp add: published_range_def action_name_def action_entry_def flag_contract_lookup)
qed

lemma typed_range:
  assumes "map_of SUBPARSERS v = Some actions" and "a \<in> set (visible actions)"
    and "ac_option_strings a \<noteq> []" and "canonical_flag a = name"
    and "flag_override v name = []" and "ac_type a = Int_token" and "ac_kind a = Store"
  shows "published_range v name (JInt SQLITE_INT64_MIN) (JInt SQLITE_INT64_MAX)"
proof -
  have "type_bounds (flag_entry a name) = [(''minimum'', JInt SQLITE_INT64_MIN), (''maximum'', JInt SQLITE_INT64_MAX)]"
    using assms(6,7) by (simp add: type_bounds_def flag_entry_def Let_def entry_text_def action_base_type_def)
  then show ?thesis
    using published_entry_of[OF assms(1,2)] assms(3-5)
    by (simp add: published_range_def action_name_def action_entry_def flag_contract_lookup apply_override_def)
qed

lemma id_range:
  assumes "map_of SUBPARSERS v = Some actions" and "a \<in> set (visible actions)"
    and "ac_option_strings a = []" and "ac_dest a = name" and "name \<in> {''id'', ''ids''}"
  shows "published_range v name (JInt 1) (JInt SQLITE_INT64_MAX)"
proof -
  have "limit_of ''id'' = [(''type'', JString ''integer''), (''minimum'', JInt 1), (''maximum'', JInt SQLITE_INT64_MAX),
      (''unbounded'', JBool False)]" by (simp add: limit_of_def LIMITS_def)
  then obtain d where "map_of POSITIONAL_CONTRACTS name = Some d" "map_of d ''minimum'' = Some (JInt 1)"
      "map_of d ''maximum'' = Some (JInt SQLITE_INT64_MAX)"
    using assms(5) by (auto simp: POSITIONAL_CONTRACTS_def lookup_dict_update)
  then show ?thesis
    using published_entry_of[OF assms(1,2)] assms(3,4) positional_lookup[of _ a d]
    by (simp add: published_range_def action_name_def action_entry_def)
qed

text \<open>Every argument with a range, what the tables give for it.\<close>

lemma map_of_map_values: "map_of (map (\<lambda>(n, d). (n, f d)) t) n = map_option f (map_of t n)"
  by (induction t) auto

abbreviation bounds_of :: "dict \<Rightarrow> json option \<times> json option" where
  "bounds_of d \<equiv> (map_of d ''minimum'', map_of d ''maximum'')"

lemma limit_bounds:
  "map (\<lambda>(n, d). (n, bounds_of d)) LIMITS =
     [(''attempt_number'', Some (JInt 1), Some (JInt SQLITE_INT64_MAX)),
      (''cwd_length'', Some (JInt 1), Some (JInt (int MAX_PATH_CHARS))),
      (''duration_seconds'', Some (JInt 0), Some (JFloat MAX_DURATION_SECONDS)),
      (''env_key_length'', Some (JInt 1), Some (JInt (int MAX_ENV_KEY_CHARS))),
      (''env_value_length'', Some (JInt 0), Some (JInt (int MAX_ENV_VALUE_CHARS))),
      (''feedback_tail_bytes'', Some (JInt 1), Some (JInt FEEDBACK_TAIL_MAX)),
      (''id'', Some (JInt 1), Some (JInt SQLITE_INT64_MAX)),
      (''idempotency_key_length'', Some (JInt 1), Some (JInt 256)),
      (''limit'', Some (JInt 0), Some (JInt LIST_LIMIT_MAX)),
      (''event_limit'', Some (JInt 0), Some (JInt EVENT_LIMIT_MAX)),
      (''status_limit'', Some (JInt 0), Some (JInt STATUS_LIMIT_MAX)),
      (''note_length'', Some (JInt 0), Some (JInt 10000)),
      (''poll_interval_seconds'', Some (JInt 0), Some (JFloat MAX_POLL_INTERVAL_SECONDS)),
      (''wait_seconds'', Some (JInt 0), Some (JFloat MAX_WAIT_SECONDS)),
      (''priority'', Some (JInt PRIORITY_MIN), Some (JInt PRIORITY_MAX)),
      (''queue_name'', Some (JInt 1), Some (JInt 64)), (''tag_count'', Some (JInt 0), Some (JInt 16)),
      (''tag_key_length'', Some (JInt 1), Some (JInt 128)),
      (''tag_value_length'', Some (JInt 0), Some (JInt 1024)),
      (''timeout_seconds'', Some (JInt 1), Some (JInt SQLITE_INT64_MAX)),
      (''timestamp_epoch_seconds'', Some (JFloat (- MAX_DURATION_SECONDS)), Some (JFloat MAX_DURATION_SECONDS)),
      (''worker_slots'', Some (JInt 1), Some (JInt SQLITE_INT64_MAX)),
      (''worker_id_length'', Some (JInt 1), Some (JInt (int MAX_WORKER_ID_CHARS)))]"
  by (simp add: LIMITS_def)

lemma limit_lookup:
  "map_of (limit_of n) ''minimum'' = (case map_of (map (\<lambda>(n, d). (n, bounds_of d)) LIMITS) n of None \<Rightarrow> None | Some b \<Rightarrow> fst b)"
  "map_of (limit_of n) ''maximum'' = (case map_of (map (\<lambda>(n, d). (n, bounds_of d)) LIMITS) n of None \<Rightarrow> None | Some b \<Rightarrow> snd b)"
  by (simp_all add: limit_of_def map_of_map_values split: option.split)

lemma typed_limit_lookup:
  "map_of (dict_update [(''type'', t)] (limit_of n)) ''minimum'' = map_of (limit_of n) ''minimum''"
  "map_of (dict_update [(''type'', t)] (limit_of n)) ''maximum'' = map_of (limit_of n) ''maximum''"
  using limit_keyed[of n] by (simp_all add: lookup_dict_update split: option.split)

lemmas limit_rules = typed_limit_lookup limit_lookup[unfolded limit_bounds]

definition RANGES :: "(string \<times> string \<times> json \<times> json) list" where
  \<comment> \<open>verb, flag, minimum, maximum\<close>
  "RANGES =
     [(''add'', ''--timeout'', JInt 1, JInt SQLITE_INT64_MAX),
      (''add'', ''--max-retries'', JInt 0, JInt SQLITE_INT64_MAX),
      (''add'', ''--max-crashes'', JInt 0, JInt SQLITE_INT64_MAX),
      (''add'', ''--priority'', JInt PRIORITY_MIN, JInt PRIORITY_MAX),
      (''add'', ''--after'', JInt 0, JFloat MAX_DURATION_SECONDS),
      (''add'', ''--queue'', JInt 1, JInt 64), (''add'', ''--note'', JInt 0, JInt 10000),
      (''add'', ''--key'', JInt 1, JInt 256),
      (''work'', ''--poll-interval'', JInt 0, JFloat MAX_POLL_INTERVAL_SECONDS),
      (''work'', ''--worker-id'', JInt 1, JInt (int MAX_WORKER_ID_CHARS)),
      (''work'', ''--queue'', JInt 1, JInt 64),
      (''wait'', ''--timeout'', JInt 0, JFloat MAX_WAIT_SECONDS),
      (''wait'', ''--poll-interval'', JInt 0, JFloat MAX_POLL_INTERVAL_SECONDS),
      (''status'', ''--limit'', JInt 0, JInt STATUS_LIMIT_MAX),
      (''list'', ''--limit'', JInt 0, JInt LIST_LIMIT_MAX), (''list'', ''--queue'', JInt 1, JInt 64),
      (''list'', ''--priority-min'', JInt PRIORITY_MIN, JInt PRIORITY_MAX),
      (''prune'', ''--older-than'', JInt 0, JFloat MAX_DURATION_SECONDS),
      (''output'', ''--attempt'', JInt 1, JInt SQLITE_INT64_MAX),
      (''feedback'', ''--tail-bytes'', JInt 1, JInt FEEDBACK_TAIL_MAX),
      (''events'', ''--since-id'', JInt 0, JInt SQLITE_INT64_MAX),
      (''events'', ''--limit'', JInt 0, JInt EVENT_LIMIT_MAX),
      (''events'', ''--max-events'', JInt 1, JInt EVENT_LIMIT_MAX),
      (''events'', ''--idle-timeout'', JInt 0, JFloat MAX_WAIT_SECONDS),
      (''events'', ''--wait-timeout'', JInt 0, JFloat MAX_WAIT_SECONDS),
      (''events'', ''--poll-interval'', JInt 0, JFloat MAX_POLL_INTERVAL_SECONDS)]"

lemma override_lookup:
  "map_of (flag_override v n) k =
     (case (case map_of VERB_FLAG_CONTRACTS (v, n) of None \<Rightarrow> None | Some d \<Rightarrow> map_of d k) of Some x \<Rightarrow> Some x
      | None \<Rightarrow> (case map_of FLAG_CONTRACTS n of None \<Rightarrow> None | Some d \<Rightarrow> map_of d k))"
proof -
  have "distinct (map fst d)" if "map_of VERB_FLAG_CONTRACTS (v, n) = Some d" for d
    using contracts_keyed(2) map_of_SomeD[OF that] by (fastforce simp: list_all_iff)
  then show ?thesis by (auto simp: flag_override_def Let_def lookup_dict_update split: option.split)
qed

lemma general_bounds:
  "map (\<lambda>(n, d). (n, bounds_of d)) FLAG_CONTRACTS =
     [(''--after'', Some (JInt 0), Some (JFloat MAX_DURATION_SECONDS)),
      (''--at'', Some (JFloat (- MAX_DURATION_SECONDS)), Some (JFloat MAX_DURATION_SECONDS)),
      (''--attempt'', Some (JInt 1), Some (JInt SQLITE_INT64_MAX)),
      (''--db'', Some (JInt 1), Some (JInt (int MAX_PATH_CHARS))), (''--env'', None, None),
      (''--key'', Some (JInt 1), Some (JInt 256)), (''--limit'', Some (JInt 0), Some (JInt LIST_LIMIT_MAX)),
      (''--max-events'', Some (JInt 1), Some (JInt SQLITE_INT64_MAX)),
      (''--idle-timeout'', Some (JInt 0), Some (JFloat MAX_WAIT_SECONDS)),
      (''--max-crashes'', Some (JInt 0), Some (JInt SQLITE_INT64_MAX)),
      (''--max-retries'', Some (JInt 0), Some (JInt SQLITE_INT64_MAX)),
      (''--note'', Some (JInt 0), Some (JInt 10000)),
      (''--older-than'', Some (JInt 0), Some (JFloat MAX_DURATION_SECONDS)),
      (''--poll-interval'', Some (JInt 0), Some (JFloat MAX_POLL_INTERVAL_SECONDS)),
      (''--priority'', Some (JInt PRIORITY_MIN), Some (JInt PRIORITY_MAX)),
      (''--priority-min'', Some (JInt PRIORITY_MIN), Some (JInt PRIORITY_MAX)),
      (''--queue'', Some (JInt 1), Some (JInt 64)),
      (''--since-id'', Some (JInt 0), Some (JInt SQLITE_INT64_MAX)), (''--state'', None, None),
      (''--stream'', None, None), (''--tag'', None, None),
      (''--timeout'', Some (JInt 1), Some (JInt SQLITE_INT64_MAX)),
      (''--wait-timeout'', Some (JInt 0), Some (JFloat MAX_WAIT_SECONDS)),
      (''--worker-id'', Some (JInt 1), Some (JInt (int MAX_WORKER_ID_CHARS))), (''--verb'', None, None)]"
  by (simp add: FLAG_CONTRACTS_def limit_rules)

lemma special_bounds:
  "map (\<lambda>(n, d). (n, bounds_of d)) VERB_FLAG_CONTRACTS =
     [((''prune'', ''--state''), None, None),
      ((''wait'', ''--timeout''), Some (JInt 0), Some (JFloat MAX_WAIT_SECONDS)),
      ((''feedback'', ''--tail-bytes''), Some (JInt 1), Some (JInt FEEDBACK_TAIL_MAX)),
      ((''feedback'', ''--stream''), None, None),
      ((''events'', ''--limit''), Some (JInt 0), Some (JInt EVENT_LIMIT_MAX)),
      ((''events'', ''--max-events''), Some (JInt 1), Some (JInt EVENT_LIMIT_MAX)),
      ((''status'', ''--limit''), Some (JInt 0), Some (JInt STATUS_LIMIT_MAX)),
      ((''config-show'', ''--db''), None, None), ((''doctor'', ''--db''), None, None)]"
  by (simp add: VERB_FLAG_CONTRACTS_def limit_rules)

lemma override_bounds:
  "bounds_of (flag_override v n) =
     (case map_of (map (\<lambda>(n, d). (n, bounds_of d)) VERB_FLAG_CONTRACTS) (v, n) of
        Some (Some lo, Some hi) \<Rightarrow> (Some lo, Some hi)
      | special \<Rightarrow> (case map_of (map (\<lambda>(n, d). (n, bounds_of d)) FLAG_CONTRACTS) n of
          None \<Rightarrow> (case special of None \<Rightarrow> (None, None) | Some b \<Rightarrow> b)
        | Some (l, h) \<Rightarrow> (case special of None \<Rightarrow> (l, h)
            | Some (sl, sh) \<Rightarrow> (if sl = None then l else sl, if sh = None then h else sh))))"
  by (auto simp: override_lookup map_of_map_values split: option.splits)

lemma ranges_overridden:
  "list_all (\<lambda>(v, n, lo, hi). bounds_of (flag_override v n) = (Some lo, Some hi)) RANGES"
  unfolding override_bounds general_bounds special_bounds by (simp add: RANGES_def)

definition flags_of :: "string \<Rightarrow> string list option" where
  "flags_of v = map_option (\<lambda>actions. map canonical_flag
     (filter (\<lambda>a. ac_option_strings a \<noteq> []) (visible actions))) (map_of SUBPARSERS v)"

lemma flags_of_verbs:
  "flags_of ''add'' = Some [''--db'', ''--json'', ''-c'', ''--key'', ''--tag'', ''--note'', ''--after'', ''--at'',
     ''--priority'', ''--queue'', ''--timeout'', ''--max-retries'', ''--max-crashes'', ''--cwd'', ''--env'']"
  "flags_of ''work'' = Some [''--db'', ''--json'', ''--once'', ''--drain'', ''--poll-interval'', ''--worker-id'',
     ''--queue'', ''--slots'']"
  "flags_of ''wait'' = Some [''--db'', ''--json'', ''--timeout'', ''--poll-interval'']"
  "flags_of ''status'' = Some [''--db'', ''--json'', ''--limit'']"
  "flags_of ''list'' = Some [''--db'', ''--json'', ''--state'', ''--tag'', ''--queue'', ''--priority-min'', ''--limit'']"
  "flags_of ''prune'' = Some [''--db'', ''--json'', ''--older-than'', ''--state'', ''--dry-run'', ''--yes'']"
  "flags_of ''output'' = Some [''--db'', ''--json'', ''--stream'', ''--raw'', ''--attempt'']"
  "flags_of ''feedback'' = Some [''--db'', ''--json'', ''--tail-bytes'', ''--stream'']"
  "flags_of ''events'' = Some [''--db'', ''--json'', ''--job'', ''--since-id'', ''--limit'', ''--max-events'',
     ''--idle-timeout'', ''--wait'', ''--wait-timeout'', ''--follow'', ''--poll-interval'']"
  by (simp_all add: flags_of_def action_defs)

lemma ranges_flags: "list_all (\<lambda>(v, n, lo, hi). \<exists>ns. flags_of v = Some ns \<and> n \<in> set ns) RANGES"
  by (simp add: RANGES_def flags_of_verbs)

lemma published_ranges:
  assumes "(v, n, lo, hi) \<in> set RANGES" shows "published_range v n lo hi"
proof -
  obtain ns where ns: "flags_of v = Some ns" "n \<in> set ns" using ranges_flags assms by (fastforce simp: list_all_iff)
  then obtain actions a where a: "map_of SUBPARSERS v = Some actions" "a \<in> set (visible actions)"
    "ac_option_strings a \<noteq> []" "canonical_flag a = n" by (auto simp: flags_of_def)
  have "bounds_of (flag_override v n) = (Some lo, Some hi)"
    using ranges_overridden assms by (fastforce simp: list_all_iff)
  then show ?thesis by (intro override_range[OF a]) auto
qed

lemma actions_of:
  "\<exists>actions. map_of SUBPARSERS ''work'' = Some actions \<and> valued [''--slots''] Int_token JNull \<in> set (visible actions)"
  "\<exists>actions. map_of SUBPARSERS ''events'' = Some actions \<and> valued [''--job''] Int_token JNull \<in> set (visible actions)"
  "\<exists>actions. map_of SUBPARSERS ''wait'' = Some actions \<and> positional ''ids'' Plus \<in> set (visible actions)"
  by (simp_all add: action_defs)

lemma id_action:
  "v \<in> {''show'', ''retry'', ''cancel'', ''output'', ''feedback''} \<Longrightarrow>
     \<exists>actions. map_of SUBPARSERS v = Some actions \<and> positional ''id'' One \<in> set (visible actions)"
  by (elim insertE emptyE) (simp_all add: action_defs)

lemma slots_job_range:
  "published_range ''work'' ''--slots'' (JInt SQLITE_INT64_MIN) (JInt SQLITE_INT64_MAX)"
  "published_range ''events'' ''--job'' (JInt SQLITE_INT64_MIN) (JInt SQLITE_INT64_MAX)"
proof -
  have free: "flag_override ''work'' ''--slots'' = []" "flag_override ''events'' ''--job'' = []"
    by (simp_all add: flag_override_def FLAG_CONTRACTS_def VERB_FLAG_CONTRACTS_def dict_update_def)
  obtain as where "map_of SUBPARSERS ''work'' = Some as" "valued [''--slots''] Int_token JNull \<in> set (visible as)"
    using actions_of(1) by blast
  then show "published_range ''work'' ''--slots'' (JInt SQLITE_INT64_MIN) (JInt SQLITE_INT64_MAX)"
    by (rule typed_range) (simp_all add: free valued_def canonical_flag_def long_options_def starts_with_def)
  obtain as where "map_of SUBPARSERS ''events'' = Some as" "valued [''--job''] Int_token JNull \<in> set (visible as)"
    using actions_of(2) by blast
  then show "published_range ''events'' ''--job'' (JInt SQLITE_INT64_MIN) (JInt SQLITE_INT64_MAX)"
    by (rule typed_range) (simp_all add: free valued_def canonical_flag_def long_options_def starts_with_def)
qed

lemma ids_range:
  "published_range ''wait'' ''ids'' (JInt 1) (JInt SQLITE_INT64_MAX)"
  "v \<in> {''show'', ''retry'', ''cancel'', ''output'', ''feedback''} \<Longrightarrow>
     published_range v ''id'' (JInt 1) (JInt SQLITE_INT64_MAX)"
proof -
  show "published_range ''wait'' ''ids'' (JInt 1) (JInt SQLITE_INT64_MAX)"
    using actions_of(3) by (auto simp: positional_def valued_def intro!: id_range)
  show "published_range v ''id'' (JInt 1) (JInt SQLITE_INT64_MAX)"
    if "v \<in> {''show'', ''retry'', ''cancel'', ''output'', ''feedback''}"
    using id_action[OF that] by (auto simp: positional_def valued_def intro!: id_range)
qed

section \<open>What a verb accepts\<close>

datatype argument =
  Whole raw_int | Real raw_float | Duration string
| Text string     \<comment> \<open>published by its length\<close>
| Trimmed string  \<comment> \<open>by its length without surrounding white space\<close>

fun arg_value :: "argument \<Rightarrow> rat option" where
  "arg_value (Whole (IsInt i)) = Some (of_int i)"
| "arg_value (Whole (IntText s)) = map_option of_int (int_of_str s)"
| "arg_value (Real (IsFloat v)) = (case v of Finite x \<Rightarrow> Some x | _ \<Rightarrow> None)"
| "arg_value (Real (FloatText s)) = (case py_float s of Some (Finite x) \<Rightarrow> Some x | _ \<Rightarrow> None)"
| "arg_value (Duration s) = (case parse_duration_seconds s of Inr x \<Rightarrow> Some x | Inl e \<Rightarrow> None)"
| "arg_value (Text s) = Some (of_nat (length s))"
| "arg_value (Trimmed s) = Some (of_nat (length (strip s)))"

fun number_of :: "json \<Rightarrow> rat option" where
  "number_of (JInt i) = Some (of_int i)"
| "number_of (JFloat f) = Some f"
| "number_of _ = None"

fun given :: "string \<Rightarrow> ('a \<Rightarrow> argument) \<Rightarrow> 'a option \<Rightarrow> (string \<times> argument) list" where
  "given name f None = []"
| "given name f (Some v) = [(name, f v)]"

definition arguments :: "command \<Rightarrow> (string \<times> argument) list" where
  \<comment> \<open>the arguments of a parsed command that have a published range\<close>
  "arguments c = (case c of
       C_add a \<Rightarrow> [(''--timeout'', Whole (aa_timeout a)), (''--max-retries'', Whole (aa_max_retries a)),
           (''--priority'', Whole (IntText (aa_priority a))), (''--queue'', Text (aa_queue a))]
         @ given ''--max-crashes'' Whole (aa_max_crashes a) @ given ''--after'' Duration (aa_after a)
         @ given ''--note'' Text (aa_note a) @ given ''--key'' Trimmed (aa_key a)
     | C_work a \<Rightarrow> (''--queue'', Text (ka_queue a)) # given ''--poll-interval'' Real (ka_poll_interval a)
         @ given ''--slots'' Whole (ka_slots a) @ given ''--worker-id'' Text (ka_worker_id a)
     | C_wait ids timeout interval \<Rightarrow> map (\<lambda>i. (''ids'', Whole (IntText i))) ids
         @ given ''--timeout'' Real timeout @ [(''--poll-interval'', Real interval)]
     | C_status limit \<Rightarrow> [(''--limit'', Whole limit)]
     | C_list a \<Rightarrow> (''--limit'', Whole (la_limit a)) # given ''--queue'' Text (la_queue a)
         @ given ''--priority-min'' (\<lambda>s. Whole (IntText s)) (la_priority_min a)
     | C_show i \<Rightarrow> [(''id'', Whole (IntText i))]
     | C_retry i force \<Rightarrow> [(''id'', Whole (IntText i))]
     | C_cancel i running yes \<Rightarrow> [(''id'', Whole (IntText i))]
     | C_prune a \<Rightarrow> [(''--older-than'', Duration (ra_older_than a))]
     | C_output i a \<Rightarrow> (''id'', Whole (IntText i)) # given ''--attempt'' Whole (oa_attempt a)
     | C_feedback i tail \<Rightarrow> (''id'', Whole (IntText i)) # given ''--tail-bytes'' Whole tail
     | C_events a \<Rightarrow> given ''--job'' Whole (ea_job a) @ given ''--since-id'' Whole (ea_since_id a)
         @ given ''--limit'' Whole (ea_limit a) @ given ''--max-events'' Whole (ea_max_events a)
         @ given ''--idle-timeout'' Real (ea_idle_timeout a)
         @ [(''--wait-timeout'', Real (ea_wait_timeout a)), (''--poll-interval'', Real (ea_poll_interval a))]
     | _ \<Rightarrow> [])"

definition in_range :: "string \<Rightarrow> string \<times> argument \<Rightarrow> bool" where
  "in_range verb = (\<lambda>(name, a). case published_entry verb name of None \<Rightarrow> False
     | Some d \<Rightarrow> (case (arg_value a, Option.bind (map_of d ''minimum'') number_of,
           Option.bind (map_of d ''maximum'') number_of) of
         (Some x, Some lo, Some hi) \<Rightarrow> lo \<le> x \<and> x \<le> hi
       | _ \<Rightarrow> False))"

lemma in_rangeI:
  assumes "published_range v n lo hi" and "number_of lo = Some l" "number_of hi = Some h"
    and "arg_value a = Some x" "l \<le> x" "x \<le> h"
  shows "in_range v (n, a)"
  using assms by (auto simp: published_range_def in_range_def split: option.splits)

lemma int_in_range:
  assumes "parse_int_bound lo hi raw = Inr x" and "published_range v n (JInt l) (JInt h)" and "l \<le> lo" "hi \<le> h"
  shows "in_range v (n, Whole raw)"
proof -
  have "arg_value (Whole raw) = Some (of_int x)" "lo \<le> x" "x \<le> hi"
    using assms(1) by (cases raw; auto simp: parse_int_bound_def and_then_eq_Inr split: if_splits option.splits)+
  then show ?thesis using assms(3,4) by (intro in_rangeI[OF assms(2)]) auto
qed

lemma float_in_range:
  assumes "parse_positive_float hi raw = Inr x" and "published_range v n (JInt 0) (JFloat hi)"
  shows "in_range v (n, Real raw)"
proof -
  have "arg_value (Real raw) = Some x" "0 < x" "x \<le> hi"
    using assms(1) by (cases raw; auto simp: parse_positive_float_def split: if_splits option.splits py_float_val.splits)+
  then show ?thesis by (intro in_rangeI[OF assms(2)]) auto
qed

lemma duration_in_range:
  assumes "parse_duration_seconds s = Inr x" and "published_range v n (JInt 0) (JFloat MAX_DURATION_SECONDS)"
  shows "in_range v (n, Duration s)"
  using duration_value[OF assms(1)] assms(1) by (intro in_rangeI[OF assms(2)]) auto

lemma ranges:
  "published_range ''add'' ''--timeout'' (JInt 1) (JInt SQLITE_INT64_MAX)"
  "published_range ''add'' ''--max-retries'' (JInt 0) (JInt SQLITE_INT64_MAX)"
  "published_range ''add'' ''--max-crashes'' (JInt 0) (JInt SQLITE_INT64_MAX)"
  "published_range ''add'' ''--priority'' (JInt PRIORITY_MIN) (JInt PRIORITY_MAX)"
  "published_range ''add'' ''--after'' (JInt 0) (JFloat MAX_DURATION_SECONDS)"
  "published_range ''add'' ''--queue'' (JInt 1) (JInt 64)"
  "published_range ''add'' ''--note'' (JInt 0) (JInt 10000)"
  "published_range ''add'' ''--key'' (JInt 1) (JInt 256)"
  "published_range ''work'' ''--poll-interval'' (JInt 0) (JFloat MAX_POLL_INTERVAL_SECONDS)"
  "published_range ''work'' ''--worker-id'' (JInt 1) (JInt (int MAX_WORKER_ID_CHARS))"
  "published_range ''work'' ''--queue'' (JInt 1) (JInt 64)"
  "published_range ''wait'' ''--timeout'' (JInt 0) (JFloat MAX_WAIT_SECONDS)"
  "published_range ''wait'' ''--poll-interval'' (JInt 0) (JFloat MAX_POLL_INTERVAL_SECONDS)"
  "published_range ''status'' ''--limit'' (JInt 0) (JInt STATUS_LIMIT_MAX)"
  "published_range ''list'' ''--limit'' (JInt 0) (JInt LIST_LIMIT_MAX)"
  "published_range ''list'' ''--queue'' (JInt 1) (JInt 64)"
  "published_range ''list'' ''--priority-min'' (JInt PRIORITY_MIN) (JInt PRIORITY_MAX)"
  "published_range ''prune'' ''--older-than'' (JInt 0) (JFloat MAX_DURATION_SECONDS)"
  "published_range ''output'' ''--attempt'' (JInt 1) (JInt SQLITE_INT64_MAX)"
  "published_range ''feedback'' ''--tail-bytes'' (JInt 1) (JInt FEEDBACK_TAIL_MAX)"
  "published_range ''events'' ''--since-id'' (JInt 0) (JInt SQLITE_INT64_MAX)"
  "published_range ''events'' ''--limit'' (JInt 0) (JInt EVENT_LIMIT_MAX)"
  "published_range ''events'' ''--max-events'' (JInt 1) (JInt EVENT_LIMIT_MAX)"
  "published_range ''events'' ''--idle-timeout'' (JInt 0) (JFloat MAX_WAIT_SECONDS)"
  "published_range ''events'' ''--wait-timeout'' (JInt 0) (JFloat MAX_WAIT_SECONDS)"
  "published_range ''events'' ''--poll-interval'' (JInt 0) (JFloat MAX_POLL_INTERVAL_SECONDS)"
  by (rule published_ranges, simp add: RANGES_def)+

lemma all_given [simp]: "list_all P (given n f v) \<longleftrightarrow> (case v of None \<Rightarrow> True | Some u \<Rightarrow> P (n, f u))"
  by (cases v) simp_all

lemma optionally_Inr: "optionally f v = Inr x \<Longrightarrow> (case v of None \<Rightarrow> True | Some u \<Rightarrow> \<exists>y. f u = Inr y)"
  by (cases v) (auto simp: and_then_eq_Inr)

lemma text_in_range:
  "parse_queue s = Inr q \<Longrightarrow> published_range v n (JInt 1) (JInt 64) \<Longrightarrow> in_range v (n, Text s)"
  "normalize_key (Some s) = Inr k \<Longrightarrow> published_range v n (JInt 1) (JInt 256) \<Longrightarrow> in_range v (n, Trimmed s)"
  "parse_worker_id (Some s) = Inr k \<Longrightarrow> published_range v n (JInt 1) (JInt (int MAX_WORKER_ID_CHARS))
     \<Longrightarrow> in_range v (n, Text s)"
  "length s \<le> 10000 \<Longrightarrow> published_range v n (JInt 0) (JInt 10000) \<Longrightarrow> in_range v (n, Text s)"
proof -
  have nonempty: "1 \<le> length t \<longleftrightarrow> t \<noteq> []" for t :: string by (cases t) auto
  show "parse_queue s = Inr q \<Longrightarrow> published_range v n (JInt 1) (JInt 64) \<Longrightarrow> in_range v (n, Text s)"
    by (erule in_rangeI) (auto simp: parse_queue_def nonempty split: if_splits)
  show "normalize_key (Some s) = Inr k \<Longrightarrow> published_range v n (JInt 1) (JInt 256) \<Longrightarrow> in_range v (n, Trimmed s)"
    by (erule in_rangeI) (auto simp: normalize_key_def Let_def Suc_le_eq split: if_splits)
  show "parse_worker_id (Some s) = Inr k \<Longrightarrow> published_range v n (JInt 1) (JInt (int MAX_WORKER_ID_CHARS))
     \<Longrightarrow> in_range v (n, Text s)"
    by (erule in_rangeI) (auto simp: parse_worker_id_def Suc_le_eq split: if_splits)
  show "length s \<le> 10000 \<Longrightarrow> published_range v n (JInt 0) (JInt 10000) \<Longrightarrow> in_range v (n, Text s)"
    by (erule in_rangeI) auto
qed

lemma add_submission_args:
  assumes "add_submission w explicit a = Inr s"
  shows "\<exists>x. parse_int_bound 1 SQLITE_INT64_MAX (aa_timeout a) = Inr x"
    "\<exists>x. parse_int_bound 0 SQLITE_INT64_MAX (aa_max_retries a) = Inr x"
    "\<exists>x. optionally (parse_int_bound 0 SQLITE_INT64_MAX) (aa_max_crashes a) = Inr x"
    "\<exists>x. parse_int_bound PRIORITY_MIN PRIORITY_MAX (IntText (aa_priority a)) = Inr x"
    "\<exists>x. parse_queue (aa_queue a) = Inr x" "\<exists>x. normalize_key (aa_key a) = Inr x"
    "case aa_note a of None \<Rightarrow> True | Some n \<Rightarrow> length n \<le> 10000"
    "case aa_after a of None \<Rightarrow> True | Some t \<Rightarrow> \<exists>x. parse_duration_seconds t = Inr x"
  using assms
  by (auto simp: add_submission_def and_then_eq_Inr parse_priority_def add_schedule_def parse_after_def
      split: if_splits option.splits)

lemma add_in_range:
  assumes "add_submission w explicit a = Inr s"
  shows "list_all (in_range ''add'') (arguments (C_add a))"
proof -
  note f = add_submission_args[OF assms]
  have "in_range ''add'' (''--timeout'', Whole (aa_timeout a))" "in_range ''add'' (''--max-retries'', Whole (aa_max_retries a))"
    "in_range ''add'' (''--priority'', Whole (IntText (aa_priority a)))" "in_range ''add'' (''--queue'', Text (aa_queue a))"
    using f(1,2,4,5) ranges by (auto intro: int_in_range text_in_range)
  moreover have "case aa_max_crashes a of None \<Rightarrow> True | Some u \<Rightarrow> in_range ''add'' (''--max-crashes'', Whole u)"
    "case aa_after a of None \<Rightarrow> True | Some u \<Rightarrow> in_range ''add'' (''--after'', Duration u)"
    "case aa_note a of None \<Rightarrow> True | Some u \<Rightarrow> in_range ''add'' (''--note'', Text u)"
    "case aa_key a of None \<Rightarrow> True | Some u \<Rightarrow> in_range ''add'' (''--key'', Trimmed u)"
    using f(3,6,7,8) ranges
    by (auto dest!: optionally_Inr split: option.splits intro: int_in_range text_in_range duration_in_range)
  ultimately show ?thesis by (simp add: arguments_def)
qed

lemma optional_in_range:
  "\<exists>x. optionally (parse_int_bound lo hi) u = Inr x \<Longrightarrow> published_range v n (JInt l) (JInt h) \<Longrightarrow> l \<le> lo \<Longrightarrow> hi \<le> h
     \<Longrightarrow> case u of None \<Rightarrow> True | Some r \<Rightarrow> in_range v (n, Whole r)"
  "\<exists>x. optionally (parse_positive_float m) q = Inr x \<Longrightarrow> published_range v n (JInt 0) (JFloat m)
     \<Longrightarrow> case q of None \<Rightarrow> True | Some r \<Rightarrow> in_range v (n, Real r)"
  by (auto dest!: optionally_Inr split: option.splits intro: int_in_range float_in_range)

lemma work_in_range:
  assumes "plan_work w flag a = Inr s"
  shows "list_all (in_range ''work'') (arguments (C_work a))"
proof -
  have f: "\<exists>x. optionally (parse_positive_float MAX_POLL_INTERVAL_SECONDS) (ka_poll_interval a) = Inr x"
    "\<exists>x. parse_queue (ka_queue a) = Inr x" "\<exists>x. optionally (parse_int_bound 1 SQLITE_INT64_MAX) (ka_slots a) = Inr x"
    "\<exists>x. parse_worker_id (ka_worker_id a) = Inr x"
    using assms by (auto simp: plan_work_def and_then_eq_Inr split: if_splits)
  have int64: "SQLITE_INT64_MIN \<le> 1" by (simp add: SQLITE_INT64_MIN_def)
  have "in_range ''work'' (''--queue'', Text (ka_queue a))"
    using f(2) ranges by (auto intro: text_in_range)
  moreover have "case ka_poll_interval a of None \<Rightarrow> True | Some u \<Rightarrow> in_range ''work'' (''--poll-interval'', Real u)"
    "case ka_slots a of None \<Rightarrow> True | Some u \<Rightarrow> in_range ''work'' (''--slots'', Whole u)"
    "case ka_worker_id a of None \<Rightarrow> True | Some u \<Rightarrow> in_range ''work'' (''--worker-id'', Text u)"
    using f(1,3,4) ranges slots_job_range int64
    by (auto dest!: optionally_Inr split: option.splits intro: int_in_range text_in_range float_in_range)
  ultimately show ?thesis by (simp add: arguments_def)
qed

lemma list_in_range:
  assumes "list_query a = Inr q"
  shows "list_all (in_range ''list'') (arguments (C_list a))"
proof -
  have f: "\<exists>x. optionally parse_queue (la_queue a) = Inr x"
    "\<exists>x. optionally (\<lambda>t. parse_int_bound PRIORITY_MIN PRIORITY_MAX (IntText t)) (la_priority_min a) = Inr x"
    "\<exists>x. parse_int_bound 0 LIST_LIMIT_MAX (la_limit a) = Inr x"
    using assms by (auto simp: list_query_def and_then_eq_Inr parse_priority_def split: if_splits)
  have "in_range ''list'' (''--limit'', Whole (la_limit a))"
    using f(3) ranges by (auto intro: int_in_range)
  moreover have "case la_queue a of None \<Rightarrow> True | Some u \<Rightarrow> in_range ''list'' (''--queue'', Text u)"
    "case la_priority_min a of None \<Rightarrow> True | Some u \<Rightarrow> in_range ''list'' (''--priority-min'', Whole (IntText u))"
    using f(1,2) ranges by (auto dest!: optionally_Inr split: option.splits intro: int_in_range text_in_range)
  ultimately show ?thesis by (simp add: arguments_def)
qed

lemma events_in_range:
  assumes "validate_events_args a = Inr q"
  shows "list_all (in_range ''events'') (arguments (C_events a))"
proof -
  have f: "\<exists>x. optionally (parse_int_bound 1 SQLITE_INT64_MAX) (ea_job a) = Inr x"
    "\<exists>x. optionally (parse_int_bound 0 SQLITE_INT64_MAX) (ea_since_id a) = Inr x"
    "\<exists>x. optionally (parse_int_bound 0 EVENT_LIMIT_MAX) (ea_limit a) = Inr x"
    "\<exists>x. optionally (parse_int_bound 1 EVENT_LIMIT_MAX) (ea_max_events a) = Inr x"
    "\<exists>x. optionally (parse_positive_float MAX_WAIT_SECONDS) (ea_idle_timeout a) = Inr x"
    "\<exists>x. parse_positive_float MAX_POLL_INTERVAL_SECONDS (ea_poll_interval a) = Inr x"
    "\<exists>x. parse_positive_float MAX_WAIT_SECONDS (ea_wait_timeout a) = Inr x"
    using assms by (auto simp: validate_events_args_def and_then_eq_Inr)
  have int64: "SQLITE_INT64_MIN \<le> 1" by (simp add: SQLITE_INT64_MIN_def)
  have "in_range ''events'' (''--poll-interval'', Real (ea_poll_interval a))"
    "in_range ''events'' (''--wait-timeout'', Real (ea_wait_timeout a))"
    using f(6,7) ranges by (auto intro: float_in_range)
  moreover have "case ea_job a of None \<Rightarrow> True | Some u \<Rightarrow> in_range ''events'' (''--job'', Whole u)"
    "case ea_since_id a of None \<Rightarrow> True | Some u \<Rightarrow> in_range ''events'' (''--since-id'', Whole u)"
    "case ea_limit a of None \<Rightarrow> True | Some u \<Rightarrow> in_range ''events'' (''--limit'', Whole u)"
    "case ea_max_events a of None \<Rightarrow> True | Some u \<Rightarrow> in_range ''events'' (''--max-events'', Whole u)"
    "case ea_idle_timeout a of None \<Rightarrow> True | Some u \<Rightarrow> in_range ''events'' (''--idle-timeout'', Real u)"
    by (rule optional_in_range(1)[OF f(1) slots_job_range(2) int64 order_refl] optional_in_range(1)[OF f(2)]
        optional_in_range(1)[OF f(3)] optional_in_range(1)[OF f(4)] optional_in_range(2)[OF f(5)]
        | rule ranges order_refl)+
  ultimately show ?thesis by (simp add: arguments_def)
qed

lemma id_in_range:
  assumes "job_id_arg i = Inr x" and "v \<in> {''show'', ''retry'', ''cancel'', ''output'', ''feedback''}"
  shows "in_range v (''id'', Whole (IntText i))"
  using assms(1) int_in_range[OF _ ids_range(2)[OF assms(2)]] by (auto simp: job_id_arg_def)

lemma wait_ids_in_range:
  "each (\<lambda>raw ids. and_then (job_id_arg raw) (\<lambda>i. Inr (ids @ [i]))) raw acc = Inr ids \<Longrightarrow>
     list_all (\<lambda>i. in_range ''wait'' (''ids'', Whole (IntText i))) raw"
proof (induction raw arbitrary: acc)
  case (Cons r raw)
  then show ?case
    using int_in_range[OF _ ids_range(1)] by (auto simp: and_then_eq_Inr job_id_arg_def)
qed simp

lemma dispatch_in_range:
  assumes "dispatch w flag json explicit c = Some oc" and "oc_result oc = Inr r"
  shows "list_all (in_range (verb_name c)) (arguments c)"
proof (cases c)
  case (C_add a)
  with assms add_in_range show ?thesis
    by (auto simp: dispatch_def cmd_add_def checked_def answers_def verb_name_def split: sum.splits)
next
  case (C_work a)
  with assms work_in_range show ?thesis
    by (auto simp: dispatch_def cmd_work_def answers_def verb_name_def split: sum.splits)
next
  case (C_wait ids timeout interval)
  with assms obtain x where "each (\<lambda>raw ids. and_then (job_id_arg raw) (\<lambda>i. Inr (ids @ [i]))) ids [] = Inr x"
    "\<exists>t. optionally (parse_positive_float MAX_WAIT_SECONDS) timeout = Inr t"
    "\<exists>p. parse_positive_float MAX_POLL_INTERVAL_SECONDS interval = Inr p"
    by (auto simp: dispatch_def cmd_wait_def answers_def and_then_eq_Inr split: sum.splits)
  with C_wait optional_in_range(2)[OF _ ranges(12)] ranges show ?thesis
    by (auto simp: arguments_def verb_name_def list.pred_map comp_def intro: float_in_range dest: wait_ids_in_range)
next
  case (C_status limit)
  with assms ranges show ?thesis
    by (auto simp: dispatch_def cmd_status_def checked_def answers_def verb_name_def arguments_def
        intro: int_in_range split: sum.splits)
next
  case (C_list a)
  with assms list_in_range show ?thesis
    by (auto simp: dispatch_def cmd_list_def checked_def answers_def verb_name_def split: sum.splits)
next
  case (C_prune a)
  with assms ranges show ?thesis
    by (auto simp: dispatch_def cmd_prune_def checked_def answers_def verb_name_def arguments_def prune_query_def
        parse_duration_def and_then_eq_Inr intro: duration_in_range split: sum.splits)
next
  case (C_events a)
  with assms events_in_range show ?thesis
    by (auto simp: dispatch_def cmd_events_def answers_def verb_name_def and_then_eq_Inr split: sum.splits)
next
  case (C_output i a)
  with assms obtain x where "job_id_arg i = Inr x" "\<exists>n. optionally (parse_int_bound 1 SQLITE_INT64_MAX) (oa_attempt a) = Inr n"
    by (auto simp: dispatch_def cmd_output_def checked_def answers_def and_then_eq_Inr split: sum.splits if_splits)
  with C_output id_in_range optional_in_range(1)[OF _ ranges(19)] show ?thesis
    by (simp add: arguments_def verb_name_def)
next
  case (C_feedback i tail)
  with assms obtain x where x: "job_id_arg i = Inr x"
    "case tail of None \<Rightarrow> True | Some t \<Rightarrow> \<exists>y. parse_int_bound 1 FEEDBACK_TAIL_MAX t = Inr y"
    by (auto simp: dispatch_def cmd_feedback_def checked_def answers_def and_then_eq_Inr split: sum.splits option.splits)
  then have "case tail of None \<Rightarrow> True | Some t \<Rightarrow> in_range ''feedback'' (''--tail-bytes'', Whole t)"
    using ranges(20) by (auto intro: int_in_range split: option.splits)
  with C_feedback x(1) id_in_range show ?thesis by (simp add: arguments_def verb_name_def)
qed (use assms id_in_range in \<open>auto simp: dispatch_def verb_defs plumbing_defs verb_name_def arguments_def
      split: sum.splits\<close>)



section \<open>Flags that exclude each other\<close>

definition used_flags :: "command \<Rightarrow> string list" where
  \<comment> \<open>of the flags that some group of \<open>VERB_MUTEX\<close> names, those a parsed command was given\<close>
  "used_flags c =
     (let when = (\<lambda>given flag. if given then [flag] else [])
      in case c of
       C_add a \<Rightarrow> when (aa_after a \<noteq> None) ''--after'' @ when (aa_at a \<noteq> None) ''--at''
     | C_work a \<Rightarrow> when (ka_once a) ''--once'' @ when (ka_drain a) ''--drain''
     | C_prune a \<Rightarrow> when (ra_yes a) ''--yes'' @ when (ra_dry_run a) ''--dry-run''
     | C_events a \<Rightarrow> when (ea_wait a) ''--wait'' @ when (ea_follow a) ''--follow''
         @ when (ea_limit a \<noteq> None) ''--limit'' @ when (ea_max_events a \<noteq> None) ''--max-events''
         @ when (ea_idle_timeout a \<noteq> None) ''--idle-timeout''
     | _ \<Rightarrow> [])"

lemma optionally_None: "optionally f v = Inr x \<Longrightarrow> x = None \<longleftrightarrow> v = None"
  by (cases v) (auto simp: and_then_eq_Inr)

lemma exclusive_refused:
  assumes "map_of VERB_MUTEX (verb_name c) = Some groups" and "g \<in> set groups" and "set g \<subseteq> set (used_flags c)"
  shows "\<exists>e. \<forall>f. dispatch (w\<lparr>w_connect := f\<rparr>) flag json explicit c = Some (answers w (Inl e))"
proof (cases c)
  case (C_add a)
  with assms have "aa_after a \<noteq> None" "aa_at a \<noteq> None"
    by (auto simp: VERB_MUTEX_def verb_name_def used_flags_def split: if_splits)
  then have "add_submission w explicit a \<noteq> Inr s" for s
    by (auto simp: add_submission_def and_then_eq_Inr)
  then obtain e where e: "add_submission w explicit a = Inl e" by (cases "add_submission w explicit a") auto
  have "add_schedule (w\<lparr>w_connect := f\<rparr>) a = add_schedule w a" for f
    by (simp add: add_schedule_def split: option.split)
  then have "add_submission (w\<lparr>w_connect := f\<rparr>) explicit a = Inl e" for f
    unfolding e[symmetric] by (simp add: add_submission_def cong: if_cong)
  with C_add show ?thesis by (auto simp: dispatch_def cmd_add_def checked_def answers_def)
next
  case (C_work a)
  with assms have "ka_once a" "ka_drain a"
    by (auto simp: VERB_MUTEX_def verb_name_def used_flags_def split: if_splits)
  then have "plan_work w flag a \<noteq> Inr s" for s by (auto simp: plan_work_def and_then_eq_Inr)
  then obtain e where e: "plan_work w flag a = Inl e" by (cases "plan_work w flag a") auto
  have "plan_work (w\<lparr>w_connect := f\<rparr>) flag a = Inl e" for f
    unfolding e[symmetric] by (simp add: plan_work_def db_path_def cong: if_cong option.case_cong)
  with C_work show ?thesis by (auto simp: dispatch_def cmd_work_def answers_def)
next
  case (C_prune a)
  with assms have "ra_yes a" "ra_dry_run a"
    by (auto simp: VERB_MUTEX_def verb_name_def used_flags_def split: if_splits)
  then have "prune_query a \<noteq> Inr s" for s by (auto simp: prune_query_def and_then_eq_Inr)
  then obtain e where "prune_query a = Inl e" by (cases "prune_query a") auto
  with C_prune show ?thesis by (auto simp: dispatch_def cmd_prune_def checked_def answers_def)
next
  case (C_events a)
  with assms have "ea_follow a \<and> (ea_wait a \<or> ea_limit a \<noteq> None) \<or> ea_wait a \<and> (ea_max_events a \<noteq> None \<or> ea_idle_timeout a \<noteq> None)"
    by (auto simp: VERB_MUTEX_def verb_name_def used_flags_def split: if_splits)
  then have "validate_events_args a \<noteq> Inr s" for s
    by (auto simp: validate_events_args_def and_then_eq_Inr optionally_None split: if_splits)
  then obtain e where "validate_events_args a = Inl e" by (cases "validate_events_args a") auto
  with C_events show ?thesis by (auto simp: dispatch_def cmd_events_def answers_def)
qed (use assms in \<open>auto simp: VERB_MUTEX_def verb_name_def\<close>)

text \<open>C19. Flags that the capabilities document publishes as mutually exclusive are: a command given all flags
  of such a group is refused with one and the same error whatever opening the database would give, so before
  it is opened, and nothing is written to the queue or the output files.\<close>

theorem exclusions_hold:
  assumes "map_of VERB_MUTEX (verb_name c) = Some groups" and "g \<in> set groups" and "set g \<subseteq> set (used_flags c)"
  shows "\<exists>e. \<forall>f. dispatch (w\<lparr>w_connect := f\<rparr>) flag json explicit c = Some (answers w (Inl e))"
  using exclusive_refused[OF assms] .

theorem exclusions_hold_witness:
  "\<exists>e. dispatch demo_world None True False (C_prune \<lparr>ra_older_than = ''30'', ra_state = ''dead'',
      ra_dry_run = True, ra_yes = True\<rparr>) = Some (answers demo_world (Inl e))"
proof -
  let ?c = "C_prune \<lparr>ra_older_than = ''30'', ra_state = ''dead'', ra_dry_run = True, ra_yes = True\<rparr>"
  have "map_of VERB_MUTEX (verb_name ?c) = Some [[''--yes'', ''--dry-run'']]"
    by (simp add: VERB_MUTEX_def verb_name_def)
  from exclusions_hold[OF this, of "[''--yes'', ''--dry-run'']" demo_world None True False]
  obtain e where e: "dispatch (demo_world\<lparr>w_connect := f\<rparr>) None True False ?c = Some (answers demo_world (Inl e))" for f
    by (auto simp: used_flags_def)
  have "demo_world\<lparr>w_connect := w_connect demo_world\<rparr> = demo_world" by simp
  with e[of "w_connect demo_world"] show ?thesis by auto
qed

end
