(* ===== verification/Human.thy ===== *)
theory Human
  imports Payloads
begin

text \<open>
  The text a verb prints without \<open>--json\<close>: the lines that the commands of \<open>cli.py\<close> and the builders of
  \<open>contract.py\<close> make of the data. How a float is printed (\<open>:g\<close>) and how an instant is (\<open>strftime\<close> in UTC
  with six digits of a second) are parameters.
\<close>

record fmt =
  fm_g :: "pyfloat \<Rightarrow> string"
  fm_utc :: "pyfloat \<Rightarrow> string"

definition or_else :: "string option \<Rightarrow> string \<Rightarrow> string" where
  \<comment> \<open>\<open>value or default\<close>\<close>
  "or_else v d = (case v of Some s \<Rightarrow> if s = [] then d else s | None \<Rightarrow> d)"

definition line_if :: "bool \<Rightarrow> string \<Rightarrow> string list" where
  "line_if b line = (if b then [line] else [])"

definition unless_empty :: "string \<Rightarrow> string option \<Rightarrow> string list" where
  \<comment> \<open>a labelled line when the value is true of Python\<close>
  "unless_empty label v = (case v of Some s \<Rightarrow> line_if (s \<noteq> []) (label @ s) | None \<Rightarrow> [])"

definition lower_bool :: "bool \<Rightarrow> string" where
  "lower_bool b = (if b then ''true'' else ''false'')"

definition pairs_text :: "pydict \<Rightarrow> string" where
  "pairs_text d = join_with '' '' (map (\<lambda>(k, v). k @ ''='' @ v) (sort_key fst d))"

definition rstrip_newlines :: "string \<Rightarrow> string" where
  "rstrip_newlines s = rev (dropWhile (\<lambda>c. [c] = NEWLINE) (rev s))"

section \<open>Submitting and working\<close>

definition add_text :: "add_data \<Rightarrow> string" where
  "add_text a = (if ad_deduplicated a
     then ''Job '' @ str_of_int (ad_job_id a) @ '' already active under key '' @ [CHR 0x27] @ or_else (ad_key a) ''None''
       @ [CHR 0x27] @ '' ('' @ job_state_name (ad_state a) @ '')''
     else ''Added job '' @ str_of_int (ad_job_id a))"

definition work_once_text :: "summary option \<Rightarrow> string" where
  "work_once_text s = (case s of None \<Rightarrow> ''No eligible job''
     | Some su \<Rightarrow> ''Job '' @ str_of_int (su_job_id su) @ '' attempt '' @ str_of_int (su_attempt_no su) @ '' ''
         @ su_result su @ '' -> '' @ (case su_job_state su of None \<Rightarrow> ''discarded'' | Some st \<Rightarrow> job_state_name st))"

definition work_drain_text :: "bool \<Rightarrow> nat \<Rightarrow> string" where
  "work_drain_text drained executed =
     (if drained then ''Drained: executed '' else ''Stopped before the queue settled; executed '')
       @ str_of_nat executed @ '' job(s)''"

section \<open>Reading\<close>

definition counts_text :: "counts \<Rightarrow> string" where
  "counts_text c = join_with ''  '' (map (\<lambda>s. job_state_name s @ '' '' @ str_of_int (c s)) (sort JOB_STATES))"

definition dead_line :: "dead_letter \<Rightarrow> string" where
  "dead_line d = ''  #'' @ str_of_int (dl_id d) @ '' attempts='' @ str_of_int (dl_attempts d)
     @ (if dl_crashes d \<noteq> 0 then '' crashes='' @ str_of_int (dl_crashes d) else [])
     @ '' error='' @ or_else (dl_last_error d) ''-'' @ '' cmd: '' @ dl_command d"

definition status_text :: "status_data \<Rightarrow> string" where
  "status_text d = join_with NEWLINE
     ([counts_text (sd_counts d)]
      @ line_if (sd_scheduled d > 0) (''scheduled '' @ str_of_int (sd_scheduled d))
      @ (if list_ex (\<lambda>(name, _). name \<noteq> ''default'') (sd_queues d)
         then ''queues:'' # map (\<lambda>(name, q). ''  '' @ name @ '': '' @ counts_text (qs_counts q)
                @ (if qs_scheduled q > 0 then ''  scheduled '' @ str_of_int (qs_scheduled q) else [])) (sd_queues d)
         else [])
      @ (if sd_recent_dead d = [] then [] else ''recent dead:'' # map dead_line (sd_recent_dead d)))"

definition list_line :: "fmt \<Rightarrow> job \<Rightarrow> string" where
  "list_line fm j = ''#'' @ str_of_int (j_id j) @ ''  '' @ job_state_name (j_state j) @ ''  queue='' @ j_queue j
     @ ''  priority='' @ str_of_int (j_priority j) @ ''  next_run_at='' @ fm_g fm (j_next_run_at j)
     @ ''  attempts='' @ str_of_int (j_attempts j)
     @ (if j_crashes j \<noteq> 0 then ''  crashes='' @ str_of_int (j_crashes j) else [])
     @ concat (unless_empty ''  cwd='' (j_cwd j)) @ ''  '' @ shorten_command (j_argv j)"

definition list_text :: "fmt \<Rightarrow> job list \<Rightarrow> string" where
  "list_text fm js = (if js = [] then ''No jobs'' else join_with NEWLINE (map (list_line fm) js))"

definition attempt_line :: "attempt \<Rightarrow> string" where
  "attempt_line a = ''  attempt '' @ str_of_int (a_attempt_no a) @ ''  '' @ attempt_state_name (a_state a) @ ''  exit=''
     @ (case a_exit_code a of None \<Rightarrow> ''-'' | Some x \<Rightarrow> str_of_int x) @ ''  worker='' @ a_worker_id a
     @ concat (unless_empty ''  error: '' (a_error a))"

definition show_event_line :: "event \<Rightarrow> string" where
  "show_event_line e = ''  '' @ event_type_name (e_event e) @ concat (unless_empty ''  worker='' (e_worker_id e))
     @ concat (unless_empty ''  '' (e_detail e))"

definition show_text :: "fmt \<Rightarrow> show_result \<Rightarrow> string" where
  "show_text fm r = (let j = sh_job r in join_with NEWLINE
     ([''#'' @ str_of_int (j_id j) @ ''  '' @ job_state_name (j_state j) @ ''  failure retries used: ''
        @ str_of_int (j_attempts j - j_crashes j) @ ''/'' @ str_of_int (j_max_retries j) @ ''  worker crashes: ''
        @ str_of_int (j_crashes j) @ '' (tolerated before dead: ''
        @ (case j_max_crashes j of None \<Rightarrow> ''unbounded'' | Some m \<Rightarrow> str_of_int m) @ '')  ''
        @ shorten_command (j_argv j),
       ''queue: '' @ j_queue j, ''priority: '' @ str_of_int (j_priority j),
       ''next_run_at: '' @ fm_g fm (j_next_run_at j), ''cwd: '' @ or_else (j_cwd j) ''inherit'']
      @ line_if (j_env j \<noteq> []) (''env: '' @ pairs_text (j_env j))
      @ unless_empty ''key: '' (j_idempotency_key j)
      @ line_if (j_tags j \<noteq> []) (''tags: '' @ pairs_text (j_tags j))
      @ unless_empty ''note: '' (j_note j)
      @ map attempt_line (sh_attempts r)
      @ (if sh_events r = [] then [] else ''events:'' # map show_event_line (sh_events r))))"

definition wait_text :: "int list \<Rightarrow> wait_data \<Rightarrow> string" where
  \<comment> \<open>the ids as given, repeated ones too\<close>
  "wait_text ids d = join_with NEWLINE
     (map (\<lambda>i. ''#'' @ str_of_int i @ ''  '' @
        (case map_of (wd_jobs d) i of Some j \<Rightarrow> job_state_name (j_state j) | None \<Rightarrow> [])) ids
      @ [if wd_all_succeeded d then ''all succeeded'' else ''not all succeeded''])"

definition output_text :: "(bytes \<Rightarrow> string) \<Rightarrow> int \<Rightarrow> output_result \<Rightarrow> string" where
  "output_text decode job_id r = (case r of
       No_attempts \<Rightarrow> ''Job '' @ str_of_int job_id @ '' has no attempts yet''
     | Output d \<Rightarrow> join_with NEWLINE (concat (map (\<lambda>(s, b). let body = decode b in
         (''=== job '' @ str_of_int job_id @ '' attempt '' @ str_of_int (od_attempt_no d) @ '' '' @ stream_name s @ '' ==='')
         # line_if (body \<noteq> []) (rstrip_newlines body)) (od_bytes d))))"

definition stream_text :: "string \<Rightarrow> feedback_entry \<Rightarrow> string list" where
  "stream_text name e = (if fe_missing e then [''=== '' @ name @ '' (missing) ===''] else
     (''=== '' @ name @ '' ('' @ str_of_nat (fe_size_bytes e) @ '' bytes''
        @ (if fe_truncated e then '', tail truncated) ==='' else '') ===''))
     # line_if (fe_tail e \<noteq> []) (rstrip_newlines (fe_tail e)))"

definition feedback_text :: "fmt \<Rightarrow> stream option \<Rightarrow> feedback_data \<Rightarrow> string" where
  \<comment> \<open>\<open>_format_feedback_human\<close>; no stream: both\<close>
  "feedback_text fm picked d =
     (let verdict = (if fd_terminal d then (if fd_succeeded d = Some True then ''succeeded'' else ''failed'')
            else ''in flight'')
      in join_with NEWLINE
       ([''#'' @ str_of_int (fd_job_id d) @ ''  '' @ job_state_name (fd_state d) @ ''  '' @ verdict]
        @ (case fd_exit_code d of None \<Rightarrow> [] | Some x \<Rightarrow> [''exit_code: '' @ str_of_int x])
        @ (case fd_failure_reason d of None \<Rightarrow> [] | Some r \<Rightarrow> [''failure_reason: '' @ failure_reason_name r])
        @ unless_empty ''last_error: '' (fd_last_error d)
        @ [''attempts: '' @ str_of_int (fd_attempts d) @ ''  recorded: '' @ str_of_nat (fd_attempts_total d)]
        @ (case fd_duration d of None \<Rightarrow> [] | Some x \<Rightarrow> [''duration_seconds: '' @ fm_g fm x])
        @ (if picked \<noteq> Some Stderr then stream_text ''stdout'' (fd_stdout d) else [])
        @ (if picked \<noteq> Some Stdout then stream_text ''stderr'' (fd_stderr d) else [])
        @ (case fd_remediation d of None \<Rightarrow> [] | Some r \<Rightarrow> [''next: '' @ remedy_text (fd_job_id d) r])))"

section \<open>Events\<close>

definition event_line :: "fmt \<Rightarrow> event \<Rightarrow> string" where
  \<comment> \<open>\<open>_format_event_line\<close>: microseconds cut to milliseconds\<close>
  "event_line fm e = (let ts = fm_utc fm (e_at e) in str_of_int (e_id e) @ ''  ''
     @ take (length ts - 4) ts @ ''Z'' @ '' #'' @ str_of_int (e_job_id e) @ '' '' @ event_type_name (e_event e)
     @ ''  '' @ or_else (e_worker_id e) ''-'' @ ''  '' @ or_else (e_detail e) ''-'')"

definition events_text :: "fmt \<Rightarrow> event list \<Rightarrow> string" where
  "events_text fm es = (if es = [] then ''No events'' else join_with NEWLINE (map (event_line fm) es))"

section \<open>Changing\<close>

definition retry_text :: "int \<Rightarrow> string" where
  "retry_text i = ''Requeued job '' @ str_of_int i @ '' with a fresh retry budget''"

definition cancel_text :: "cancel_data \<Rightarrow> string" where
  "cancel_text d = ''Canceled job '' @ str_of_int (cd_job_id d) @ (if cd_was_running d
     then '' (was running; the owning worker kills its process group within a heartbeat)'' else [])"

definition prune_text :: "prune_report \<Rightarrow> string" where
  "prune_text r = (if \<not> pr_actual r
     then ''would prune '' @ str_of_int (pr_deleted_jobs r) @ '' job(s), freeing '' @ str_of_nat (pr_freed_bytes r)
       @ '' bytes (dry run)''
     else ''pruned '' @ str_of_int (pr_deleted_jobs r) @ '' job(s), freed '' @ str_of_nat (pr_freed_bytes r) @ '' bytes'')"

section \<open>Configuration, doctor, documents\<close>

definition config_show_text :: "effective_config \<Rightarrow> string" where
  "config_show_text e = join_with NEWLINE
     [''config_path: '' @ (case ec_config_path e of None \<Rightarrow> ''None'' | Some p \<Rightarrow> p),
      ''config_exists: '' @ lower_bool (ec_config_exists e), ''config_valid: '' @ lower_bool (ec_config_valid e),
      ''db_path: '' @ ec_db_path e, ''db_source: '' @ source_name (ec_db_source e)]"

definition config_validate_text :: "config_validation \<Rightarrow> string" where
  "config_validate_text v = join_with NEWLINE
     [''config_path: '' @ cv_config_path v, ''exists: '' @ lower_bool (cv_exists v),
      ''valid: '' @ lower_bool (cv_valid v), ''format: json'', ''schema_version: '' @ str_of_int CONFIG_SCHEMA_VERSION]"

definition failed_check_text :: "wording \<Rightarrow> check \<Rightarrow> string list" where
  "failed_check_text wo c = (''  '' @ check_name (ck_id c) @ '': '' @ fst (wo_check wo c))
     # unless_empty ''    remediation: '' (snd (wo_check wo c))"

definition doctor_text :: "wording \<Rightarrow> doctor_data \<Rightarrow> string" where
  \<comment> \<open>\<open>_format_doctor_human\<close>\<close>
  "doctor_text wo d =
     (let s = dd_summary d; failures = filter (\<lambda>c. ck_status c = Fail) (dd_checks d)
      in join_with NEWLINE
       ([''ready: '' @ (if dd_ready d then ''yes'' else ''no''),
         ''db: '' @ or_else (dc_db_path (dd_config d)) ''-'' @ '' (''
           @ or_else (map_option source_name (dc_db_source (dd_config d))) ''-'' @ '')'',
         ''schema: '' @ str_of_int SCHEMA_VERSION,
         ''checks: '' @ str_of_nat (ds_passed s) @ '' passed, '' @ str_of_nat (ds_warnings s) @ '' warnings, ''
           @ str_of_nat (ds_failed s) @ '' failed, '' @ str_of_nat (ds_skipped s) @ '' skipped'']
        @ (if failures = [] then [] else ''failed checks:'' # concat (map (failed_check_text wo) failures))))"

definition schema_text :: string where
  "schema_text = join_with NEWLINE
     [''spoolctl JSON Schemas:'', ''verbs: '' @ join_with '', '' (sort (map fst VERB_SCHEMAS)),
      ''run with --json for envelope_schema, verbs, and streams'']"

definition capabilities_text :: "(string \<times> action list) list \<Rightarrow> string option" where
  \<comment> \<open>\<open>None\<close>: a verb without a summary\<close>
  "capabilities_text parser_verbs = map_option (\<lambda>lines. join_with NEWLINE
       ((''spoolctl contract v'' @ CONTRACT_VERSION) # lines
        @ [''run with --json for the full machine-readable contract'']))
     (those (map (\<lambda>(n, _). map_option (\<lambda>(summary, _). ''  '' @ n @ '': '' @ summary) (map_of VERB_SUMMARIES n))
       (sort_key fst parser_verbs)))"

section \<open>Reading a listing back\<close>

text \<open>A listing has one line per job, in order, as long as no text of a job holds a newline. The code does not
  see to that: a command with a newline in it prints as two lines, the second whatever the submitter chose.\<close>

lemma split_join:
  "ws \<noteq> [] \<Longrightarrow> \<forall>w\<in>set ws. c \<notin> set w \<Longrightarrow> split_on c (join_with [c] ws) = ws"
proof (induction ws rule: induct_list012)
  case (2 w)
  then have "c \<notin> set w" by simp
  then show ?case by (induction w) auto
next
  case (3 w v ws)
  then have IH: "split_on c (join_with [c] (v # ws)) = v # ws" and w: "c \<notin> set w" by auto
  have "split_on c (w @ c # s) = w # split_on c s" for s
    using w by (induction w) auto
  with IH show ?case by simp
qed simp

abbreviation newline :: char where
  "newline \<equiv> CHR 0x0A"

lemma newline_free_numbers: "newline \<notin> set (str_of_nat n)" "newline \<notin> set (str_of_int i)"
proof -
  show n: "newline \<notin> set (str_of_nat n)" for n
    using all_digits_str_of_nat[of n] by (auto simp: all_digits_def list_all_iff is_digit_def)
  show "newline \<notin> set (str_of_int i)" using n by (auto simp: str_of_int_def)
qed

lemma join_with_set: "set (join_with sep ws) \<subseteq> set sep \<union> \<Union> (set ` set ws)"
  by (induction sep ws rule: join_with.induct) auto

definition one_line :: "job \<Rightarrow> bool" where
  "one_line j \<longleftrightarrow> newline \<notin> set (j_queue j) \<and> newline \<notin> set (concat (j_argv j))
     \<and> (case j_cwd j of None \<Rightarrow> True | Some p \<Rightarrow> newline \<notin> set p)"

lemma list_line_newline:
  assumes "one_line j" and "newline \<notin> set (fm_g fm (j_next_run_at j))"
  shows "newline \<notin> set (list_line fm j)"
proof -
  have "newline \<notin> set (job_state_name (j_state j))" by (cases "j_state j") simp_all
  moreover have "newline \<notin> set (shorten_command (j_argv j))"
    using assms(1) join_with_set[of "'' ''" "j_argv j"]
    by (auto simp: one_line_def shorten_command_def Let_def dest!: in_set_takeD)
  ultimately show ?thesis using assms newline_free_numbers(2)
    by (auto simp: list_line_def one_line_def unless_empty_def line_if_def split: option.splits)
qed

lemma listing_lines:
  assumes "js \<noteq> []" and "\<forall>j\<in>set js. one_line j" and "\<And>x. newline \<notin> set (fm_g fm x)"
  shows "split_on newline (list_text fm js) = map (list_line fm) js"
  using assms list_line_newline by (auto simp: list_text_def NEWLINE_def intro!: split_join)

text \<open>One job whose command holds a newline prints exactly as two jobs, one of them made up.\<close>

lemma listing_forged:
  "\<exists>fm j k m. list_text fm [j] = list_text fm [k, m] \<and> j_state m = DONE \<and> j_id m \<noteq> j_id j
     \<and> (\<forall>x. newline \<notin> set (fm_g fm x)) \<and> one_line k \<and> one_line m"
proof -
  let ?fm = "\<lparr>fm_g = (\<lambda>_. ''0''), fm_utc = (\<lambda>_. [])\<rparr>"
  let ?b = "(hd (jobs db_dead))\<lparr>j_id := 1, j_queue := ''a'', j_cwd := None, j_crashes := 0, j_argv := [''x'']\<rparr>"
  let ?m = "?b\<lparr>j_id := 2, j_state := DONE\<rparr>"
  let ?j = "?b\<lparr>j_argv := [''x'' @ NEWLINE @ list_line ?fm ?m]\<rparr>"
  have "list_text ?fm [?j] = list_text ?fm [?b, ?m]" by code_simp
  moreover have "one_line ?b" "one_line ?m" by (simp_all add: one_line_def)
  moreover have "\<forall>x. newline \<notin> set (fm_g ?fm x)" by simp
  moreover have "j_state ?m = DONE" "j_id ?m \<noteq> j_id ?j" by simp_all
  ultimately show ?thesis by blast
qed

end
