(* ===== verification/Spec2Isabelle.thy ===== *)
theory Spec2Isabelle
  imports Concurrency Brief PayloadProps Published Human
begin

text \<open>
  A verification library for \<open>spoolctl\<close> (\<open>src/spoolctl/\<close>), a local job queue on one SQLite file:
  commands are enqueued, worker processes claim and run them, failures are retried with backoff, jobs of
  dead workers are reaped, and a command line with a published contract reads and changes the queue.

  \<^bold>\<open>Layers.\<close> The theories follow the modules of the program.

  \<^item> \<open>Prelude\<close>, \<open>PyFloat\<close>, \<open>PyStr\<close>: lists of rows with ascending ids, fallible results (\<open>and_then\<close>), Python
    floats as rationals rounded to binary64, Python strings, dictionaries and number texts.
  \<^item> \<open>Models\<close> (\<open>models.py\<close>, \<open>errors.py\<close>): states, reasons, events, limits, exit codes, the code registry,
    backoff, did-you-mean, \<open>Job\<close> and \<open>Attempt\<close>; the exceptions a call may raise. \<open>Registry\<close>: the texts of the
    registry that the contract publishes.
  \<^item> \<open>Database\<close>, \<open>Store\<close>, \<open>StoreRead\<close> (\<open>store.py\<close>): the three tables, every write transaction and every
    query. A write takes the database lock first, so it is one function on the tables; a query is one
    function of the tables at its moment. \<open>StoreInv\<close>, \<open>StoreRuns\<close>, \<open>StoreProps\<close>, \<open>StoreOwnership\<close>,
    \<open>StoreLifecycle\<close>, \<open>StoreQueries\<close> hold what they promise; \<open>Demo\<close> the runs the witnesses use.
  \<^item> \<open>Migrate\<close> (\<open>store.py\<close>: \<open>connect\<close>, \<open>_ensure_schema\<close>, \<open>_migrate_v1_to_v2\<close> to \<open>_migrate_v5_to_v6\<close>,
    \<open>_rebuild_table\<close>): the physical file and its upgrade.
  \<^item> \<open>Validation\<close> (\<open>validation.py\<close>), \<open>Config\<close> (\<open>config.py\<close>): argument parsers; which database is used.
  \<^item> \<open>Worker\<close> (\<open>worker.py\<close>): liveness probe, reap pass, heartbeat, execution, work loop. \<open>Concurrency\<close>
    composes many workers and other clients into one step relation.
  \<^item> \<open>OperationsRead\<close>, \<open>OperationsWrite\<close>, \<open>Doctor\<close> (\<open>operations.py\<close>): the verb bodies. Every statement of an
    operation has its own database value, so what others commit between two statements is an input.
  \<^item> \<open>Json\<close>: JSON values, Python dictionaries (\<open>d.update\<close>, \<open>setdefault\<close>), a datatype of JSON Schemas and
    \<open>conforms\<close>, what it means that a value conforms to one. \<open>Schemas\<close> (\<open>schemas.py\<close>): every published
    schema and the brief. \<open>Parser\<close> (\<open>cli.py\<close>: \<open>build_parser\<close>): the subparsers with their actions.
    \<open>Contract_Tables\<close>, \<open>Contract\<close> (\<open>contract.py\<close>): the tables and the builders of capabilities, brief,
    schemas and robot docs; \<open>ContractProps\<close>, \<open>Brief\<close> hold what they promise. The doctor's contract check
    runs these builders.
  \<^item> \<open>Follow\<close>, \<open>Cli\<close> (\<open>cli.py\<close>): the event follower; argument checks, consent gates, dispatch, translation of
    exceptions, exit codes, \<open>main\<close>.
  \<^item> \<open>Payloads\<close> (\<open>operations.py\<close>, \<open>cli.py\<close>: \<open>make_envelope\<close>, \<open>_write_control_frame\<close>): the dictionaries that each verb
    answers with, the envelope and the frames of the event stream; \<open>PayloadProps\<close> relates them to the
    published schemas, \<open>Published\<close> the published ranges and exclusions of arguments to what the verbs accept.
  \<^item> \<open>Human\<close> (\<open>cli.py\<close>, \<open>contract.py\<close>): the text each verb prints without \<open>--json\<close>.

  \<^bold>\<open>Interfaces.\<close> \<open>ledger_table\<close> and \<open>row_table\<close> state what a table promises (interpreted by the three
  tables), \<open>cursor_page\<close> what a paged read promises (interpreted by \<open>list_events\<close> at every page size and used
  for the follower), \<open>simulation\<close> what a refinement of a step relation needs (the store against the lifecycle
  graph), \<open>machine\<close> an invariant of the concurrent system.

  \<^bold>\<open>What is shown.\<close> Store: the database invariant holds in every reachable state; every operation is one edge
  of the lifecycle graph or invisible; a claim takes the best eligible job; a worker that lost its job
  cannot write its result; budgets bound executions; the event trail replays to the row. Concurrency:
  no two workers execute a job while the probe is right; a live worker keeps its job; a dead worker's job
  is recovered. Migration: any older file reaches schema 6, with other processes migrating at the same time,
  and keeps its rows. Operations: listing, event pages, feedback, prune, cancel, retry, wait and doctor do what
  they report, with the interleavings in which they do not made exact in the statement. Command line: every
  exit is a published one, an error other than the internal one has written nothing, and nothing destructive
  happens without consent. Machine output: every envelope, frame and capabilities document conforms to the
  schema the program publishes for it, and an answer has the data of its own verb;
  accepted arguments lie in the published ranges, and flags published as exclusive are refused.

  \<^bold>\<open>Bounds and fuel.\<close> Loops that depend on the outside take the list of what each turn observes and give
  \<open>None\<close> while they have not ended: \<open>work_loop\<close>, \<open>wait_loop\<close>, \<open>events_wait\<close>, \<open>follow_loop\<close>, \<open>schema_loop\<close>. The
  loop of the brief is \<open>brief_loop\<close>, a partial function that \<open>brief_settles\<close> shows to end on every text. That
  the others end is proved where the code promises it: \<open>wait_returns\<close> (a turn past the deadline is enough),
  \<open>upgrade_reaches_current\<close> (one round per version is enough).

  \<^bold>\<open>Not modelled.\<close> What \<open>argparse\<close> makes of a command line (a parameter of \<open>main\<close>; what the parser is built of
  is modelled), SQLite's own locking and durability, UTF-8 (decoding is a parameter) and the text form of JSON
  (the digest in the envelope, the request id and the clock are the parameter \<open>stamp\<close>), the messages composed
  at run time (\<open>wording\<close>), the printing of floats and instants in human-readable text (\<open>fmt\<close>),
  and the repository's scripts, which read and write files around the builders: \<open>build_docs.py\<close>, \<open>signature.py\<close>, \<open>build_single_file.py\<close>, \<open>repeated_literals.py\<close>. Of a
  published schema the keywords \<open>$schema\<close>, \<open>title\<close> and \<open>description\<close> are left out. Characters are 8 bits wide.
\<close>

end
